(* ===== verification/Prelude.thy ===== *)
theory Prelude
  imports Main "HOL-Library.Word"
begin

text \<open>
  What every component shares: the Go values of the model (64-bit integers,
  instants, strings, errors, JSON documents), the effects of a service (its
  database, the clock, the identifier source, remote peers) as a state and error
  monad, and database transactions.

  A service runs against a \<open>world\<close>: its database \<open>db\<close>, the state of the remote
  services it calls (\<open>peer\<close>), and four sources of results the service does not
  determine itself. \<open>clock n\<close>, \<open>uuid n\<close> and \<open>fault n\<close> are what the \<open>n\<close>-th
  interaction with the outside yields when that interaction is a reading of the
  clock, a new identifier (\<open>github.com/google/uuid\<close>), or an SQL statement
  (\<open>fault n = Some m\<close>: the driver reports the error \<open>m\<close>, the statement has no
  effect). \<open>tick\<close> counts the interactions. The three sources are arbitrary
  functions, so every statement about a handler is for every clock, every
  identifier source and every pattern of database failures.
\<close>

section \<open>Values\<close>

type_synonym int64 = "64 word"
type_synonym id = string

text \<open>
  An instant (\<open>time.Time\<close>) is a number of nanoseconds since Go's zero time, so
  \<open>t.IsZero()\<close> is \<open>t = 0\<close>; a \<open>time.Duration\<close> is a number of nanoseconds.
\<close>

type_synonym time = int
type_synonym duration = int

definition second :: duration where
  "second = 1000000000"

definition minute :: duration where
  "minute = 60 * second"

text \<open>Postgres keeps instants to the microsecond; pgx drops the rest of the nanoseconds.\<close>

definition pg_time :: "time \<Rightarrow> time" where
  "pg_time t = t div 1000 * 1000"

text \<open>\<open>in_int64 i\<close>: the integer \<open>i\<close> is representable as a signed 64-bit value.\<close>

definition in_int64 :: "int \<Rightarrow> bool" where
  "in_int64 i \<longleftrightarrow> - (2 ^ 63) \<le> i \<and> i < 2 ^ 63"

lemma sint64_bounds: "- (2 ^ 63) \<le> sint (x :: int64)" "sint (x :: int64) < 2 ^ 63"
  using sint_ge [of x] sint_lt [of x] by simp_all

lemma in_int64_sint [simp]: "in_int64 (sint (x :: int64))"
  using sint64_bounds [of x] by (simp add: in_int64_def)

lemma sint_of_int64: "in_int64 i \<Longrightarrow> sint (word_of_int i :: int64) = i"
  by (simp add: in_int64_def sint_sbintrunc' signed_take_bit_int_eq_self)

lemma sint_add64: "in_int64 (sint x + sint y) \<Longrightarrow> sint (x + y :: int64) = sint x + sint y"
proof -
  assume h: "in_int64 (sint x + sint y)"
  have "x + y = word_of_int (sint x + sint y)" by simp
  then have "sint (x + y) = sint (word_of_int (sint x + sint y) :: int64)" by (rule arg_cong)
  then show ?thesis using h by (simp only: sint_of_int64)
qed

lemma sint_minus64: "0 < sint x \<Longrightarrow> sint (- x :: int64) = - sint x"
proof -
  assume h: "0 < sint x"
  have "in_int64 (- sint x)" using h sint64_bounds [of x] by (simp add: in_int64_def)
  moreover have "- x = word_of_int (- sint x)" by simp
  ultimately show ?thesis by (metis sint_of_int64)
qed

subsection \<open>Errors\<close>

text \<open>
  Go errors. \<open>ErrorString m\<close> is \<open>errors.New(m)\<close>; \<open>Wrapped m e\<close> is
  \<open>fmt.Errorf("m: %w", e)\<close>; \<open>DbError m\<close> is an error of the database driver;
  \<open>Status c m\<close> is a gRPC status; \<open>JsonError\<close> is an error of \<open>encoding/json\<close>;
  \<open>Panic m\<close> is a call of \<open>panic\<close>, which unwinds the handler like an error does.
\<close>

datatype code = Unknown | InvalidArgument | NotFound | PermissionDenied | Unauthenticated
  | ResourceExhausted | Internal | Unavailable

datatype go_error =
    ErrorString string
  | Wrapped string go_error
  | DbError string
  | Status code string
  | JsonError
  | Panic string

fun Error_text :: "go_error \<Rightarrow> string" where
  "Error_text (ErrorString m) = m"
| "Error_text (Wrapped m e) = m @ '': '' @ Error_text e"
| "Error_text (DbError m) = m"
| "Error_text (Status c m) = m"
| "Error_text JsonError = ''json: cannot unmarshal''"
| "Error_text (Panic m) = m"

text \<open>The errors Postgres reports for a violated key, an overflowing bigint and an unknown column.\<close>

definition unique_violation :: "string \<Rightarrow> go_error" where
  "unique_violation c =
     DbError (''ERROR: duplicate key value violates unique constraint '' @ c @ '' (SQLSTATE 23505)'')"

definition bigint_out_of_range :: go_error where
  "bigint_out_of_range = DbError ''ERROR: bigint out of range (SQLSTATE 22003)''"

definition undefined_column :: "string \<Rightarrow> go_error" where
  "undefined_column c = DbError (''ERROR: column '' @ c @ '' does not exist (SQLSTATE 42703)'')"

subsection \<open>JSON documents\<close>

text \<open>
  A marshalled value is represented by its JSON value, not by its text:
  \<open>json.Unmarshal\<close> after \<open>json.Marshal\<close> sees the same value. \<open>JTime\<close> is the
  RFC 3339 string of an instant, \<open>JBytes\<close> the base64 string of a byte slice that
  itself holds a document. Decoding a struct field takes the last member of that
  name, leaves the zero value when there is none or it is \<open>null\<close>, and fails on a
  member of another kind.
\<close>

datatype json =
    JNull
  | JInt int
  | JStr string
  | JTime time
  | JBytes json
  | JObj "(string \<times> json) list"

definition jmember :: "(string \<times> json) list \<Rightarrow> string \<Rightarrow> json option" where
  "jmember kvs k = map_of (rev kvs) k"

fun dec_obj :: "json \<Rightarrow> go_error + (string \<times> json) list" where
  "dec_obj (JObj kvs) = Inr kvs"
| "dec_obj JNull = Inr []"
| "dec_obj _ = Inl JsonError"

fun dec_string :: "json option \<Rightarrow> go_error + string" where
  "dec_string None = Inr ''''"
| "dec_string (Some JNull) = Inr ''''"
| "dec_string (Some (JStr s)) = Inr s"
| "dec_string (Some _) = Inl JsonError"

fun dec_int64 :: "json option \<Rightarrow> go_error + int64" where
  "dec_int64 None = Inr 0"
| "dec_int64 (Some JNull) = Inr 0"
| "dec_int64 (Some (JInt i)) = (if in_int64 i then Inr (word_of_int i) else Inl JsonError)"
| "dec_int64 (Some _) = Inl JsonError"

fun dec_int :: "json option \<Rightarrow> go_error + int" where
  "dec_int None = Inr 0"
| "dec_int (Some JNull) = Inr 0"
| "dec_int (Some (JInt i)) = (if in_int64 i then Inr i else Inl JsonError)"
| "dec_int (Some _) = Inl JsonError"

fun dec_time :: "json option \<Rightarrow> go_error + time" where
  "dec_time None = Inr 0"
| "dec_time (Some JNull) = Inr 0"
| "dec_time (Some (JTime t)) = Inr t"
| "dec_time (Some _) = Inl JsonError"

definition bindS :: "go_error + 'a \<Rightarrow> ('a \<Rightarrow> go_error + 'b) \<Rightarrow> go_error + 'b" where
  "bindS r f = (case r of Inl e \<Rightarrow> Inl e | Inr x \<Rightarrow> f x)"

lemma bindS_simps [simp]: "bindS (Inl e) f = Inl e" "bindS (Inr x) f = f x"
  by (simp_all add: bindS_def)

lemma bindS_Inr_iff: "bindS r f = Inr y \<longleftrightarrow> (\<exists>x. r = Inr x \<and> f x = Inr y)"
  by (cases r) simp_all

lemma dec_int64_sint [simp]: "dec_int64 (Some (JInt (sint (x :: int64)))) = Inr x"
  by simp

section \<open>Effects\<close>

record ('d, 'p) world =
  db :: 'd
  peer :: 'p
  clock :: "nat \<Rightarrow> time"
  uuid :: "nat \<Rightarrow> id"
  fault :: "nat \<Rightarrow> string option"
  tick :: nat
  txtime :: "time option"

type_synonym ('d, 'p, 'a) go = "('d, 'p) world \<Rightarrow> (go_error + 'a) \<times> ('d, 'p) world"

named_theorems go_run \<open>how an operation runs when the database does not fail\<close>
named_theorems go_inv \<open>what a successful run of an operation means\<close>
named_theorems go_env \<open>operations leave the outside sources alone\<close>

definition returnE :: "'a \<Rightarrow> ('d, 'p, 'a) go" where
  "returnE x = (\<lambda>w. (Inr x, w))"

definition throwE :: "go_error \<Rightarrow> ('d, 'p, 'a) go" where
  "throwE e = (\<lambda>w. (Inl e, w))"

definition bindE :: "('d, 'p, 'a) go \<Rightarrow> ('a \<Rightarrow> ('d, 'p, 'b) go) \<Rightarrow> ('d, 'p, 'b) go" where
  "bindE m f = (\<lambda>w. case m w of (Inl e, w') \<Rightarrow> (Inl e, w') | (Inr x, w') \<Rightarrow> f x w')"

text \<open>\<open>tryE m\<close> runs \<open>m\<close> and hands its error to the caller as a value: \<open>x, err := m\<close>.\<close>

definition tryE :: "('d, 'p, 'a) go \<Rightarrow> ('d, 'p, go_error + 'a) go" where
  "tryE m = (\<lambda>w. case m w of (r, w') \<Rightarrow> (Inr r, w'))"

definition liftE :: "go_error + 'a \<Rightarrow> ('d, 'p, 'a) go" where
  "liftE r = (\<lambda>w. (r, w))"

text \<open>\<open>forE f xs\<close> is \<open>for _, x := range xs { if err := f(x); err != nil { return err } }\<close>.\<close>

primrec forE :: "('a \<Rightarrow> ('d, 'p, unit) go) \<Rightarrow> 'a list \<Rightarrow> ('d, 'p, unit) go" where
  "forE f [] = returnE ()"
| "forE f (x # xs) = bindE (f x) (\<lambda>_. forE f xs)"

primrec mapE :: "('a \<Rightarrow> ('d, 'p, 'b) go) \<Rightarrow> 'a list \<Rightarrow> ('d, 'p, 'b list) go" where
  "mapE f [] = returnE []"
| "mapE f (x # xs) = bindE (f x) (\<lambda>y. bindE (mapE f xs) (\<lambda>ys. returnE (y # ys)))"

text \<open>\<open>newID\<close> is \<open>ids.New()\<close>, \<open>nowUTC\<close> is \<open>time.Now().UTC()\<close>.\<close>

definition newID :: "('d, 'p, id) go" where
  "newID = (\<lambda>w. (Inr (uuid w (tick w)), w\<lparr>tick := Suc (tick w)\<rparr>))"

definition nowUTC :: "('d, 'p, time) go" where
  "nowUTC = (\<lambda>w. (Inr (clock w (tick w)), w\<lparr>tick := Suc (tick w)\<rparr>))"

text \<open>
  One SQL statement: the driver may fail; otherwise the statement \<open>st\<close> reads and
  updates the database, given what \<open>now()\<close> is in SQL (the start of the running
  transaction, or of the statement when there is none), or fails without effect.
\<close>

definition sql_now :: "(time \<Rightarrow> 'd \<Rightarrow> go_error + 'a \<times> 'd) \<Rightarrow> ('d, 'p, 'a) go" where
  "sql_now st = (\<lambda>w.
     let w1 = w\<lparr>tick := Suc (tick w)\<rparr> in
     case fault w (tick w) of
       Some m \<Rightarrow> (Inl (DbError m), w1)
     | None \<Rightarrow>
         (case st (case txtime w of Some t \<Rightarrow> t | None \<Rightarrow> clock w (tick w)) (db w) of
            Inl e \<Rightarrow> (Inl e, w1)
          | Inr (x, d) \<Rightarrow> (Inr x, w1\<lparr>db := d\<rparr>)))"

definition sql :: "('d \<Rightarrow> go_error + 'a \<times> 'd) \<Rightarrow> ('d, 'p, 'a) go" where
  "sql st = sql_now (\<lambda>_. st)"

text \<open>
  Reading the rows of a query: \<open>rows.Next()\<close> also ends when the connection is lost, which only
  \<open>rows.Err()\<close> would tell. Where the code does not ask, it goes on with the rows received so far:
  \<open>lost\<close> is their number, \<open>None\<close> when all arrive.
\<close>

definition received :: "nat option \<Rightarrow> 'a list \<Rightarrow> 'a list" where
  "received lost rows = (case lost of None \<Rightarrow> rows | Some k \<Rightarrow> take k rows)"

lemma set_received: "set (received lost rows) \<subseteq> set rows"
  by (auto simp: received_def dest: in_set_takeD split: option.splits)

text \<open>
  \<open>PostgresUnitOfWork.WithTx\<close> (the same code in the ledger, account and payment
  services): begin, run the body, roll back when it returns an error, commit
  otherwise. \<open>rb d0 d1\<close> is the database after rolling back from \<open>d1\<close> to \<open>d0\<close>:
  everything is as in \<open>d0\<close> but the counters Postgres never takes back (identity
  columns). Begin and commit may fail. Two idealisations: a commit that reports an
  error has had no effect, while with a broken connection it may have had one; and the
  body runs without other transactions in between (\<open>LedgerRace\<close> has two that overlap).
\<close>

definition withTx :: "('d \<Rightarrow> 'd \<Rightarrow> 'd) \<Rightarrow> ('d, 'p, 'a) go \<Rightarrow> ('d, 'p, 'a) go" where
  "withTx rb body = (\<lambda>w.
     let w1 = w\<lparr>tick := Suc (tick w)\<rparr> in
     case fault w (tick w) of
       Some m \<Rightarrow> (Inl (DbError m), w1)
     | None \<Rightarrow>
         (case body (w1\<lparr>txtime := Some (clock w (tick w))\<rparr>) of
            (Inl e, w2) \<Rightarrow> (Inl e, w2\<lparr>db := rb (db w) (db w2), txtime := txtime w\<rparr>)
          | (Inr x, w2) \<Rightarrow>
              (case fault w2 (tick w2) of
                 Some m \<Rightarrow> (Inl (DbError m),
                   w2\<lparr>db := rb (db w) (db w2), tick := Suc (tick w2), txtime := txtime w\<rparr>)
               | None \<Rightarrow> (Inr x, w2\<lparr>tick := Suc (tick w2), txtime := txtime w\<rparr>))))"

subsection \<open>Successful runs\<close>

lemma returnE_inv [go_inv]: "returnE x w = (Inr y, w') \<longleftrightarrow> y = x \<and> w' = w"
  by (auto simp: returnE_def)

lemma throwE_inv [go_inv]: "throwE e w = (Inr y, w') \<longleftrightarrow> False"
  by (simp add: throwE_def)

lemma bindE_inv [go_inv]:
  "bindE m f w = (Inr y, w') \<longleftrightarrow> (\<exists>x v. m w = (Inr x, v) \<and> f x v = (Inr y, w'))"
  by (auto simp: bindE_def split: prod.splits sum.splits)

lemma liftE_inv [go_inv]: "liftE r w = (Inr y, w') \<longleftrightarrow> r = Inr y \<and> w' = w"
  by (auto simp: liftE_def)

lemma newID_inv [go_inv]:
  "newID w = (Inr y, w') \<longleftrightarrow> y = uuid w (tick w) \<and> w' = w\<lparr>tick := Suc (tick w)\<rparr>"
  by (auto simp: newID_def)

lemma nowUTC_inv [go_inv]:
  "nowUTC w = (Inr y, w') \<longleftrightarrow> y = clock w (tick w) \<and> w' = w\<lparr>tick := Suc (tick w)\<rparr>"
  by (auto simp: nowUTC_def)

lemma sql_inv [go_inv]:
  "sql st w = (Inr y, w') \<longleftrightarrow>
     fault w (tick w) = None \<and>
     (\<exists>d. st (db w) = Inr (y, d) \<and> w' = w\<lparr>tick := Suc (tick w), db := d\<rparr>)"
  by (auto simp: sql_def sql_now_def Let_def split: option.splits sum.splits)

lemma sql_now_inv [go_inv]:
  "sql_now st w = (Inr y, w') \<longleftrightarrow>
     fault w (tick w) = None \<and>
     (\<exists>d. st (case txtime w of Some t \<Rightarrow> t | None \<Rightarrow> clock w (tick w)) (db w) = Inr (y, d) \<and>
          w' = w\<lparr>tick := Suc (tick w), db := d\<rparr>)"
  by (auto simp: sql_now_def Let_def split: option.splits sum.splits)

lemma withTx_inv [go_inv]:
  "withTx rb body w = (Inr y, w') \<longleftrightarrow>
     fault w (tick w) = None \<and>
     (\<exists>v. body (w\<lparr>tick := Suc (tick w), txtime := Some (clock w (tick w))\<rparr>) = (Inr y, v) \<and>
          fault v (tick v) = None \<and> w' = v\<lparr>tick := Suc (tick v), txtime := txtime w\<rparr>)"
  by (auto simp: withTx_def Let_def split: option.splits sum.splits prod.splits)

text \<open>A transaction that returns an error leaves the database rolled back.\<close>

lemma withTx_error_db:
  "withTx rb body w = (Inl e, w') \<Longrightarrow> db w' = db w \<or> (\<exists>d. db w' = rb (db w) d)"
  by (auto simp: withTx_def Let_def split: option.splits sum.splits prod.splits)

subsection \<open>Runs when the database does not fail\<close>

definition healthy :: "('d, 'p) world \<Rightarrow> bool" where
  "healthy w \<longleftrightarrow> fault w = (\<lambda>_. None)"

lemma healthy_fault [simp]: "healthy w \<Longrightarrow> fault w n = None"
  by (simp add: healthy_def)

lemma healthy_update [simp]:
  "healthy (w\<lparr>tick := n\<rparr>) = healthy w"
  "healthy (w\<lparr>db := d\<rparr>) = healthy w"
  "healthy (w\<lparr>txtime := t\<rparr>) = healthy w"
  "healthy (w\<lparr>peer := p\<rparr>) = healthy w"
  by (simp_all add: healthy_def)

lemma returnE_run [go_run]: "returnE x w = (Inr x, w)"
  by (simp add: returnE_def)

lemma throwE_run [go_run]: "throwE e w = (Inl e, w)"
  by (simp add: throwE_def)

lemma liftE_run [go_run]: "liftE r w = (r, w)"
  by (simp add: liftE_def)

lemma bindE_run [go_run]:
  "m w = (Inr x, w') \<Longrightarrow> bindE m f w = f x w'"
  "m w = (Inl e, w') \<Longrightarrow> bindE m f w = (Inl e, w')"
  by (simp_all add: bindE_def)

lemma newID_run [go_run]: "newID w = (Inr (uuid w (tick w)), w\<lparr>tick := Suc (tick w)\<rparr>)"
  by (simp add: newID_def)

lemma nowUTC_run [go_run]: "nowUTC w = (Inr (clock w (tick w)), w\<lparr>tick := Suc (tick w)\<rparr>)"
  by (simp add: nowUTC_def)

lemma sql_run:
  "fault w (tick w) = None \<Longrightarrow> st (db w) = Inr (x, d) \<Longrightarrow>
     sql st w = (Inr x, w\<lparr>tick := Suc (tick w), db := d\<rparr>)"
  "fault w (tick w) = None \<Longrightarrow> st (db w) = Inl e \<Longrightarrow>
     sql st w = (Inl e, w\<lparr>tick := Suc (tick w)\<rparr>)"
  by (simp_all add: sql_def sql_now_def Let_def)

lemma sql_now_run:
  "fault w (tick w) = None \<Longrightarrow>
     st (case txtime w of Some t \<Rightarrow> t | None \<Rightarrow> clock w (tick w)) (db w) = Inr (x, d) \<Longrightarrow>
     sql_now st w = (Inr x, w\<lparr>tick := Suc (tick w), db := d\<rparr>)"
  by (simp add: sql_now_def Let_def)

lemma withTx_run:
  assumes "fault w (tick w) = None"
  shows "body (w\<lparr>tick := Suc (tick w), txtime := Some (clock w (tick w))\<rparr>) = (Inr x, v) \<Longrightarrow>
           fault v (tick v) = None \<Longrightarrow>
           withTx rb body w = (Inr x, v\<lparr>tick := Suc (tick v), txtime := txtime w\<rparr>)"
    and "body (w\<lparr>tick := Suc (tick w), txtime := Some (clock w (tick w))\<rparr>) = (Inl e, v) \<Longrightarrow>
           withTx rb body w = (Inl e, v\<lparr>db := rb (db w) (db v), txtime := txtime w\<rparr>)"
  using assms by (simp_all add: withTx_def Let_def)

subsection \<open>The outside sources never change\<close>

definition same_env :: "('d, 'p) world \<Rightarrow> ('d, 'p) world \<Rightarrow> bool" where
  "same_env w w' \<longleftrightarrow> clock w' = clock w \<and> uuid w' = uuid w \<and> fault w' = fault w
     \<and> tick w \<le> tick w' \<and> txtime w' = txtime w"

definition env_op :: "('d, 'p, 'a) go \<Rightarrow> bool" where
  "env_op m \<longleftrightarrow> (\<forall>w. same_env w (snd (m w)))"

lemma same_env_refl [simp]: "same_env w w"
  by (simp add: same_env_def)

lemma same_env_trans: "same_env u v \<Longrightarrow> same_env v w \<Longrightarrow> same_env u w"
  by (auto simp: same_env_def)

lemma env_opD: "env_op m \<Longrightarrow> m w = (r, w') \<Longrightarrow> same_env w w'"
  by (metis env_op_def snd_conv)

lemma env_op_healthy: "env_op m \<Longrightarrow> m w = (r, w') \<Longrightarrow> healthy w' = healthy w"
  by (drule (1) env_opD) (simp add: same_env_def healthy_def)

lemma env_basic [go_env]:
  "env_op (returnE x)" "env_op (throwE e)" "env_op (liftE r)" "env_op newID" "env_op nowUTC"
  by (simp_all add: env_op_def same_env_def returnE_def throwE_def liftE_def newID_def nowUTC_def)

lemma env_sql_now [go_env]: "env_op (sql_now st)"
  by (auto simp: env_op_def same_env_def sql_now_def Let_def split: option.splits sum.splits prod.splits)

lemma env_sql [go_env]: "env_op (sql st)"
  by (simp add: sql_def env_sql_now)

lemma env_bindE [go_env]: "env_op m \<Longrightarrow> (\<And>x. env_op (f x)) \<Longrightarrow> env_op (bindE m f)"
  unfolding env_op_def bindE_def
  by (auto split: prod.splits sum.splits) (metis same_env_trans snd_conv)+

lemma env_tryE [go_env]: "env_op m \<Longrightarrow> env_op (tryE m)"
  by (auto simp: env_op_def tryE_def split: prod.splits) (metis snd_conv)

lemma env_forE [go_env]: "(\<And>x. env_op (f x)) \<Longrightarrow> env_op (forE f xs)"
  by (induction xs) (simp_all add: go_env)

lemma env_mapE [go_env]: "(\<And>x. env_op (f x)) \<Longrightarrow> env_op (mapE f xs)"
  by (induction xs) (simp_all add: go_env)

lemma env_withTx [go_env]:
  assumes "env_op body"
  shows "env_op (withTx rb body)"
proof -
  have "same_env w (snd (withTx rb body w))" for w
  proof -
    let ?w1 = "w\<lparr>tick := Suc (tick w), txtime := Some (clock w (tick w))\<rparr>"
    have "same_env ?w1 (snd (body ?w1))" using assms by (simp add: env_op_def)
    then show ?thesis
      by (cases "body ?w1")
        (auto simp: withTx_def Let_def same_env_def split: option.splits sum.splits)
  qed
  then show ?thesis by (simp add: env_op_def)
qed

subsection \<open>Errors with context, and calls of other services\<close>

text \<open>\<open>if err != nil { return fmt.Errorf("msg: %w", err) }\<close>.\<close>

definition wrapE :: "string \<Rightarrow> ('d, 'p, 'a) go \<Rightarrow> ('d, 'p, 'a) go" where
  "wrapE msg m = (\<lambda>w. case m w of (Inl e, w') \<Rightarrow> (Inl (Wrapped msg e), w') | (Inr x, w') \<Rightarrow> (Inr x, w'))"

lemma wrapE_inv [go_inv]: "wrapE msg m w = (Inr y, w') \<longleftrightarrow> m w = (Inr y, w')"
  by (auto simp: wrapE_def split: prod.splits sum.splits)

lemma wrapE_run [go_run]: "m w = (Inr x, w') \<Longrightarrow> wrapE msg m w = (Inr x, w')"
  by (simp add: wrapE_def)

lemma env_wrapE [go_env]: "env_op m \<Longrightarrow> env_op (wrapE msg m)"
  by (auto simp: env_op_def wrapE_def split: prod.splits sum.splits) (metis snd_conv)+

text \<open>
  A call of another service, which changes the state of that service. \<open>rpc\<close> is the network in
  between: the call is delivered and answered, never arrives, or is executed but its answer is
  lost. Errors cross the wire as status values; an error that is not one has code \<open>Unknown\<close>.
\<close>

definition callPeer :: "('p \<Rightarrow> (go_error + 'a) \<times> 'p) \<Rightarrow> ('d, 'p, 'a) go" where
  "callPeer f = (\<lambda>w. case f (peer w) of (r, p) \<Rightarrow> (r, w\<lparr>peer := p\<rparr>))"

lemma callPeer_inv [go_inv]:
  "callPeer f w = (Inr y, w') \<longleftrightarrow> (\<exists>p. f (peer w) = (Inr y, p) \<and> w' = w\<lparr>peer := p\<rparr>)"
  by (auto simp: callPeer_def split: prod.splits)

lemma env_callPeer [go_env]: "env_op (callPeer f)"
  by (auto simp: env_op_def same_env_def callPeer_def split: prod.splits)

datatype transport = Delivered | Unreachable | ReplyLost

fun to_status :: "go_error \<Rightarrow> go_error" where
  "to_status (Status c m) = Status c m"
| "to_status e = Status Unknown (Error_text e)"

fun rpc :: "transport \<Rightarrow> ('s \<Rightarrow> (go_error + 'a) \<times> 's) \<Rightarrow> 's \<Rightarrow> (go_error + 'a) \<times> 's" where
  "rpc Delivered f s = (case f s of (Inl e, s') \<Rightarrow> (Inl (to_status e), s') | (Inr x, s') \<Rightarrow> (Inr x, s'))"
| "rpc Unreachable f s = (Inl (Status Unavailable ''connection refused''), s)"
| "rpc ReplyLost f s = (Inl (Status Unavailable ''transport is closing''), snd (f s))"

lemma rpc_Inr: "rpc t f s = (Inr x, s') \<longleftrightarrow> t = Delivered \<and> f s = (Inr x, s')"
  by (cases t) (auto split: prod.splits sum.splits)

lemma rpc_state: "snd (rpc t f s) = s \<or> snd (rpc t f s) = snd (f s)"
  by (cases t) (auto split: prod.splits sum.splits)

text \<open>Selecting from an updated world, also when the peer is itself a world.\<close>

lemma world_select [simp]:
  "peer (w\<lparr>tick := n\<rparr>) = peer w" "peer (w\<lparr>txtime := t\<rparr>) = peer w" "peer (w\<lparr>db := d\<rparr>) = peer w"
  "peer (w\<lparr>peer := p\<rparr>) = p"
  "db (w\<lparr>tick := n\<rparr>) = db w" "db (w\<lparr>txtime := t\<rparr>) = db w" "db (w\<lparr>peer := p\<rparr>) = db w"
  "tick (w\<lparr>peer := p\<rparr>) = tick w" "tick (w\<lparr>db := d\<rparr>) = tick w" "tick (w\<lparr>txtime := t\<rparr>) = tick w"
  "tick (w\<lparr>tick := n\<rparr>) = n"
  "clock (w\<lparr>peer := p\<rparr>) = clock w" "clock (w\<lparr>tick := n\<rparr>) = clock w" "clock (w\<lparr>db := d\<rparr>) = clock w"
  "fault (w\<lparr>peer := p\<rparr>) = fault w" "fault (w\<lparr>tick := n\<rparr>) = fault w" "fault (w\<lparr>db := d\<rparr>) = fault w"
  "txtime (w\<lparr>peer := p\<rparr>) = txtime w" "txtime (w\<lparr>tick := n\<rparr>) = txtime w" "txtime (w\<lparr>db := d\<rparr>) = txtime w"
  "uuid (w\<lparr>peer := p\<rparr>) = uuid w" "uuid (w\<lparr>tick := n\<rparr>) = uuid w" "uuid (w\<lparr>db := d\<rparr>) = uuid w"
  by simp_all

subsection \<open>Operations that call no other service\<close>

named_theorems local_intro \<open>operations that leave the peer alone\<close>

definition local_op :: "('d, 'p, 'a) go \<Rightarrow> bool" where
  "local_op m \<longleftrightarrow> (\<forall>w. peer (snd (m w)) = peer w)"

lemma local_opD: "local_op m \<Longrightarrow> m w = (r, w') \<Longrightarrow> peer w' = peer w"
  by (metis local_op_def snd_conv)

lemma local_basic [local_intro]:
  "local_op (returnE x)" "local_op (throwE e)" "local_op (liftE r)" "local_op newID" "local_op nowUTC"
  by (simp_all add: local_op_def returnE_def throwE_def liftE_def newID_def nowUTC_def)

lemma local_sql_now [local_intro]: "local_op (sql_now st)"
  by (auto simp: local_op_def sql_now_def Let_def split: option.splits sum.splits)

lemma local_sql [local_intro]: "local_op (sql st)"
  by (simp add: sql_def local_sql_now)

lemma local_bindE [local_intro]:
  assumes "local_op m" and "\<And>x. local_op (f x)"
  shows "local_op (bindE m f)"
proof -
  have "peer (snd (bindE m f w)) = peer w" for w
  proof (cases "m w")
    case (Pair r v)
    then show ?thesis
      using local_opD [OF assms(1) Pair] assms(2) by (cases r) (simp_all add: bindE_def local_op_def)
  qed
  then show ?thesis by (simp add: local_op_def)
qed

lemma local_forE [local_intro]: "(\<And>x. local_op (f x)) \<Longrightarrow> local_op (forE f xs)"
  by (induction xs) (simp_all add: local_intro)

lemma local_mapE [local_intro]: "(\<And>x. local_op (f x)) \<Longrightarrow> local_op (mapE f xs)"
  by (induction xs) (simp_all add: local_intro)

lemma local_wrapE [local_intro]: "local_op m \<Longrightarrow> local_op (wrapE msg m)"
  by (auto simp: local_op_def wrapE_def split: prod.splits sum.splits) (metis snd_conv)+

lemma local_tryE [local_intro]: "local_op m \<Longrightarrow> local_op (tryE m)"
  by (auto simp: local_op_def tryE_def split: prod.splits) (metis snd_conv)

lemma local_withTx [local_intro]:
  assumes "local_op body"
  shows "local_op (withTx rb body)"
proof -
  have "peer (snd (withTx rb body w)) = peer w" for w
  proof (cases "body (w\<lparr>tick := Suc (tick w), txtime := Some (clock w (tick w))\<rparr>)")
    case (Pair r v)
    then show ?thesis
      using local_opD [OF assms Pair] by (cases r) (simp_all add: withTx_def Let_def split: option.split)
  qed
  then show ?thesis by (simp add: local_op_def)
qed

end
