(* ===== verification/Money.thy ===== *)
theory Money
  imports Prelude
begin

text \<open>
  \<open>src/pkg/money/money.go\<close>: amounts in kobo at their 64-bit width with a currency
  tag. \<open>Add\<close> and \<open>Sub\<close> wrap around as Go's \<open>int64\<close> does. The fields of the Go
  struct are unexported, so its JSON form has no member at all.
\<close>

type_synonym Currency = string

definition NGN :: Currency where
  "NGN = ''NGN''"

record Money =
  amountKobo :: int64
  currency :: Currency

text \<open>The zero value \<open>Money{}\<close>.\<close>

definition Money_zero :: Money where
  "Money_zero = \<lparr>amountKobo = 0, currency = ''''\<rparr>"

definition Money_New :: "int64 \<Rightarrow> Currency \<Rightarrow> go_error + Money" where
  "Money_New amt cur =
     (if cur = '''' then Inl (ErrorString ''currency required'')
      else Inr \<lparr>amountKobo = amt, currency = cur\<rparr>)"

definition MustNew :: "int64 \<Rightarrow> Currency \<Rightarrow> go_error + Money" where
  "MustNew amt cur =
     (case Money_New amt cur of Inl e \<Rightarrow> Inl (Panic (Error_text e)) | Inr m \<Rightarrow> Inr m)"

definition Money_Add :: "Money \<Rightarrow> Money \<Rightarrow> go_error + Money" where
  "Money_Add m x =
     (if currency m \<noteq> currency x then Inl (ErrorString ''currency mismatch'')
      else Inr \<lparr>amountKobo = amountKobo m + amountKobo x, currency = currency m\<rparr>)"

definition Money_Sub :: "Money \<Rightarrow> Money \<Rightarrow> go_error + Money" where
  "Money_Sub m x =
     (if currency m \<noteq> currency x then Inl (ErrorString ''currency mismatch'')
      else Inr \<lparr>amountKobo = amountKobo m - amountKobo x, currency = currency m\<rparr>)"

definition IsZero :: "Money \<Rightarrow> bool" where
  "IsZero m \<longleftrightarrow> amountKobo m = 0"

definition IsNegative :: "Money \<Rightarrow> bool" where
  "IsNegative m \<longleftrightarrow> sint (amountKobo m) < 0"

definition IsNegativeOrZero :: "Money \<Rightarrow> bool" where
  "IsNegativeOrZero m \<longleftrightarrow> sint (amountKobo m) \<le> 0"

text \<open>\<open>json.Marshal\<close> and \<open>json.Unmarshal\<close> of a \<open>Money\<close> value.\<close>

definition Money_Marshal :: "Money \<Rightarrow> json" where
  "Money_Marshal m = JObj []"

fun Money_Unmarshal :: "json option \<Rightarrow> go_error + Money" where
  "Money_Unmarshal None = Inr Money_zero"
| "Money_Unmarshal (Some j) = bindS (dec_obj j) (\<lambda>_. Inr Money_zero)"

section \<open>Properties\<close>

lemma MustNew_Inr: "MustNew amt cur = Inr m \<longleftrightarrow> cur \<noteq> '''' \<and> m = \<lparr>amountKobo = amt, currency = cur\<rparr>"
  by (auto simp: MustNew_def Money_New_def)

lemma MustNew_NGN [simp]: "MustNew amt NGN = Inr \<lparr>amountKobo = amt, currency = NGN\<rparr>"
  by (simp add: MustNew_Inr NGN_def)

text \<open>Same-currency addition and subtraction undo each other, also when they wrap.\<close>

lemma Money_Add_Sub:
  "Money_Add m x = Inr s \<Longrightarrow> Money_Sub s x = Inr m"
  by (auto simp: Money_Add_def Money_Sub_def split: if_splits)

text \<open>Addition is exact as long as the sum fits, and otherwise off by a multiple of \<open>2 ^ 64\<close>.\<close>

lemma Money_Add_exact:
  assumes "Money_Add m x = Inr s" and "in_int64 (sint (amountKobo m) + sint (amountKobo x))"
  shows "sint (amountKobo s) = sint (amountKobo m) + sint (amountKobo x)"
  using assms by (auto simp: Money_Add_def sint_add64 split: if_splits)

lemma Money_json_loses_amount: "Money_Unmarshal (Some (Money_Marshal m)) = Inr Money_zero"
  by (simp add: Money_Marshal_def)

end
