(* ===== verification/LedgerDomain.thy ===== *)
theory LedgerDomain
  imports Money
begin

text \<open>
  \<open>src/services/ledger-service/domain\<close>: the ledger entry, an aggregate with a single
  event. The domain event interface has one implementation, \<open>EntryPosted\<close>.
\<close>

section \<open>Entries\<close>

type_synonym EntryType = string

definition EntryTypeDeposit :: EntryType where
  "EntryTypeDeposit = ''DEPOSIT''"

definition EntryTypeWithdrawal :: EntryType where
  "EntryTypeWithdrawal = ''WITHDRAWAL''"

definition ErrInvalidAmount :: go_error where
  "ErrInvalidAmount = ErrorString ''invalid amount''"

definition ErrCurrencyNotNGN :: go_error where
  "ErrCurrencyNotNGN = ErrorString ''currency must be NGN''"

definition ErrInsufficientFunds :: go_error where
  "ErrInsufficientFunds = ErrorString ''insufficient funds''"

record EntryPosted =
  ep_EntryID :: id
  ep_AccountID :: id
  ep_EntryType :: EntryType
  ep_AmountKobo :: int64
  ep_Currency :: string
  ep_Narration :: string
  ep_OccurredAt :: time

definition EntryPosted_EventType :: string where
  "EntryPosted_EventType = ''ledger.entry_posted.v1''"

record Entry =
  en_id :: id
  en_accountID :: id
  en_entryType :: EntryType
  en_amount :: Money
  en_narration :: string
  en_occurredAtUTC :: time
  en_version :: int
  en_changes :: "EntryPosted list"

text \<open>\<open>&Entry{}\<close>.\<close>

definition Entry_zero :: Entry where
  "Entry_zero = \<lparr>en_id = '''', en_accountID = '''', en_entryType = '''', en_amount = Money_zero,
     en_narration = '''', en_occurredAtUTC = 0, en_version = 0, en_changes = []\<rparr>"

record EntrySnapshot =
  es_EntryID :: id
  es_AccountID :: id
  es_EntryType :: EntryType
  es_AmountKobo :: int64
  es_Currency :: string
  es_Narration :: string
  es_OccurredAtUTC :: time
  es_Version :: int

definition validateAmount :: "Money \<Rightarrow> go_error option" where
  "validateAmount amt =
     (if currency amt \<noteq> NGN then Some ErrCurrencyNotNGN
      else if IsNegativeOrZero amt then Some ErrInvalidAmount
      else None)"

text \<open>\<open>apply\<close> rebuilds the amount with \<open>money.MustNew\<close>, which panics on an empty currency.\<close>

definition Entry_apply :: "EntryPosted \<Rightarrow> Entry \<Rightarrow> go_error + Entry" where
  "Entry_apply v e =
     bindS (MustNew (ep_AmountKobo v) (ep_Currency v)) (\<lambda>amt.
     Inr (e\<lparr>en_id := ep_EntryID v, en_accountID := ep_AccountID v, en_entryType := ep_EntryType v,
            en_amount := amt, en_narration := ep_Narration v, en_occurredAtUTC := ep_OccurredAt v\<rparr>))"

definition Entry_raise :: "EntryPosted \<Rightarrow> Entry \<Rightarrow> go_error + Entry" where
  "Entry_raise v e =
     bindS (Entry_apply v (e\<lparr>en_changes := en_changes e @ [v]\<rparr>)) (\<lambda>e.
     Inr (e\<lparr>en_version := en_version e + 1\<rparr>))"

definition NewEntry ::
    "id \<Rightarrow> EntryType \<Rightarrow> Money \<Rightarrow> string \<Rightarrow> time \<Rightarrow> ('d, 'p, Entry) go" where
  "NewEntry accountID typ amt narration occurredAt =
     (if accountID = '''' then throwE (ErrorString ''account id required'')
      else case validateAmount amt of
        Some err \<Rightarrow> throwE err
      | None \<Rightarrow>
          bindE (if occurredAt = 0 then nowUTC else returnE occurredAt) (\<lambda>at.
          bindE newID (\<lambda>eid.
          liftE (Entry_raise
            \<lparr>ep_EntryID = eid, ep_AccountID = accountID, ep_EntryType = typ,
             ep_AmountKobo = amountKobo amt, ep_Currency = currency amt,
             ep_Narration = narration, ep_OccurredAt = at\<rparr> Entry_zero))))"

definition Entry_PullChanges :: "Entry \<Rightarrow> EntryPosted list \<times> Entry" where
  "Entry_PullChanges e = (en_changes e, e\<lparr>en_changes := []\<rparr>)"

definition Entry_Snapshot :: "Entry \<Rightarrow> EntrySnapshot" where
  "Entry_Snapshot e =
     \<lparr>es_EntryID = en_id e, es_AccountID = en_accountID e, es_EntryType = en_entryType e,
      es_AmountKobo = amountKobo (en_amount e), es_Currency = currency (en_amount e),
      es_Narration = en_narration e, es_OccurredAtUTC = en_occurredAtUTC e,
      es_Version = en_version e\<rparr>"

primrec Entry_replay :: "EntryPosted list \<Rightarrow> Entry \<Rightarrow> go_error + Entry" where
  "Entry_replay [] e = Inr e"
| "Entry_replay (v # vs) e =
     bindS (Entry_apply v e) (\<lambda>e. Entry_replay vs (e\<lparr>en_version := en_version e + 1\<rparr>))"

definition Entry_Rehydrate :: "EntryPosted list \<Rightarrow> go_error + Entry" where
  "Entry_Rehydrate evs = Entry_replay evs Entry_zero"

definition Entry_RehydrateFromSnapshot :: "EntrySnapshot \<Rightarrow> EntryPosted list \<Rightarrow> go_error + Entry" where
  "Entry_RehydrateFromSnapshot s evs =
     bindS (MustNew (es_AmountKobo s) (es_Currency s)) (\<lambda>amt.
     Entry_replay evs
       \<lparr>en_id = es_EntryID s, en_accountID = es_AccountID s, en_entryType = es_EntryType s,
        en_amount = amt, en_narration = es_Narration s, en_occurredAtUTC = es_OccurredAtUTC s,
        en_version = es_Version s, en_changes = []\<rparr>)"

section \<open>JSON\<close>

definition EntryPosted_Marshal :: "EntryPosted \<Rightarrow> json" where
  "EntryPosted_Marshal v = JObj
     [(''EntryID'', JStr (ep_EntryID v)), (''AccountID'', JStr (ep_AccountID v)),
      (''EntryType'', JStr (ep_EntryType v)), (''AmountKobo'', JInt (sint (ep_AmountKobo v))),
      (''Currency'', JStr (ep_Currency v)), (''Narration'', JStr (ep_Narration v)),
      (''OccurredAt'', JTime (ep_OccurredAt v))]"

definition EntryPosted_Unmarshal :: "json \<Rightarrow> go_error + EntryPosted" where
  "EntryPosted_Unmarshal j =
     bindS (dec_obj j) (\<lambda>kvs.
     bindS (dec_string (jmember kvs ''EntryID'')) (\<lambda>eid.
     bindS (dec_string (jmember kvs ''AccountID'')) (\<lambda>acct.
     bindS (dec_string (jmember kvs ''EntryType'')) (\<lambda>typ.
     bindS (dec_int64 (jmember kvs ''AmountKobo'')) (\<lambda>amt.
     bindS (dec_string (jmember kvs ''Currency'')) (\<lambda>cur.
     bindS (dec_string (jmember kvs ''Narration'')) (\<lambda>nar.
     bindS (dec_time (jmember kvs ''OccurredAt'')) (\<lambda>at.
     Inr \<lparr>ep_EntryID = eid, ep_AccountID = acct, ep_EntryType = typ, ep_AmountKobo = amt,
          ep_Currency = cur, ep_Narration = nar, ep_OccurredAt = at\<rparr>))))))))"

definition EntrySnapshot_Marshal :: "EntrySnapshot \<Rightarrow> json" where
  "EntrySnapshot_Marshal s = JObj
     [(''EntryID'', JStr (es_EntryID s)), (''AccountID'', JStr (es_AccountID s)),
      (''EntryType'', JStr (es_EntryType s)), (''AmountKobo'', JInt (sint (es_AmountKobo s))),
      (''Currency'', JStr (es_Currency s)), (''Narration'', JStr (es_Narration s)),
      (''OccurredAtUTC'', JTime (es_OccurredAtUTC s)), (''Version'', JInt (es_Version s))]"

section \<open>Facts\<close>

lemma EntryPosted_roundtrip [simp]: "EntryPosted_Unmarshal (EntryPosted_Marshal v) = Inr v"
  by (simp add: EntryPosted_Unmarshal_def EntryPosted_Marshal_def jmember_def)

lemma validateAmount_None:
  "validateAmount amt = None \<longleftrightarrow> currency amt = NGN \<and> 0 < sint (amountKobo amt)"
  by (auto simp: validateAmount_def IsNegativeOrZero_def)

lemma EntryTypes_differ [simp]: "EntryTypeDeposit \<noteq> EntryTypeWithdrawal"
  by (simp add: EntryTypeDeposit_def EntryTypeWithdrawal_def)

text \<open>The entry that \<open>NewEntry\<close> builds, with its one pending event.\<close>

definition posted_entry :: "EntryPosted \<Rightarrow> Entry" where
  "posted_entry v =
     \<lparr>en_id = ep_EntryID v, en_accountID = ep_AccountID v, en_entryType = ep_EntryType v,
      en_amount = \<lparr>amountKobo = ep_AmountKobo v, currency = ep_Currency v\<rparr>,
      en_narration = ep_Narration v, en_occurredAtUTC = ep_OccurredAt v, en_version = 1,
      en_changes = [v]\<rparr>"

lemma Entry_raise_zero:
  "ep_Currency v \<noteq> '''' \<Longrightarrow> Entry_raise v Entry_zero = Inr (posted_entry v)"
  by (simp add: Entry_raise_def Entry_apply_def MustNew_def Money_New_def Entry_zero_def posted_entry_def)

lemma NGN_nonempty [simp]: "NGN \<noteq> ''''"
  by (simp add: NGN_def)

definition NewEntry_event :: "id \<Rightarrow> EntryType \<Rightarrow> Money \<Rightarrow> string \<Rightarrow> id \<Rightarrow> time \<Rightarrow> EntryPosted" where
  "NewEntry_event accountID typ amt narration eid at =
     \<lparr>ep_EntryID = eid, ep_AccountID = accountID, ep_EntryType = typ,
      ep_AmountKobo = amountKobo amt, ep_Currency = currency amt,
      ep_Narration = narration, ep_OccurredAt = at\<rparr>"

lemma NewEntry_inv [go_inv]:
  "NewEntry accountID typ amt narration at w = (Inr e, w') \<longleftrightarrow>
     accountID \<noteq> '''' \<and> validateAmount amt = None \<and>
     (if at = 0
      then e = posted_entry (NewEntry_event accountID typ amt narration
                 (uuid w (Suc (tick w))) (clock w (tick w))) \<and>
           w' = w\<lparr>tick := Suc (Suc (tick w))\<rparr>
      else e = posted_entry (NewEntry_event accountID typ amt narration (uuid w (tick w)) at) \<and>
           w' = w\<lparr>tick := Suc (tick w)\<rparr>)"
proof (cases "validateAmount amt")
  case None
  then have "currency amt = NGN" by (simp add: validateAmount_None)
  then show ?thesis using None by (auto simp: NewEntry_def NewEntry_event_def go_inv Entry_raise_zero)
qed (simp add: NewEntry_def go_inv)

lemma NewEntry_success:
  "NewEntry a typ amt nar occ w = (Inr e, w') \<Longrightarrow>
     \<exists>eid at. e = posted_entry (NewEntry_event a typ amt nar eid at) \<and> db w' = db w"
  by (auto simp: NewEntry_inv split: if_splits)

lemma env_NewEntry [go_env]: "env_op (NewEntry accountID typ amt narration at)"
  by (auto simp: NewEntry_def go_env split: option.splits)

text \<open>
  Replaying a stream is the same from the start and from a snapshot of any prefix of it.
\<close>

lemma Entry_replay_append:
  "Entry_replay (xs @ ys) e = bindS (Entry_replay xs e) (Entry_replay ys)"
  by (induction xs arbitrary: e) (auto simp: bindS_def split: sum.splits)

lemma Entry_replay_shape:
  "Entry_replay vs e = Inr e' \<Longrightarrow> en_changes e' = en_changes e \<and>
     en_version e' = en_version e + int (length vs) \<and>
     (vs = [] \<or> currency (en_amount e') \<noteq> '''')"
proof (induction vs arbitrary: e)
  case (Cons v vs)
  then obtain e1 where e1: "Entry_apply v e = Inr e1"
    and "Entry_replay vs (e1\<lparr>en_version := en_version e1 + 1\<rparr>) = Inr e'"
    by (auto simp: bindS_Inr_iff)
  from Cons.IH [OF this(2)] this(2) e1 show ?case
    by (cases "vs = []") (auto simp: Entry_apply_def bindS_Inr_iff MustNew_Inr)
qed simp

lemma Entry_snapshot_restore:
  assumes "Entry_Rehydrate xs = Inr e" and "xs \<noteq> []"
  shows "Entry_RehydrateFromSnapshot (Entry_Snapshot e) ys = Entry_Rehydrate (xs @ ys)"
proof -
  have "en_changes e = []" and "currency (en_amount e) \<noteq> ''''"
    using Entry_replay_shape [of xs Entry_zero e] assms
    by (auto simp: Entry_Rehydrate_def Entry_zero_def)
  then have "Entry_RehydrateFromSnapshot (Entry_Snapshot e) ys = Entry_replay ys e"
    by (cases e, cases "en_amount e")
      (simp add: Entry_RehydrateFromSnapshot_def Entry_Snapshot_def MustNew_def Money_New_def)
  then show ?thesis
    using assms(1) by (simp add: Entry_Rehydrate_def Entry_replay_append)
qed

end
