(* ===== verification/Outbox.thy ===== *)
theory Outbox
  imports Prelude
begin

text \<open>
  The transactional outbox: \<open>src/pkg/outbox\<close> (message, Postgres store) and the
  relay \<open>src/pkg/outbox/relay\<close> that publishes the stored messages. The table is
  the list of its rows in insertion order. The message broker is the \<open>peer\<close> of the
  relay's world and the publisher an argument, so nothing is assumed about what
  publishing does.
\<close>

section \<open>Messages and the table\<close>

text \<open>
  \<open>outbox.Message\<close>; keys and values are byte slices: a key is the bytes of a string, a
  value a JSON document.
\<close>

record Message =
  msg_ID :: string
  msg_Topic :: string
  msg_Key :: string
  msg_Value :: json
  msg_Headers :: "(string \<times> string) list"
  msg_CreatedAt :: time
  msg_PublishedAt :: "time option"

text \<open>
  A row of \<open>outbox_messages\<close>: the columns of the migrations and, where the table has
  it, the column \<open>processed_at\<close> that \<open>GetPending\<close> and \<open>MarkProcessed\<close> name.
\<close>

record outbox_row = Message +
  row_processed_at :: "time option"

text \<open>
  The part of a database that holds the outbox. \<open>columns\<close> lists the columns of the
  schema that statements of the program name but not every migration creates.
\<close>

record outbox_db =
  columns :: "(string \<times> string) list"
  outbox_messages :: "outbox_row list"

definition outbox_ids :: "('x) outbox_db_scheme \<Rightarrow> string set" where
  "outbox_ids d = msg_ID ` set (outbox_messages d)"

section \<open>The Postgres store\<close>

definition Outbox_insert :: "Message \<Rightarrow> time \<Rightarrow> 'x outbox_db_scheme \<Rightarrow>
    go_error + unit \<times> 'x outbox_db_scheme" where
  "Outbox_insert m now d =
     (if msg_ID m \<in> msg_ID ` set (outbox_messages d)
      then Inl (unique_violation ''outbox_messages_pkey'')
      else Inr ((), d\<lparr>outbox_messages := outbox_messages d @
        [\<lparr>msg_ID = msg_ID m, msg_Topic = msg_Topic m, msg_Key = msg_Key m, msg_Value = msg_Value m,
          msg_Headers = msg_Headers m, msg_CreatedAt = pg_time now, msg_PublishedAt = None,
          row_processed_at = None\<rparr>]\<rparr>))"

definition Enqueue :: "Message \<Rightarrow> ('x outbox_db_scheme, 'p, unit) go" where
  "Enqueue m = sql_now (Outbox_insert m)"

text \<open>\<open>rows.Scan(&m.ID, &m.Topic, &m.Key, &m.Value, &m.Headers)\<close>: the other fields stay zero.\<close>

definition scan_message :: "outbox_row \<Rightarrow> Message" where
  "scan_message r =
     \<lparr>msg_ID = msg_ID r, msg_Topic = msg_Topic r, msg_Key = msg_Key r, msg_Value = msg_Value r,
      msg_Headers = msg_Headers r, msg_CreatedAt = 0, msg_PublishedAt = None\<rparr>"

text \<open>\<open>GetPending\<close> does not ask for \<open>rows.Err()\<close>, so a connection lost on the way shortens the batch.\<close>

definition GetPending :: "nat option \<Rightarrow> int \<Rightarrow> ('x outbox_db_scheme, 'p, Message list) go" where
  "GetPending lost lim =
     bindE (sql (\<lambda>d.
       if (''outbox_messages'', ''processed_at'') \<notin> set (columns d)
       then Inl (undefined_column ''processed_at'')
       else if lim < 0 then Inl (DbError ''ERROR: LIMIT must not be negative (SQLSTATE 2201W)'')
       else Inr (take (nat lim) (sort_key msg_CreatedAt
         (filter (\<lambda>r. row_processed_at r = None) (outbox_messages d))), d))) (\<lambda>rows.
     returnE (map scan_message (received lost rows)))"

definition MarkProcessed :: "string list \<Rightarrow> ('x outbox_db_scheme, 'p, unit) go" where
  "MarkProcessed ids = sql_now (\<lambda>now d.
     if (''outbox_messages'', ''processed_at'') \<notin> set (columns d)
     then Inl (undefined_column ''processed_at'')
     else Inr ((), d\<lparr>outbox_messages :=
       map (\<lambda>r. if msg_ID r \<in> set ids then r\<lparr>row_processed_at := Some (pg_time now)\<rparr> else r)
         (outbox_messages d)\<rparr>))"

section \<open>The relay\<close>

record relay_Config =
  BatchSize :: int
  PollInterval :: duration
  LockTimeout :: duration
  PublishTimeout :: duration

definition millisecond :: duration where
  "millisecond = 1000000"

definition WithDefaults :: "relay_Config \<Rightarrow> relay_Config" where
  "WithDefaults c =
     \<lparr>BatchSize = if BatchSize c \<le> 0 then 100 else BatchSize c,
      PollInterval = if PollInterval c \<le> 0 then 250 * millisecond else PollInterval c,
      LockTimeout = if LockTimeout c \<le> 0 then 5 * second else LockTimeout c,
      PublishTimeout = if PublishTimeout c \<le> 0 then 5 * second else PublishTimeout c\<rparr>"

text \<open>
  A publisher: given topic, key, value and headers it changes the broker and returns
  an error or nothing. \<open>NopPublisher\<close> does nothing.
\<close>

type_synonym 'b publisher =
  "string \<Rightarrow> string \<Rightarrow> json \<Rightarrow> (string \<times> string) list \<Rightarrow> 'b \<Rightarrow> (go_error + unit) \<times> 'b"

definition NopPublisher :: "'b publisher" where
  "NopPublisher topic key value headers b = (Inr (), b)"

definition publish_row :: "'b publisher \<Rightarrow> outbox_row \<Rightarrow> ('x outbox_db_scheme, 'b, unit) go" where
  "publish_row publish m = (\<lambda>w.
     case publish (msg_Topic m) (msg_Key m) (msg_Value m) (msg_Headers m) (peer w) of
       (r, b) \<Rightarrow> (r, w\<lparr>peer := b\<rparr>))"

text \<open>
  The batch of one tick: unpublished rows no other transaction has locked (\<open>for update
  skip locked\<close>), oldest first.
\<close>

definition unpublished :: "outbox_row list \<Rightarrow> outbox_row list" where
  "unpublished rs = filter (\<lambda>r. msg_PublishedAt r = None) rs"

definition select_batch :: "(string \<Rightarrow> bool) \<Rightarrow> int \<Rightarrow> outbox_row list \<Rightarrow> outbox_row list" where
  "select_batch locked n rs =
     take (nat n) (sort_key msg_CreatedAt (filter (\<lambda>r. \<not> locked (msg_ID r)) (unpublished rs)))"

definition mark_published :: "time \<Rightarrow> string \<Rightarrow> outbox_row list \<Rightarrow> outbox_row list" where
  "mark_published now i rs =
     map (\<lambda>r. if msg_ID r = i then r\<lparr>msg_PublishedAt := Some (pg_time now)\<rparr> else r) rs"

definition relay_publish_one ::
    "'b publisher \<Rightarrow> time \<Rightarrow> outbox_row \<Rightarrow> ('x outbox_db_scheme, 'b, unit) go" where
  "relay_publish_one publish now m =
     bindE (publish_row publish m) (\<lambda>_.
     sql (\<lambda>d. Inr ((), d\<lparr>outbox_messages := mark_published now (msg_ID m) (outbox_messages d)\<rparr>)))"

definition relay_tick_body ::
    "'b publisher \<Rightarrow> (string \<Rightarrow> bool) \<Rightarrow> relay_Config \<Rightarrow> ('x outbox_db_scheme, 'b, unit) go" where
  "relay_tick_body publish locked cfg =
     bindE (sql (\<lambda>d. Inr (select_batch locked (BatchSize cfg) (outbox_messages d), d))) (\<lambda>batch.
     if batch = [] then returnE ()
     else bindE nowUTC (\<lambda>now. forE (relay_publish_one publish now) batch))"

definition relay_tick ::
    "'b publisher \<Rightarrow> (string \<Rightarrow> bool) \<Rightarrow> relay_Config \<Rightarrow> ('x outbox_db_scheme, 'b, unit) go" where
  "relay_tick publish locked cfg = withTx (\<lambda>d0 d1. d0) (relay_tick_body publish locked cfg)"

text \<open>
  \<open>Run\<close> until \<open>n\<close> poll intervals have passed: one tick per interval, the first error
  ends it.
\<close>

primrec relay_Run ::
    "'b publisher \<Rightarrow> (string \<Rightarrow> bool) \<Rightarrow> relay_Config \<Rightarrow> nat \<Rightarrow> ('x outbox_db_scheme, 'b, unit) go" where
  "relay_Run publish locked cfg 0 = returnE ()"
| "relay_Run publish locked cfg (Suc n) =
     bindE (relay_tick publish locked (WithDefaults cfg)) (\<lambda>_. relay_Run publish locked cfg n)"

section \<open>Facts about the store\<close>

text \<open>The row an enqueued message becomes.\<close>

definition outbox_row_of :: "Message \<Rightarrow> time \<Rightarrow> outbox_row" where
  "outbox_row_of m now =
     \<lparr>msg_ID = msg_ID m, msg_Topic = msg_Topic m, msg_Key = msg_Key m, msg_Value = msg_Value m,
      msg_Headers = msg_Headers m, msg_CreatedAt = pg_time now, msg_PublishedAt = None,
      row_processed_at = None\<rparr>"

definition sql_clock :: "('d, 'p) world \<Rightarrow> time" where
  "sql_clock w = (case txtime w of Some t \<Rightarrow> t | None \<Rightarrow> clock w (tick w))"

lemma sql_clock_update [simp]:
  "sql_clock (w\<lparr>db := d\<rparr>) = sql_clock w" "sql_clock (w\<lparr>peer := p\<rparr>) = sql_clock w"
  "sql_clock (w\<lparr>db := d, tick := n\<rparr>) = sql_clock (w\<lparr>tick := n\<rparr>)"
  "txtime w = Some t \<Longrightarrow> sql_clock w = t"
  by (simp_all add: sql_clock_def split: option.split)

lemma Enqueue_inv [go_inv]:
  "Enqueue m w = (Inr u, w') \<longleftrightarrow>
     fault w (tick w) = None \<and> msg_ID m \<notin> msg_ID ` set (outbox_messages (db w)) \<and>
     w' = w\<lparr>tick := Suc (tick w), db := (db w)\<lparr>outbox_messages := outbox_messages (db w) @
       [outbox_row_of m (sql_clock w)]\<rparr>\<rparr>"
  by (auto simp: Enqueue_def go_inv Outbox_insert_def outbox_row_of_def sql_clock_def)

lemma env_outbox [go_env]:
  "env_op (Enqueue m)" "env_op (GetPending lost n)" "env_op (MarkProcessed ids)"
  by (simp_all add: Enqueue_def GetPending_def MarkProcessed_def go_env)

text \<open>On a table without the column \<open>processed_at\<close> both statements fail, whatever the rows are.\<close>

lemma processed_at_missing:
  assumes "(''outbox_messages'', ''processed_at'') \<notin> set (columns (db w))"
  shows "\<exists>e. fst (GetPending lost n w) = Inl e" and "\<exists>e. fst (MarkProcessed ids w) = Inl e"
  using assms
  by (auto simp: GetPending_def bindE_def MarkProcessed_def sql_def sql_now_def Let_def split: option.splits)

section \<open>Facts about the relay\<close>

lemma WithDefaults_positive: "0 < BatchSize (WithDefaults c)" "0 < PollInterval (WithDefaults c)"
  by (auto simp: WithDefaults_def millisecond_def)

text \<open>The marks of a whole batch, as one update of the table.\<close>

definition mark_all :: "time \<Rightarrow> string set \<Rightarrow> outbox_row list \<Rightarrow> outbox_row list" where
  "mark_all now ids rs =
     map (\<lambda>r. if msg_ID r \<in> ids then r\<lparr>msg_PublishedAt := Some (pg_time now)\<rparr> else r) rs"

lemma mark_all_empty [simp]: "mark_all now {} rs = rs"
  by (simp add: mark_all_def)

lemma mark_all_mark: "mark_all now ids (mark_published now i rs) = mark_all now (insert i ids) rs"
  by (auto simp: mark_all_def mark_published_def)

lemma mark_all_length [simp]: "length (mark_all now ids rs) = length rs"
  by (simp add: mark_all_def)

lemma mark_all_ids [simp]: "map msg_ID (mark_all now ids rs) = map msg_ID rs"
  by (simp add: mark_all_def)

lemma unpublished_mark_all:
  "unpublished (mark_all now ids rs) = filter (\<lambda>r. msg_ID r \<notin> ids) (unpublished rs)"
  by (induction rs) (auto simp: unpublished_def mark_all_def)

lemma relay_loop_db:
  "forE (relay_publish_one publish now) batch w = (Inr (), w') \<Longrightarrow>
     db w' = (db w)\<lparr>outbox_messages := mark_all now (msg_ID ` set batch) (outbox_messages (db w))\<rparr>"
proof (induction batch arbitrary: w)
  case Nil
  then show ?case by (simp add: go_inv)
next
  case (Cons m ms)
  then obtain v where
    one: "relay_publish_one publish now m w = (Inr (), v)" and
    rest: "forE (relay_publish_one publish now) ms v = (Inr (), w')"
    by (auto simp: go_inv)
  have "db v = (db w)\<lparr>outbox_messages := mark_published now (msg_ID m) (outbox_messages (db w))\<rparr>"
    using one by (auto simp: relay_publish_one_def publish_row_def go_inv split: prod.splits)
  then show ?case using Cons.IH [OF rest] by (simp add: mark_all_mark)
qed

text \<open>A successful tick marks exactly the rows of its batch; a failed one marks none.\<close>

lemma relay_tick_db:
  "relay_tick publish locked cfg w = (Inr (), w') \<Longrightarrow>
   \<exists>now. db w' = (db w)\<lparr>outbox_messages :=
     mark_all now (msg_ID ` set (select_batch locked (BatchSize cfg) (outbox_messages (db w))))
       (outbox_messages (db w))\<rparr>"
  by (auto simp: relay_tick_def relay_tick_body_def go_inv split: if_splits dest!: relay_loop_db)

lemma relay_tick_loop:
  fixes w :: "('x outbox_db_scheme, 'b) world"
  assumes "relay_tick publish locked cfg w = (Inr (), w')"
  shows "\<exists>now u (v :: ('x outbox_db_scheme, 'b) world). forE (relay_publish_one publish now)
      (select_batch locked (BatchSize cfg) (outbox_messages (db w))) u = (Inr (), v) \<and> peer w' = peer v"
proof (cases "select_batch locked (BatchSize cfg) (outbox_messages (db w)) = []")
  case True
  then show ?thesis by (auto simp: go_run)
next
  case False
  with assms obtain u v where "forE (relay_publish_one publish (clock w (Suc (Suc (tick w)))))
      (select_batch locked (BatchSize cfg) (outbox_messages (db w))) u = (Inr (), v)"
      and "w' = v\<lparr>tick := Suc (tick v), txtime := txtime w\<rparr>"
    by (auto simp: relay_tick_def relay_tick_body_def go_inv)
  then show ?thesis by auto
qed

lemma relay_tick_error_db: "relay_tick publish locked cfg w = (Inl e, w') \<Longrightarrow> db w' = db w"
  unfolding relay_tick_def by (drule withTx_error_db) auto

lemma select_batch_unpublished:
  "r \<in> set (select_batch locked n rs) \<Longrightarrow> r \<in> set rs \<and> msg_PublishedAt r = None \<and> \<not> locked (msg_ID r)"
  by (auto simp: select_batch_def unpublished_def dest!: in_set_takeD)

lemma relay_loop_delivered:
  assumes law: "\<And>t k v h b b'. publish t k v h b = (Inr (), b') \<Longrightarrow> (t, k, v, h) \<in> delivered b'"
    and mono: "\<And>t k v h b r b'. publish t k v h b = (r, b') \<Longrightarrow> delivered b \<subseteq> delivered b'"
  shows "forE (relay_publish_one publish now) batch w = (Inr (), w') \<Longrightarrow>
     delivered (peer w) \<subseteq> delivered (peer w') \<and>
     (\<forall>m\<in>set batch. (msg_Topic m, msg_Key m, msg_Value m, msg_Headers m) \<in> delivered (peer w'))"
proof (induction batch arbitrary: w)
  case Nil
  then show ?case by (simp add: go_inv)
next
  case (Cons m ms)
  then obtain v where
    one: "relay_publish_one publish now m w = (Inr (), v)" and
    rest: "forE (relay_publish_one publish now) ms v = (Inr (), w')"
    by (auto simp: go_inv)
  have "publish (msg_Topic m) (msg_Key m) (msg_Value m) (msg_Headers m) (peer w) = (Inr (), peer v)"
    using one by (auto simp: relay_publish_one_def publish_row_def go_inv split: prod.splits)
  then have "delivered (peer w) \<subseteq> delivered (peer v)"
    and "(msg_Topic m, msg_Key m, msg_Value m, msg_Headers m) \<in> delivered (peer v)"
    by (rule mono, rule law)
  then show ?case using Cons.IH [OF rest] by auto
qed

lemma nth_mark_all:
  "i < length rs \<Longrightarrow> msg_PublishedAt (rs ! i) = None \<Longrightarrow>
     msg_PublishedAt (mark_all now ids rs ! i) \<noteq> None \<longleftrightarrow> msg_ID (rs ! i) \<in> ids"
  by (simp add: mark_all_def)

lemma distinct_ids_row:
  "distinct (map msg_ID rs) \<Longrightarrow> r \<in> set rs \<Longrightarrow> r' \<in> set rs \<Longrightarrow> msg_ID r = msg_ID r' \<Longrightarrow> r = r'"
  by (metis distinct_map inj_onD)

subsection \<open>Draining\<close>

text \<open>How one tick and the whole loop run when neither database nor broker fails.\<close>

lemma relay_loop_run:
  assumes ok: "\<And>t k v h b. fst (publish t k v h b) = Inr ()"
  shows "healthy w \<Longrightarrow>
    \<exists>w'. forE (relay_publish_one publish now) batch w = (Inr (), w') \<and> healthy w'"
proof (induction batch arbitrary: w)
  case Nil
  then show ?case by (simp add: go_run)
next
  case (Cons m ms)
  let ?b = "snd (publish (msg_Topic m) (msg_Key m) (msg_Value m) (msg_Headers m) (peer w))"
  let ?v = "w\<lparr>peer := ?b, tick := Suc (tick w),
    db := (db w)\<lparr>outbox_messages := mark_published now (msg_ID m) (outbox_messages (db w))\<rparr>\<rparr>"
  have "publish_row publish m w = (Inr (), w\<lparr>peer := ?b\<rparr>)"
    using ok [of "msg_Topic m" "msg_Key m" "msg_Value m" "msg_Headers m" "peer w"]
    by (auto simp: publish_row_def split: prod.splits)
  then have "relay_publish_one publish now m w = (Inr (), ?v)"
    using Cons.prems by (simp add: relay_publish_one_def go_run sql_run)
  moreover have "healthy ?v" using Cons.prems by simp
  ultimately show ?case using Cons.IH [of ?v] by (simp add: bindE_run)
qed

lemma relay_tick_run:
  assumes ok: "\<And>t k v h b. fst (publish t k v h b) = Inr ()" and "healthy w"
  shows "\<exists>w'. relay_tick publish locked cfg w = (Inr (), w') \<and> healthy w'"
proof -
  let ?w1 = "w\<lparr>tick := Suc (tick w), txtime := Some (clock w (tick w))\<rparr>"
  have "\<exists>v. relay_tick_body publish locked cfg ?w1 = (Inr (), v) \<and> healthy v"
    using assms(2) relay_loop_run [OF ok, where now = "clock w (Suc (Suc (tick w)))" and
        batch = "select_batch locked (BatchSize cfg) (outbox_messages (db w))" and
        w = "?w1\<lparr>tick := Suc (Suc (Suc (tick w)))\<rparr>"]
    by (auto simp: relay_tick_body_def go_run sql_run)
  then obtain v where "relay_tick_body publish locked cfg ?w1 = (Inr (), v)" "healthy v" by blast
  then show ?thesis using assms(2) by (auto simp: relay_tick_def withTx_run)
qed

lemma length_unpublished_tick:
  assumes "distinct (map msg_ID rs)"
  shows "length (unpublished (mark_all now
      (msg_ID ` set (select_batch (\<lambda>_. False) n rs)) rs)) = length (unpublished rs) - nat n"
proof -
  let ?U = "unpublished rs" and ?B = "select_batch (\<lambda>_. False) n rs"
  have inj: "inj_on msg_ID (set rs)" and dU: "distinct ?U"
    using assms by (simp_all add: unpublished_def distinct_map)
  have B: "?B = take (nat n) (sort_key msg_CreatedAt ?U)" by (simp add: select_batch_def)
  have sub: "set ?B \<subseteq> set ?U" using B by (auto dest!: in_set_takeD)
  have "filter (\<lambda>r. msg_ID r \<notin> msg_ID ` set ?B) ?U = filter (\<lambda>r. r \<notin> set ?B) ?U"
    using inj sub by (intro filter_cong) (auto simp: unpublished_def inj_on_def)
  then have "length (unpublished (mark_all now (msg_ID ` set ?B) rs)) = length (filter (\<lambda>r. r \<notin> set ?B) ?U)"
    by (simp add: unpublished_mark_all)
  also have "\<dots> = card (set ?U - set ?B)"
    using dU by (simp add: distinct_length_filter Int_def set_diff_eq conj_commute)
  also have "\<dots> = card (set ?U) - card (set ?B)" using sub by (simp add: card_Diff_subset)
  also have "card (set ?B) = min (length ?U) (nat n)"
    using dU B by (simp add: distinct_card)
  finally show ?thesis using dU by (simp add: distinct_card)
qed

lemma relay_Run_drains:
  assumes ok: "\<And>t k v h b. fst (publish t k v h b) = Inr ()"
  shows "healthy w \<Longrightarrow> distinct (map msg_ID (outbox_messages (db w))) \<Longrightarrow>
    length (unpublished (outbox_messages (db w))) \<le> n * nat (BatchSize (WithDefaults cfg)) \<Longrightarrow>
    \<exists>w'. relay_Run publish (\<lambda>_. False) cfg n w = (Inr (), w') \<and>
         unpublished (outbox_messages (db w')) = []"
proof (induction n arbitrary: w)
  case 0
  then show ?case by (simp add: go_run)
next
  case (Suc n)
  obtain v where v: "relay_tick publish (\<lambda>_. False) (WithDefaults cfg) w = (Inr (), v)" "healthy v"
    using relay_tick_run [of publish, OF ok Suc.prems(1)] by blast
  obtain now where d: "db v = (db w)\<lparr>outbox_messages := mark_all now
      (msg_ID ` set (select_batch (\<lambda>_. False) (BatchSize (WithDefaults cfg)) (outbox_messages (db w))))
      (outbox_messages (db w))\<rparr>"
    using relay_tick_db [OF v(1)] by blast
  have "length (unpublished (outbox_messages (db v))) =
      length (unpublished (outbox_messages (db w))) - nat (BatchSize (WithDefaults cfg))"
    using length_unpublished_tick [OF Suc.prems(2)] by (simp add: d)
  then have "\<exists>w'. relay_Run publish (\<lambda>_. False) cfg n v = (Inr (), w') \<and>
      unpublished (outbox_messages (db w')) = []"
    using Suc.prems by (intro Suc.IH v(2)) (simp_all add: d)
  then show ?case using v by (simp add: bindE_run)
qed

section \<open>Properties\<close>

text \<open>
  C5. The relay publishes before it marks: if a publisher's success means that the
  broker holds the message, and the broker forgets nothing, then any row that a tick
  turns from unpublished to published, whether or not the tick returns an error, is
  held by the broker; and no tick drops a row or changes its identifier.
\<close>

theorem relay_at_least_once:
  fixes w w' :: "('x outbox_db_scheme, 'b) world"
  assumes law: "\<And>t k v h b b'. publish t k v h b = (Inr (), b') \<Longrightarrow> (t, k, v, h) \<in> delivered b'"
    and mono: "\<And>t k v h b r b'. publish t k v h b = (r, b') \<Longrightarrow> delivered b \<subseteq> delivered b'"
    and ids: "distinct (map msg_ID (outbox_messages (db w)))"
    and run: "relay_tick publish locked cfg w = (r, w')"
    and i: "i < length (outbox_messages (db w))"
    and before: "msg_PublishedAt (outbox_messages (db w) ! i) = None"
    and after: "msg_PublishedAt (outbox_messages (db w') ! i) \<noteq> None"
  shows "(let m = outbox_messages (db w) ! i in
      (msg_Topic m, msg_Key m, msg_Value m, msg_Headers m)) \<in> delivered (peer w')
    \<and> map msg_ID (outbox_messages (db w')) = map msg_ID (outbox_messages (db w))"
proof -
  let ?rs = "outbox_messages (db w)" and ?B = "select_batch locked (BatchSize cfg) (outbox_messages (db w))"
  have "r = Inr ()" using run relay_tick_error_db [of publish locked cfg w] before after
    by (cases r) auto
  then have run': "relay_tick publish locked cfg w = (Inr (), w')" using run by simp
  obtain now where d: "db w' = (db w)\<lparr>outbox_messages := mark_all now (msg_ID ` set ?B) ?rs\<rparr>"
    using relay_tick_db [OF run'] by blast
  then have "msg_ID (?rs ! i) \<in> msg_ID ` set ?B" using nth_mark_all [OF i before] after by simp
  then obtain x where x: "x \<in> set ?B" "msg_ID (?rs ! i) = msg_ID x" by blast
  then have "?rs ! i = x"
    using i by (intro distinct_ids_row [OF ids]) (simp_all add: select_batch_unpublished)
  with x have inB: "?rs ! i \<in> set ?B" by simp
  obtain t u and v :: "('x outbox_db_scheme, 'b) world"
    where "forE (relay_publish_one publish t) ?B u = (Inr (), v)" "peer w' = peer v"
    using relay_tick_loop [OF run'] by blast
  then have "?rs ! i \<in> set ?B \<longrightarrow> (msg_Topic (?rs ! i), msg_Key (?rs ! i), msg_Value (?rs ! i),
      msg_Headers (?rs ! i)) \<in> delivered (peer w')"
    using relay_loop_delivered [of publish delivered t ?B u v, OF law mono] by auto
  then show ?thesis using inB by (simp add: d Let_def)
qed

text \<open>A broker that keeps every message, and an outbox with one row, for the witnesses.\<close>

definition log_publisher :: "(string \<times> string \<times> json \<times> (string \<times> string) list) list publisher" where
  "log_publisher t k v h b = (Inr (), (t, k, v, h) # b)"

definition sample_row :: outbox_row where
  "sample_row = \<lparr>msg_ID = ''m1'', msg_Topic = ''banking.ledger.v1'', msg_Key = ''acc-1'', msg_Value = JObj [],
     msg_Headers = [], msg_CreatedAt = 5000, msg_PublishedAt = None, row_processed_at = None\<rparr>"

definition sample_outbox ::
    "(outbox_db, (string \<times> string \<times> json \<times> (string \<times> string) list) list) world" where
  "sample_outbox = \<lparr>db = \<lparr>columns = [], outbox_messages = [sample_row]\<rparr>, peer = [],
     clock = (\<lambda>n. 7000), uuid = (\<lambda>n. ''u''), fault = (\<lambda>n. None), tick = 0, txtime = None\<rparr>"

definition sample_Config :: relay_Config where
  "sample_Config = \<lparr>BatchSize = 100, PollInterval = 1, LockTimeout = 1, PublishTimeout = 1\<rparr>"

lemmas sample_relay = log_publisher_def sample_row_def sample_outbox_def sample_Config_def

theorem relay_at_least_once_witness:
  "msg_PublishedAt (outbox_messages (db (snd
      (relay_tick log_publisher (\<lambda>_. False) sample_Config sample_outbox))) ! 0) = Some 7000
   \<and> (''banking.ledger.v1'', ''acc-1'', JObj [], []) \<in> set (peer (snd
      (relay_tick log_publisher (\<lambda>_. False) sample_Config sample_outbox)))"
proof -
  let ?r = "relay_tick log_publisher (\<lambda>_. False) sample_Config sample_outbox"
  have run: "outbox_messages (db (snd ?r)) = [sample_row\<lparr>msg_PublishedAt := Some 7000\<rparr>]"
    by (simp add: relay_tick_def relay_tick_body_def withTx_def sql_def sql_now_def bindE_def Let_def
        select_batch_def unpublished_def nowUTC_def relay_publish_one_def publish_row_def returnE_def
        mark_published_def pg_time_def sample_relay)
  have "(let m = outbox_messages (db sample_outbox) ! 0 in
      (msg_Topic m, msg_Key m, msg_Value m, msg_Headers m)) \<in> set (peer (snd ?r))
    \<and> map msg_ID (outbox_messages (db (snd ?r))) = map msg_ID (outbox_messages (db sample_outbox))"
    by (rule relay_at_least_once [where publish = log_publisher and delivered = set and i = 0 and
          r = "fst ?r"])
       (auto simp: run, auto simp: sample_relay)
  then show ?thesis using run by (simp add: Let_def sample_relay)
qed

text \<open>
  C6. The relay drains the outbox: when neither the database nor the publisher fails
  and no other transaction holds a row, \<open>n\<close> polls publish everything as soon as \<open>n\<close>
  batches can hold the unpublished rows, and the loop returns without an error.
\<close>

theorem relay_Run_publishes_all:
  assumes "healthy w" and "distinct (map msg_ID (outbox_messages (db w)))"
    and "\<And>t k v h b. fst (publish t k v h b) = Inr ()"
    and "length (unpublished (outbox_messages (db w))) \<le> n * nat (BatchSize (WithDefaults cfg))"
  shows "\<exists>w'. relay_Run publish (\<lambda>_. False) cfg n w = (Inr (), w') \<and>
         unpublished (outbox_messages (db w')) = []"
  using relay_Run_drains [of publish, OF assms(3)] assms(1,2,4) by blast

theorem relay_Run_publishes_all_witness:
  "\<exists>w'. relay_Run log_publisher (\<lambda>_. False) sample_Config 1 sample_outbox = (Inr (), w') \<and>
     unpublished (outbox_messages (db w')) = []"
  by (rule relay_Run_publishes_all)
     (simp_all add: healthy_def unpublished_def WithDefaults_def sample_relay)

end
