(* ===== verification/EventStore.thy ===== *)
theory EventStore
  imports Outbox
begin

text \<open>
  The event store \<open>src/pkg/eventstore\<close> and its Postgres implementation
  \<open>src/pkg/eventstore/postgres/store.go\<close> over the tables of the migrations: events
  with a global sequence number, at most one per identifier and one per aggregate and
  version, and snapshots, at most one per aggregate and version. The interface
  \<open>event_log\<close> states what the services rely on; it is interpreted on the store below.
\<close>

section \<open>Tables\<close>

record Event =
  ev_ID :: id
  ev_AggregateID :: id
  ev_AggregateType :: string
  ev_Version :: int
  ev_Type :: string
  ev_OccurredAt :: time
  ev_Data :: json
  ev_Metadata :: "json option"

record Snapshot =
  snap_AggregateID :: id
  snap_AggregateType :: string
  snap_Version :: int
  snap_CreatedAt :: time
  snap_Data :: json

text \<open>\<open>event_seq\<close> is the last value the identity column \<open>sequence\<close> handed out.\<close>

record event_db = outbox_db +
  event_store_events :: "(int \<times> Event) list"
  event_seq :: int
  event_store_snapshots :: "Snapshot list"

text \<open>Rolling back restores every table; numbers drawn from the identity column stay drawn.\<close>

definition rollback :: "'x event_db_scheme \<Rightarrow> 'x event_db_scheme \<Rightarrow> 'x event_db_scheme" where
  "rollback d0 d1 = d0\<lparr>event_seq := event_seq d1\<rparr>"

section \<open>Operations\<close>

text \<open>What a stored event looks like when it is read back.\<close>

definition stored :: "Event \<Rightarrow> Event" where
  "stored e = e\<lparr>ev_OccurredAt := pg_time (ev_OccurredAt e)\<rparr>"

text \<open>The identity column is a bigint: after its largest value it yields an error.\<close>

definition sequence_exhausted :: go_error where
  "sequence_exhausted = DbError ''ERROR: nextval: reached maximum value of sequence (SQLSTATE 2200H)''"

definition insert_event :: "Event \<Rightarrow> 'x event_db_scheme \<Rightarrow> go_error + unit \<times> 'x event_db_scheme" where
  "insert_event e d =
     (if ev_ID e \<in> (ev_ID \<circ> snd) ` set (event_store_events d)
      then Inl (unique_violation ''event_store_events_pkey'')
      else if (ev_AggregateID e, ev_Version e)
          \<in> (\<lambda>(s, f). (ev_AggregateID f, ev_Version f)) ` set (event_store_events d)
      then Inl (unique_violation ''event_store_events_agg_ver_uidx'')
      else if 2 ^ 63 \<le> event_seq d + 1 then Inl sequence_exhausted
      else Inr ((), d\<lparr>event_store_events := event_store_events d @ [(event_seq d + 1, stored e)],
                     event_seq := event_seq d + 1\<rparr>))"

definition Store_Append :: "Event list \<Rightarrow> ('x event_db_scheme, 'p, unit) go" where
  "Store_Append es = forE (\<lambda>e. sql (insert_event e)) es"

definition default_limit :: "int \<Rightarrow> int" where
  "default_limit lim = (if lim \<le> 0 then 1000 else lim)"

definition select_stream :: "id \<Rightarrow> int \<Rightarrow> int \<Rightarrow> 'x event_db_scheme \<Rightarrow> Event list" where
  "select_stream a from lim d =
     take (nat lim) (sort_key ev_Version
       (filter (\<lambda>e. ev_AggregateID e = a \<and> from < ev_Version e) (map snd (event_store_events d))))"

definition Store_Read :: "id \<Rightarrow> int \<Rightarrow> int \<Rightarrow> ('x event_db_scheme, 'p, Event list) go" where
  "Store_Read a from lim = sql (\<lambda>d. Inr (select_stream a from (default_limit lim) d, d))"

definition select_all :: "int \<Rightarrow> int \<Rightarrow> 'x event_db_scheme \<Rightarrow> (int \<times> Event) list" where
  "select_all from lim d =
     take (nat lim) (sort_key fst (filter (\<lambda>(s, e). from < s) (event_store_events d)))"

definition Store_ReadAll :: "int \<Rightarrow> int \<Rightarrow> ('x event_db_scheme, 'p, Event list \<times> int) go" where
  "Store_ReadAll from lim = sql (\<lambda>d.
     let rows = select_all from (default_limit lim) d
     in Inr ((map snd rows, if rows = [] then from else fst (last rows)), d))"

definition SaveSnapshot :: "Snapshot \<Rightarrow> ('x event_db_scheme, 'p, unit) go" where
  "SaveSnapshot s = sql (\<lambda>d.
     if (snap_AggregateID s, snap_Version s)
          \<in> (\<lambda>t. (snap_AggregateID t, snap_Version t)) ` set (event_store_snapshots d)
     then Inl (unique_violation ''event_store_snapshots_pkey'')
     else Inr ((), d\<lparr>event_store_snapshots := event_store_snapshots d @
       [s\<lparr>snap_CreatedAt := pg_time (snap_CreatedAt s)\<rparr>]\<rparr>))"

definition latest_snapshot :: "id \<Rightarrow> 'x event_db_scheme \<Rightarrow> Snapshot option" where
  "latest_snapshot a d =
     (case sort_key (\<lambda>s. - snap_Version s)
        (filter (\<lambda>s. snap_AggregateID s = a) (event_store_snapshots d)) of
        [] \<Rightarrow> None | s # _ \<Rightarrow> Some s)"

definition LoadLatestSnapshot :: "id \<Rightarrow> ('x event_db_scheme, 'p, Snapshot option) go" where
  "LoadLatestSnapshot a = sql (\<lambda>d. Inr (latest_snapshot a d, d))"

section \<open>Well-formed stores\<close>

text \<open>The events of one aggregate in version order.\<close>

definition stream :: "'x event_db_scheme \<Rightarrow> id \<Rightarrow> Event list" where
  "stream d a = sort_key ev_Version
     (filter (\<lambda>e. ev_AggregateID e = a) (map snd (event_store_events d)))"

definition events_wf :: "'x event_db_scheme \<Rightarrow> bool" where
  "events_wf d \<longleftrightarrow>
     sorted_wrt (<) (map fst (event_store_events d)) \<and>
     (\<forall>(s, e) \<in> set (event_store_events d). 0 < s \<and> s \<le> event_seq d) \<and>
     0 \<le> event_seq d \<and> event_seq d < 2 ^ 63 \<and>
     distinct (map (ev_ID \<circ> snd) (event_store_events d)) \<and>
     distinct (map (\<lambda>(s, e). (ev_AggregateID e, ev_Version e)) (event_store_events d))"

lemma insert_event_Inr:
  "insert_event e d = Inr (u, d') \<longleftrightarrow>
     ev_ID e \<notin> (ev_ID \<circ> snd) ` set (event_store_events d) \<and>
     (\<forall>(s, f) \<in> set (event_store_events d).
        ev_AggregateID f = ev_AggregateID e \<longrightarrow> ev_Version f \<noteq> ev_Version e) \<and>
     event_seq d + 1 < 2 ^ 63 \<and>
     d' = d\<lparr>event_store_events := event_store_events d @ [(event_seq d + 1, stored e)],
            event_seq := event_seq d + 1\<rparr>"
  unfolding insert_event_def by (simp split: prod.splits) (force simp: image_iff)

text \<open>The two halves of that fact: when an event is accepted and what the store is then.\<close>

definition can_append :: "Event \<Rightarrow> 'x event_db_scheme \<Rightarrow> bool" where
  "can_append e d \<longleftrightarrow>
     ev_ID e \<notin> (ev_ID \<circ> snd) ` set (event_store_events d) \<and>
     (\<forall>(s, f) \<in> set (event_store_events d).
        ev_AggregateID f = ev_AggregateID e \<longrightarrow> ev_Version f \<noteq> ev_Version e) \<and>
     event_seq d + 1 < 2 ^ 63"

definition append_db :: "Event \<Rightarrow> 'x event_db_scheme \<Rightarrow> 'x event_db_scheme" where
  "append_db e d = d\<lparr>event_store_events := event_store_events d @ [(event_seq d + 1, stored e)],
     event_seq := event_seq d + 1\<rparr>"

lemma insert_event_iff: "insert_event e d = Inr (u, d') \<longleftrightarrow> can_append e d \<and> d' = append_db e d"
  by (auto simp: insert_event_Inr can_append_def append_db_def)

lemma stored_simps [simp]:
  "ev_ID (stored e) = ev_ID e" "ev_AggregateID (stored e) = ev_AggregateID e"
  "ev_AggregateType (stored e) = ev_AggregateType e" "ev_Version (stored e) = ev_Version e"
  "ev_Type (stored e) = ev_Type e" "ev_Data (stored e) = ev_Data e"
  by (simp_all add: stored_def)

lemma insert_event_wf:
  assumes "events_wf d" and "insert_event e d = Inr (u, d')"
  shows "events_wf d'"
  using assms unfolding insert_event_Inr events_wf_def
  by (auto simp: sorted_wrt_append)

text \<open>How the sequence may move: up, and not past its largest value.\<close>

definition seq_le :: "int \<Rightarrow> int \<Rightarrow> bool" where
  "seq_le m n \<longleftrightarrow> m \<le> n \<and> (m < 2 ^ 63 \<longrightarrow> n < 2 ^ 63)"

lemma seq_le_refl [simp]: "seq_le n n"
  by (simp add: seq_le_def)

lemma seq_le_trans: "seq_le l m \<Longrightarrow> seq_le m n \<Longrightarrow> seq_le l n"
  by (auto simp: seq_le_def)

lemma events_wf_seq: "events_wf d \<Longrightarrow> seq_le (event_seq d) n \<Longrightarrow> events_wf (d\<lparr>event_seq := n\<rparr>)"
  by (auto simp: events_wf_def seq_le_def)

lemma events_length: "events_wf d \<Longrightarrow> int (length (event_store_events d)) \<le> event_seq d"
proof -
  assume wf: "events_wf d"
  let ?s = "map fst (event_store_events d)"
  have "distinct ?s" using wf by (auto simp: events_wf_def strict_sorted_iff)
  then have "length ?s = card (set ?s)" by (rule distinct_card [symmetric])
  also have "\<dots> \<le> card {1..event_seq d}"
    using wf by (intro card_mono) (auto simp: events_wf_def)
  finally have "length (event_store_events d) \<le> nat (event_seq d)" by simp
  moreover have "0 \<le> event_seq d" using wf by (simp add: events_wf_def)
  ultimately show ?thesis by linarith
qed

subsection \<open>Streams\<close>

lemma set_stream: "set (stream d a) = {e. \<exists>s. (s, e) \<in> set (event_store_events d) \<and> ev_AggregateID e = a}"
  by (force simp: stream_def)

lemma sort_key_snoc_max:
  fixes f :: "'a \<Rightarrow> int"
  assumes "\<forall>y\<in>set xs. f y \<le> f x"
  shows "sort_key f (xs @ [x]) = sort_key f xs @ [x]"
proof -
  have ins: "insort_key f y (zs @ [x]) = insort_key f y zs @ [x]" if "f y \<le> f x" for y zs
    using that by (induction zs) simp_all
  show ?thesis using assms by (induction xs) (simp_all add: ins)
qed

text \<open>Reading a stream is reading its tail.\<close>

lemma select_stream_eq:
  "select_stream a from lim d = take (nat lim) (filter (\<lambda>e. from < ev_Version e) (stream d a))"
  by (simp add: select_stream_def stream_def filter_sort conj_commute)

section \<open>The interface of an event log\<close>

text \<open>
  \<open>contiguous es\<close>: the versions of a stream are \<open>1, 2, ..., n\<close>, which is what the command
  handlers establish by appending at \<open>Version() + 1\<close>.
\<close>

definition contiguous :: "Event list \<Rightarrow> bool" where
  "contiguous es \<longleftrightarrow> map ev_Version es = [1..int (length es)]"

lemma contiguous_Nil [simp]: "contiguous []"
  by (simp add: contiguous_def)

lemma contiguous_snoc:
  "contiguous es \<Longrightarrow> ev_Version e = int (length es) + 1 \<Longrightarrow> contiguous (es @ [e])"
  by (simp add: contiguous_def upto_rec2)

lemma contiguous_versions: "contiguous es \<Longrightarrow> ev_Version ` set es = {1..int (length es)}"
  unfolding contiguous_def by (metis list.set_map set_upto)

lemma contiguous_tail:
  "contiguous es \<Longrightarrow> 0 \<le> v \<Longrightarrow> filter (\<lambda>e. v < ev_Version e) es = drop (nat v) es"
proof (induction es rule: rev_induct)
  case (snoc e es)
  have v: "ev_Version e = int (length es) + 1" and c: "contiguous es"
    using snoc.prems(1) by (simp_all add: contiguous_def upto_rec2)
  show ?case using snoc.IH [OF c snoc.prems(2)] snoc.prems(2) v by (auto simp: not_less)
qed simp

locale event_log =
  fixes append :: "Event \<Rightarrow> 'd \<Rightarrow> go_error + unit \<times> 'd"
    and stream_of :: "'d \<Rightarrow> id \<Rightarrow> Event list"
  assumes append_stream:
      "append e d = Inr (u, d') \<Longrightarrow>
       \<forall>f\<in>set (stream_of d (ev_AggregateID e)). ev_Version f < ev_Version e \<Longrightarrow>
       stream_of d' a = (if a = ev_AggregateID e then stream_of d a @ [stored e] else stream_of d a)"
    and append_new_version:
      "append e d = Inr (u, d') \<Longrightarrow>
       ev_Version e \<notin> ev_Version ` set (stream_of d (ev_AggregateID e))"
begin

lemma append_next:
  assumes "contiguous (stream_of d (ev_AggregateID e))"
    and "ev_Version e = int (length (stream_of d (ev_AggregateID e))) + 1"
    and "append e d = Inr (u, d')"
  shows "stream_of d' a = (if a = ev_AggregateID e then stream_of d a @ [stored e] else stream_of d a)"
proof (rule append_stream [OF assms(3)])
  have "ev_Version f \<le> int (length (stream_of d (ev_AggregateID e)))"
    if "f \<in> set (stream_of d (ev_AggregateID e))" for f
    using contiguous_versions [OF assms(1)] that by (metis atLeastAtMost_iff image_eqI)
  then show "\<forall>f\<in>set (stream_of d (ev_AggregateID e)). ev_Version f < ev_Version e"
    using assms(2) by force
qed

lemma append_next_contiguous:
  assumes "\<forall>a. contiguous (stream_of d a)"
    and "ev_Version e = int (length (stream_of d (ev_AggregateID e))) + 1"
    and "append e d = Inr (u, d')"
  shows "contiguous (stream_of d' a)"
  using assms append_next [of d e u d' a] by (auto intro!: contiguous_snoc)

text \<open>Optimistic concurrency: a version that is already in the stream is refused.\<close>

lemma append_stale_version:
  assumes "contiguous (stream_of d (ev_AggregateID e))"
    and "1 \<le> ev_Version e" and "ev_Version e \<le> int (length (stream_of d (ev_AggregateID e)))"
  shows "\<exists>err. append e d = Inl err"
proof (cases "append e d")
  case (Inr r)
  then obtain u d' where "append e d = Inr (u, d')" by (cases r) simp
  then have "ev_Version e \<notin> {1..int (length (stream_of d (ev_AggregateID e)))}"
    using append_new_version contiguous_versions [OF assms(1)] by metis
  then show ?thesis using assms(2,3) by simp
qed simp

end

interpretation es: event_log insert_event stream
proof
  fix e :: Event and d d' :: "'x event_db_scheme" and u a
  assume ins: "insert_event e d = Inr (u, d')"
  then show "ev_Version e \<notin> ev_Version ` set (stream d (ev_AggregateID e))"
    by (fastforce simp: insert_event_Inr set_stream)
  assume less: "\<forall>f\<in>set (stream d (ev_AggregateID e)). ev_Version f < ev_Version e"
  let ?xs = "filter (\<lambda>f. ev_AggregateID f = ev_AggregateID e) (map snd (event_store_events d))"
  have "\<forall>f\<in>set ?xs. ev_Version f \<le> ev_Version (stored e)"
    using less by (auto simp: stream_def intro: less_imp_le)
  then have "sort_key ev_Version (?xs @ [stored e]) = sort_key ev_Version ?xs @ [stored e]"
    by (rule sort_key_snoc_max)
  moreover have "d' = append_db e d" using ins by (simp add: insert_event_iff)
  ultimately show "stream d' a = (if a = ev_AggregateID e then stream d a @ [stored e] else stream d a)"
    by (simp add: stream_def append_db_def)
qed

section \<open>Runs of the store\<close>

lemma env_store [go_env]:
  "env_op (Store_Append es)" "env_op (Store_Read a from lim)" "env_op (Store_ReadAll f lim)"
  "env_op (SaveSnapshot s)" "env_op (LoadLatestSnapshot a)"
  by (simp_all add: Store_Append_def Store_Read_def Store_ReadAll_def SaveSnapshot_def
      LoadLatestSnapshot_def go_env)

lemma Store_Append_one [go_inv]:
  "Store_Append [e] w = (Inr u, w') \<longleftrightarrow>
     fault w (tick w) = None \<and> can_append e (db w) \<and>
     w' = w\<lparr>tick := Suc (tick w), db := append_db e (db w)\<rparr>"
  by (auto simp: Store_Append_def go_inv insert_event_iff)

lemma select_all_wf:
  "events_wf d \<Longrightarrow> select_all from lim d = take (nat lim) (filter (\<lambda>(s, e). from < s) (event_store_events d))"
  unfolding select_all_def events_wf_def
  by (auto intro!: arg_cong [where f = "take (nat lim)"] sort_key_id_if_sorted
      strict_sorted_imp_sorted simp: sorted_wrt_map sorted_wrt_filter)

text \<open>
  Paging: the events after a page of \<open>ReadAll\<close>, read from the sequence number the page
  returns, are those after the page in the log. So consecutive pages visit every event
  once, in order.
\<close>

definition log_after :: "int \<Rightarrow> 'x event_db_scheme \<Rightarrow> (int \<times> Event) list" where
  "log_after from d = filter (\<lambda>(s, e). from < s) (event_store_events d)"

lemma filter_after_page:
  fixes xs :: "(int \<times> 'a) list"
  assumes "sorted_wrt (<) (map fst xs)" and "take n xs \<noteq> []"
  shows "filter (\<lambda>(s, e). fst (last (take n xs)) < s) xs = drop n xs"
proof -
  let ?l = "fst (last (take n xs))"
  have split: "xs = take n xs @ drop n xs" by simp
  have srt: "sorted_wrt (<) (map fst (take n xs @ drop n xs))" using assms(1) by simp
  have "s \<le> ?l" if "(s, e) \<in> set (take n xs)" for s e
  proof -
    have "take n xs = butlast (take n xs) @ [last (take n xs)]" using assms(2) by simp
    then have "sorted_wrt (<) (map fst (butlast (take n xs) @ [last (take n xs)]))"
      and "(s, e) \<in> set (butlast (take n xs) @ [last (take n xs)])"
      using srt that by (simp_all only: map_append sorted_wrt_append)
    then show ?thesis by (cases "(s, e) = last (take n xs)") (auto simp: sorted_wrt_append dest: sym)
  qed
  then have "filter (\<lambda>(s, e). ?l < s) (take n xs) = []" by (fastforce simp: filter_empty_conv not_less)
  moreover have "?l < s" if "(s, e) \<in> set (drop n xs)" for s e
    using srt that last_in_set [OF assms(2)] unfolding map_append sorted_wrt_append by force
  then have "filter (\<lambda>(s, e). ?l < s) (drop n xs) = drop n xs" by (auto simp: filter_id_conv)
  ultimately show ?thesis by (subst split) (simp only: filter_append append_Nil)
qed

lemma log_after_page:
  assumes wf: "events_wf d" and rows: "rows = select_all from lim d" and "rows \<noteq> []"
  shows "log_after (fst (last rows)) d = drop (nat lim) (log_after from d)"
proof -
  have r: "rows = take (nat lim) (log_after from d)"
    using rows select_all_wf [OF wf] by (simp add: log_after_def)
  have "sorted_wrt (<) (map fst (log_after from d))"
    using wf by (simp add: events_wf_def log_after_def sorted_wrt_map sorted_wrt_filter)
  then have "filter (\<lambda>(s, e). fst (last rows) < s) (log_after from d) = drop (nat lim) (log_after from d)"
    using assms(3) unfolding r by (rule filter_after_page)
  moreover have "from < fst (last rows)"
    using last_in_set [OF assms(3)] by (auto simp: r log_after_def dest!: in_set_takeD)
  then have "filter (\<lambda>(s, e). fst (last rows) < s) (log_after from d) = log_after (fst (last rows)) d"
    by (auto simp: log_after_def intro!: filter_cong)
  ultimately show ?thesis by simp
qed

lemma log_after_next:
  assumes "events_wf d" and "0 < k"
  shows "log_after (if take k (log_after from d) = [] then from else fst (last (take k (log_after from d)))) d =
     drop k (log_after from d)"
proof (cases "take k (log_after from d) = []")
  case False
  then show ?thesis
    using log_after_page [OF assms(1) _ False, of "from" "int k"] select_all_wf [OF assms(1), of "from" "int k"]
    by (simp add: log_after_def)
qed (use assms in simp)

lemma log_after_0: "events_wf d \<Longrightarrow> log_after 0 d = event_store_events d"
  by (auto simp: log_after_def events_wf_def intro!: filter_True)

section \<open>Sequence numbers only grow\<close>

named_theorems seq_mono_intro \<open>operations that never lower the event sequence\<close>

definition seq_mono :: "('x event_db_scheme, 'p, 'a) go \<Rightarrow> bool" where
  "seq_mono m \<longleftrightarrow> (\<forall>w. seq_le (event_seq (db w)) (event_seq (db (snd (m w)))))"

lemma seq_monoD: "seq_mono m \<Longrightarrow> m w = (r, w') \<Longrightarrow> seq_le (event_seq (db w)) (event_seq (db w'))"
  by (metis seq_mono_def snd_conv)

lemma seq_mono_basic [seq_mono_intro]:
  "seq_mono (returnE x)" "seq_mono (throwE e)" "seq_mono (liftE r)" "seq_mono newID" "seq_mono nowUTC"
  by (simp_all add: seq_mono_def returnE_def throwE_def liftE_def newID_def nowUTC_def)

lemma seq_mono_sql_now [seq_mono_intro]:
  "(\<And>t d x d'. st t d = Inr (x, d') \<Longrightarrow> seq_le (event_seq d) (event_seq d')) \<Longrightarrow> seq_mono (sql_now st)"
  by (auto simp: seq_mono_def sql_now_def Let_def split: option.splits sum.splits prod.splits)

lemma seq_mono_sql [seq_mono_intro]:
  "(\<And>d x d'. st d = Inr (x, d') \<Longrightarrow> seq_le (event_seq d) (event_seq d')) \<Longrightarrow> seq_mono (sql st)"
  unfolding sql_def by (rule seq_mono_sql_now)

lemma seq_mono_bindE [seq_mono_intro]:
  assumes m: "seq_mono m" and f: "\<And>x. seq_mono (f x)"
  shows "seq_mono (bindE m f)"
proof -
  have "seq_le (event_seq (db w)) (event_seq (db (snd (bindE m f w))))" for w
  proof (cases "m w")
    case (Pair r v)
    then have "seq_le (event_seq (db w)) (event_seq (db v))" using seq_monoD m by blast
    moreover have "seq_le (event_seq (db v)) (event_seq (db (snd (f x v))))" for x
      using f by (simp add: seq_mono_def)
    ultimately show ?thesis using Pair by (cases r) (auto simp: bindE_def intro: seq_le_trans)
  qed
  then show ?thesis by (simp add: seq_mono_def)
qed

lemma seq_mono_forE [seq_mono_intro]: "(\<And>x. seq_mono (f x)) \<Longrightarrow> seq_mono (forE f xs)"
  by (induction xs) (simp_all add: seq_mono_intro)

lemma seq_mono_mapE [seq_mono_intro]: "(\<And>x. seq_mono (f x)) \<Longrightarrow> seq_mono (mapE f xs)"
  by (induction xs) (simp_all add: seq_mono_intro)

lemma seq_mono_tryE [seq_mono_intro]: "seq_mono m \<Longrightarrow> seq_mono (tryE m)"
  by (auto simp: seq_mono_def tryE_def split: prod.splits) (metis snd_conv)

lemma seq_mono_store [seq_mono_intro]:
  "seq_mono (Store_Append es)" "seq_mono (Store_Read a from lim)" "seq_mono (Store_ReadAll f lim)"
  "seq_mono (SaveSnapshot s)" "seq_mono (LoadLatestSnapshot a)" "seq_mono (Enqueue m)"
  by (auto simp: Store_Append_def Store_Read_def Store_ReadAll_def SaveSnapshot_def
      LoadLatestSnapshot_def Enqueue_def Outbox_insert_def insert_event_def Let_def seq_le_def
      intro!: seq_mono_intro split: if_splits)

text \<open>A transaction that returns an error changes nothing but the sequence.\<close>

lemma withTx_rollback_error:
  assumes "seq_mono body" and "withTx rollback body w = (Inl e, w')"
  shows "\<exists>n. seq_le (event_seq (db w)) n \<and> db w' = (db w)\<lparr>event_seq := n\<rparr>"
proof -
  let ?w1 = "w\<lparr>tick := Suc (tick w), txtime := Some (clock w (tick w))\<rparr>"
  have "seq_le (event_seq (db w)) (event_seq (db (snd (body ?w1))))"
    using assms(1) [unfolded seq_mono_def, rule_format, of ?w1] by simp
  then show ?thesis using assms(2)
    by (cases "body ?w1")
       (auto simp: withTx_def Let_def rollback_def split: option.splits sum.splits
         intro: exI [of _ "event_seq (db w)"])
qed

lemma seq_mono_withTx [seq_mono_intro]: "seq_mono body \<Longrightarrow> seq_mono (withTx rollback body)"
  unfolding seq_mono_def [of "withTx rollback body"]
proof
  fix w :: "('a event_db_scheme, 'b) world"
  assume m: "seq_mono body"
  show "seq_le (event_seq (db w)) (event_seq (db (snd (withTx rollback body w))))"
  proof (cases "withTx rollback body w")
    case (Pair r w')
    show ?thesis
    proof (cases r)
      case (Inl e)
      then show ?thesis using withTx_rollback_error [OF m] Pair by fastforce
    next
      case (Inr x)
      then obtain v where
        "body (w\<lparr>tick := Suc (tick w), txtime := Some (clock w (tick w))\<rparr>) = (Inr x, v)"
        and "db w' = db v"
        using Pair by (auto simp: withTx_inv)
      then show ?thesis using seq_monoD [OF m] Pair by fastforce
    qed
  qed
qed

section \<open>Event-sourced aggregates\<close>

text \<open>
  What the services rely on when they rebuild an aggregate from its events: every event
  advances the version by one, and, where snapshots are taken, restoring the snapshot of a
  replayed state gives that state back.
\<close>

locale event_sourced =
  fixes step :: "'e \<Rightarrow> 's \<Rightarrow> 's" and zero :: 's and version :: "'s \<Rightarrow> int"
  assumes version_zero: "version zero = 0"
    and version_step: "version (step e s) = version s + 1"
begin

lemma version_fold: "version (fold step es s) = version s + int (length es)"
  by (induction es arbitrary: s) (simp_all add: version_step)

lemma version_replay: "version (fold step es zero) = int (length es)"
  by (simp add: version_fold version_zero)

end

locale snapshotted = event_sourced step zero version
  for step :: "'e \<Rightarrow> 's \<Rightarrow> 's" and zero :: 's and version :: "'s \<Rightarrow> int" +
  fixes snapshot :: "'s \<Rightarrow> 'n" and restore :: "'n \<Rightarrow> 's"
  assumes restore_snapshot: "restore (snapshot (fold step es zero)) = fold step es zero"
begin

lemma replay_from_snapshot:
  "fold step ys (restore (snapshot (fold step xs zero))) = fold step (xs @ ys) zero"
  by (simp add: restore_snapshot)

lemma replay_from_prefix:
  "fold step (drop n es) (restore (snapshot (fold step (take n es) zero))) = fold step es zero"
  by (simp add: replay_from_snapshot)

end

lemma seq_mono_wrapE [seq_mono_intro]: "seq_mono m \<Longrightarrow> seq_mono (wrapE msg m)"
  by (auto simp: seq_mono_def wrapE_def split: prod.splits sum.splits) (metis snd_conv)+

lemma seq_mono_callPeer [seq_mono_intro]: "seq_mono (callPeer f)"
  by (auto simp: seq_mono_def callPeer_def split: prod.splits)

section \<open>Latest snapshots\<close>

lemma latest_snapshot_Some:
  assumes "latest_snapshot a d = Some s"
  shows "s \<in> set (event_store_snapshots d)" and "snap_AggregateID s = a"
proof -
  let ?xs = "sort_key (\<lambda>s. - snap_Version s) (filter (\<lambda>s. snap_AggregateID s = a) (event_store_snapshots d))"
  have "\<exists>ys. ?xs = s # ys" using assms by (auto simp: latest_snapshot_def split: list.splits)
  then have "s \<in> set ?xs" by (metis list.set_intros(1))
  then show "s \<in> set (event_store_snapshots d)" "snap_AggregateID s = a" by auto
qed

lemma sort_key_snoc_min:
  fixes f :: "'a \<Rightarrow> int"
  assumes "\<forall>y\<in>set xs. f x < f y"
  shows "sort_key f (xs @ [x]) = x # sort_key f xs"
  using assms by (induction xs) simp_all

lemma latest_snapshot_snoc:
  assumes "event_store_snapshots d' = event_store_snapshots d @ [s]"
    and "\<forall>t\<in>set (event_store_snapshots d). snap_AggregateID t = snap_AggregateID s \<longrightarrow> snap_Version t < snap_Version s"
  shows "latest_snapshot a d' = (if a = snap_AggregateID s then Some s else latest_snapshot a d)"
  using assms(2) by (simp add: latest_snapshot_def assms(1) sort_key_snoc_min)

lemma latest_snapshot_cong:
  "event_store_snapshots d' = event_store_snapshots d \<Longrightarrow> latest_snapshot a d' = latest_snapshot a d"
  by (simp add: latest_snapshot_def)

lemma local_store [local_intro]:
  "local_op (Store_Append es)" "local_op (Store_Read a from lim)" "local_op (Store_ReadAll f lim)"
  "local_op (SaveSnapshot s)" "local_op (LoadLatestSnapshot a)" "local_op (Enqueue m)"
  by (simp_all add: Store_Append_def Store_Read_def Store_ReadAll_def SaveSnapshot_def
      LoadLatestSnapshot_def Enqueue_def local_intro)

end
