(* ===== verification/Ledger.thy ===== *)
theory Ledger
  imports LedgerDomain EventStore
begin

text \<open>
  The ledger service's command side: the balance and idempotency tables
  (\<open>src/services/ledger-service/infrastructure/postgres\<close>) and the handler
  \<open>src/services/ledger-service/application/commands/post_entry.go\<close>, which checks a
  posting, appends its event, updates the balance, remembers the idempotency key and
  enqueues the outbox message in one transaction.
\<close>

section \<open>Tables\<close>

text \<open>
  \<open>ledger_account_balances\<close> is keyed by account and projection version,
  \<open>ledger_idempotency\<close> by the key.
\<close>

record ledger_db = event_db +
  ledger_account_balances :: "id \<times> int \<Rightarrow> int64 option"
  ledger_idempotency :: "string \<Rightarrow> id option"

definition updated_at_column :: "string \<times> string" where
  "updated_at_column = (''ledger_account_balances'', ''updated_at'')"

text \<open>The schema of \<open>ledger-service/migrations\<close>: none of the optional columns.\<close>

definition ledger_migrated :: ledger_db where
  "ledger_migrated = \<lparr>columns = [], outbox_messages = [], event_store_events = [], event_seq = 0,
     event_store_snapshots = [], ledger_account_balances = (\<lambda>_. None), ledger_idempotency = (\<lambda>_. None)\<rparr>"

definition BalanceRepo_GetBalanceKobo :: "id \<Rightarrow> int \<Rightarrow> (ledger_db, 'p, int64) go" where
  "BalanceRepo_GetBalanceKobo accountID version = sql (\<lambda>d.
     Inr (case ledger_account_balances d (accountID, version) of None \<Rightarrow> 0 | Some b \<Rightarrow> b, d))"

text \<open>Postgres adds bigints with an overflow check; it never wraps.\<close>

definition upsert_balance :: "id \<Rightarrow> int64 \<Rightarrow> int \<Rightarrow> ledger_db \<Rightarrow> go_error + unit \<times> ledger_db" where
  "upsert_balance accountID delta version d =
     (if updated_at_column \<notin> set (columns d) then Inl (undefined_column ''updated_at'')
      else case ledger_account_balances d (accountID, version) of
        None \<Rightarrow> Inr ((), d\<lparr>ledger_account_balances :=
                   (ledger_account_balances d)((accountID, version) \<mapsto> delta)\<rparr>)
      | Some b \<Rightarrow>
          if in_int64 (sint b + sint delta)
          then Inr ((), d\<lparr>ledger_account_balances :=
                   (ledger_account_balances d)((accountID, version) \<mapsto> b + delta)\<rparr>)
          else Inl bigint_out_of_range)"

definition ApplyDelta :: "id \<Rightarrow> int64 \<Rightarrow> int \<Rightarrow> (ledger_db, 'p, unit) go" where
  "ApplyDelta accountID delta version = sql (upsert_balance accountID delta version)"

definition IdempotencyRepo_GetByKey :: "string \<Rightarrow> (ledger_db, 'p, id option) go" where
  "IdempotencyRepo_GetByKey key = sql (\<lambda>d. Inr (ledger_idempotency d key, d))"

definition IdempotencyRepo_Save :: "string \<Rightarrow> id \<Rightarrow> (ledger_db, 'p, unit) go" where
  "IdempotencyRepo_Save key entryID = sql (\<lambda>d.
     if ledger_idempotency d key \<noteq> None then Inl (unique_violation ''ledger_idempotency_pkey'')
     else Inr ((), d\<lparr>ledger_idempotency := (ledger_idempotency d)(key \<mapsto> entryID)\<rparr>))"

section \<open>The handler\<close>

record PostEntry =
  pe_IdempotencyKey :: string
  pe_AccountID :: id
  pe_Type :: EntryType
  pe_Amount :: Money
  pe_Narration :: string
  pe_OccurredAtUTC :: time

definition ledgerEventsTopicV1 :: string where
  "ledgerEventsTopicV1 = ''banking.ledger.v1''"

definition validateMoney :: "Money \<Rightarrow> go_error option" where
  "validateMoney m =
     (if currency m \<noteq> NGN then Some ErrCurrencyNotNGN
      else if IsNegativeOrZero m then Some ErrInvalidAmount
      else None)"

definition saveEntrySnapshot :: "Entry \<Rightarrow> (ledger_db, 'p, unit) go" where
  "saveEntrySnapshot entry =
     bindE nowUTC (\<lambda>now.
     SaveSnapshot \<lparr>snap_AggregateID = en_id entry, snap_AggregateType = ''ledger_entry'',
       snap_Version = es_Version (Entry_Snapshot entry), snap_CreatedAt = now,
       snap_Data = EntrySnapshot_Marshal (Entry_Snapshot entry)\<rparr>)"

text \<open>The signed amount a posting adds to the balance.\<close>

definition posting_delta :: "EntryType \<Rightarrow> int64 \<Rightarrow> int64" where
  "posting_delta typ amt = (if typ = EntryTypeWithdrawal then - amt else amt)"

text \<open>
  The transaction in three parts: what it reads (the idempotency key, then the balance
  under projection version 1), what it checks for a key not seen before, and what it
  stores.
\<close>

definition PostEntry_read :: "PostEntry \<Rightarrow> (ledger_db, 'p, id + int64) go" where
  "PostEntry_read cmd =
     bindE (IdempotencyRepo_GetByKey (pe_IdempotencyKey cmd)) (\<lambda>hit.
     case hit of
       Some entryID \<Rightarrow> returnE (Inl entryID)
     | None \<Rightarrow>
         bindE (BalanceRepo_GetBalanceKobo (pe_AccountID cmd) 1) (\<lambda>currentBal. returnE (Inr currentBal)))"

definition toAppend_event :: "Entry \<Rightarrow> int \<times> EntryPosted \<Rightarrow> (ledger_db, 'p, Event) go" where
  "toAppend_event entry = (\<lambda>(i, e).
     bindE newID (\<lambda>eid.
     returnE \<lparr>ev_ID = eid, ev_AggregateID = en_id entry, ev_AggregateType = ''ledger_entry'',
       ev_Version = i + 1, ev_Type = EntryPosted_EventType, ev_OccurredAt = ep_OccurredAt e,
       ev_Data = EntryPosted_Marshal e, ev_Metadata = None\<rparr>))"

definition PostEntry_payload :: "Entry \<Rightarrow> id \<Rightarrow> int64 \<Rightarrow> json" where
  "PostEntry_payload entry accountID delta = JObj
     [(''account_id'', JStr accountID), (''aggregate_id'', JStr (en_id entry)),
      (''aggregate_type'', JStr ''ledger_entry''), (''delta_kobo'', JInt (sint delta)),
      (''event_type'', JStr EntryPosted_EventType),
      (''occurred_at_utc'', JTime (en_occurredAtUTC entry))]"

definition PostEntry_store :: "PostEntry \<Rightarrow> int64 \<Rightarrow> Entry \<Rightarrow> (ledger_db, 'p, id) go" where
  "PostEntry_store cmd delta entry0 =
     (let (events, entry) = Entry_PullChanges entry0 in
      bindE (mapE (toAppend_event entry) (zip [0..int (length events) - 1] events)) (\<lambda>toAppend.
      bindE (Store_Append toAppend) (\<lambda>_.
      bindE (if en_version entry mod 50 = 0 then saveEntrySnapshot entry else returnE ()) (\<lambda>_.
      bindE (ApplyDelta (pe_AccountID cmd) delta 1) (\<lambda>_.
      bindE (IdempotencyRepo_Save (pe_IdempotencyKey cmd) (en_id entry)) (\<lambda>_.
      bindE newID (\<lambda>mid.
      bindE nowUTC (\<lambda>created.
      bindE (Enqueue \<lparr>msg_ID = mid, msg_Topic = ledgerEventsTopicV1, msg_Key = pe_AccountID cmd,
               msg_Value = PostEntry_payload entry (pe_AccountID cmd) delta,
               msg_Headers = [(''schema'', ''json.v1'')], msg_CreatedAt = created,
               msg_PublishedAt = None\<rparr>) (\<lambda>_.
      returnE (en_id entry))))))))))"

definition PostEntry_write :: "PostEntry \<Rightarrow> int64 \<Rightarrow> (ledger_db, 'p, id) go" where
  "PostEntry_write cmd currentBal =
     (let delta = posting_delta (pe_Type cmd) (amountKobo (pe_Amount cmd)) in
      if pe_Type cmd = EntryTypeWithdrawal \<and> sint (currentBal + delta) < 0
      then throwE ErrInsufficientFunds
      else
        bindE (NewEntry (pe_AccountID cmd) (pe_Type cmd) (pe_Amount cmd) (pe_Narration cmd)
                 (pe_OccurredAtUTC cmd))
          (PostEntry_store cmd delta))"

definition PostEntry_tx :: "PostEntry \<Rightarrow> (ledger_db, 'p, id) go" where
  "PostEntry_tx cmd =
     bindE (PostEntry_read cmd) (\<lambda>r.
     case r of Inl entryID \<Rightarrow> returnE entryID | Inr currentBal \<Rightarrow> PostEntry_write cmd currentBal)"

text \<open>\<open>Handle\<close> returns the entry identifier, the one field of \<open>PostEntryResult\<close>.\<close>

definition PostEntryHandler_Handle :: "PostEntry \<Rightarrow> (ledger_db, 'p, id) go" where
  "PostEntryHandler_Handle cmd =
     (if pe_IdempotencyKey cmd = '''' then throwE (ErrorString ''idempotency key required'')
      else if pe_AccountID cmd = '''' then throwE (ErrorString ''account id required'')
      else if pe_Type cmd \<noteq> EntryTypeDeposit \<and> pe_Type cmd \<noteq> EntryTypeWithdrawal
      then throwE (ErrorString ''entry type required'')
      else case validateMoney (pe_Amount cmd) of
        Some err \<Rightarrow> throwE err
      | None \<Rightarrow> withTx rollback (PostEntry_tx cmd))"

section \<open>What a successful posting does\<close>

lemma validateMoney_None:
  "validateMoney amt = None \<longleftrightarrow> currency amt = NGN \<and> 0 < sint (amountKobo amt)"
  by (auto simp: validateMoney_def IsNegativeOrZero_def)

definition balance_row :: "ledger_db \<Rightarrow> int \<Rightarrow> id \<Rightarrow> int64" where
  "balance_row d version a = (case ledger_account_balances d (a, version) of None \<Rightarrow> 0 | Some b \<Rightarrow> b)"

text \<open>The balance as a number.\<close>

definition balance :: "ledger_db \<Rightarrow> int \<Rightarrow> id \<Rightarrow> int" where
  "balance d version a = sint (balance_row d version a)"

definition posted_event :: "EntryPosted \<Rightarrow> id \<Rightarrow> Event" where
  "posted_event v evid =
     \<lparr>ev_ID = evid, ev_AggregateID = ep_EntryID v, ev_AggregateType = ''ledger_entry'',
      ev_Version = 1, ev_Type = EntryPosted_EventType, ev_OccurredAt = ep_OccurredAt v,
      ev_Data = EntryPosted_Marshal v, ev_Metadata = None\<rparr>"

definition posted_row :: "EntryPosted \<Rightarrow> id \<Rightarrow> time \<Rightarrow> outbox_row" where
  "posted_row v mid now =
     \<lparr>msg_ID = mid, msg_Topic = ledgerEventsTopicV1, msg_Key = ep_AccountID v,
      msg_Value = PostEntry_payload (posted_entry v) (ep_AccountID v)
        (posting_delta (ep_EntryType v) (ep_AmountKobo v)),
      msg_Headers = [(''schema'', ''json.v1'')], msg_CreatedAt = pg_time now, msg_PublishedAt = None,
      row_processed_at = None\<rparr>"

definition event_delta :: "EntryPosted \<Rightarrow> int64" where
  "event_delta v = posting_delta (ep_EntryType v) (ep_AmountKobo v)"

text \<open>All the changes of one posting of the event \<open>v\<close> under key \<open>key\<close>.\<close>

definition post_db :: "string \<Rightarrow> EntryPosted \<Rightarrow> id \<Rightarrow> id \<Rightarrow> time \<Rightarrow> ledger_db \<Rightarrow> ledger_db" where
  "post_db key v evid mid now d = d
     \<lparr>event_store_events := event_store_events d @ [(event_seq d + 1, stored (posted_event v evid))],
      event_seq := event_seq d + 1,
      ledger_account_balances := (ledger_account_balances d)
        ((ep_AccountID v, 1) \<mapsto> balance_row d 1 (ep_AccountID v) + event_delta v),
      ledger_idempotency := (ledger_idempotency d)(key \<mapsto> ep_EntryID v),
      outbox_messages := outbox_messages d @ [posted_row v mid now]\<rparr>"

text \<open>The conditions under which Postgres accepts all of them.\<close>

definition post_ok :: "string \<Rightarrow> EntryPosted \<Rightarrow> id \<Rightarrow> id \<Rightarrow> ledger_db \<Rightarrow> bool" where
  "post_ok key v evid mid d \<longleftrightarrow>
     updated_at_column \<in> set (columns d) \<and>
     evid \<notin> (ev_ID \<circ> snd) ` set (event_store_events d) \<and>
     (\<forall>(s, f) \<in> set (event_store_events d). ev_AggregateID f = ep_EntryID v \<longrightarrow> ev_Version f \<noteq> 1) \<and>
     event_seq d + 1 < 2 ^ 63 \<and>
     in_int64 (balance d 1 (ep_AccountID v) + sint (event_delta v)) \<and>
     ledger_idempotency d key = None \<and>
     mid \<notin> msg_ID ` set (outbox_messages d)"

lemma upsert_balance_Inr:
  "upsert_balance a delta ver d = Inr (u, d') \<longleftrightarrow>
     updated_at_column \<in> set (columns d) \<and> in_int64 (balance d ver a + sint delta) \<and>
     d' = d\<lparr>ledger_account_balances := (ledger_account_balances d)((a, ver) \<mapsto> balance_row d ver a + delta)\<rparr>"
  by (auto simp: upsert_balance_def balance_def balance_row_def split: option.splits)

lemma upsert_balance_split:
  "(\<exists>d'. upsert_balance a delta ver d = Inr ((), d')) \<or> (\<exists>e. upsert_balance a delta ver d = Inl e)"
  by (auto simp: upsert_balance_def split: option.splits)

lemma ledger_repo_inv [go_inv]:
  "BalanceRepo_GetBalanceKobo a ver w = (Inr b, w') \<longleftrightarrow>
     fault w (tick w) = None \<and> b = balance_row (db w) ver a \<and> w' = w\<lparr>tick := Suc (tick w)\<rparr>"
  "IdempotencyRepo_GetByKey key w = (Inr r, w') \<longleftrightarrow>
     fault w (tick w) = None \<and> r = ledger_idempotency (db w) key \<and> w' = w\<lparr>tick := Suc (tick w)\<rparr>"
  "ApplyDelta a delta ver w = (Inr u, w') \<longleftrightarrow>
     fault w (tick w) = None \<and> updated_at_column \<in> set (columns (db w)) \<and>
     in_int64 (balance (db w) ver a + sint delta) \<and>
     w' = w\<lparr>tick := Suc (tick w), db := (db w)\<lparr>ledger_account_balances :=
       (ledger_account_balances (db w))((a, ver) \<mapsto> balance_row (db w) ver a + delta)\<rparr>\<rparr>"
  "IdempotencyRepo_Save key eid w = (Inr u, w') \<longleftrightarrow>
     fault w (tick w) = None \<and> ledger_idempotency (db w) key = None \<and>
     w' = w\<lparr>tick := Suc (tick w), db := (db w)\<lparr>ledger_idempotency :=
       (ledger_idempotency (db w))(key \<mapsto> eid)\<rparr>\<rparr>"
  by (auto simp: BalanceRepo_GetBalanceKobo_def IdempotencyRepo_GetByKey_def ApplyDelta_def
      IdempotencyRepo_Save_def go_inv balance_row_def upsert_balance_Inr)

lemma env_ledger_repo [go_env]:
  "env_op (BalanceRepo_GetBalanceKobo a ver)" "env_op (IdempotencyRepo_GetByKey key)"
  "env_op (ApplyDelta a delta ver)" "env_op (IdempotencyRepo_Save key eid)"
  "env_op (saveEntrySnapshot e)" "env_op (toAppend_event e p)"
  by (auto simp: BalanceRepo_GetBalanceKobo_def IdempotencyRepo_GetByKey_def ApplyDelta_def
      IdempotencyRepo_Save_def saveEntrySnapshot_def toAppend_event_def go_env split: prod.splits)

lemma env_PostEntry [go_env]: "env_op (PostEntryHandler_Handle cmd)"
  by (auto simp: PostEntryHandler_Handle_def PostEntry_tx_def PostEntry_read_def PostEntry_write_def PostEntry_store_def
      Let_def go_env intro!: go_env split: option.splits sum.splits prod.splits)

lemma balance_row_update [simp]:
  "balance_row (d\<lparr>event_store_events := x\<rparr>) ver a = balance_row d ver a"
  "balance_row (d\<lparr>event_seq := n\<rparr>) ver a = balance_row d ver a"
  "balance_row (d\<lparr>ledger_idempotency := k\<rparr>) ver a = balance_row d ver a"
  "balance_row (d\<lparr>outbox_messages := m\<rparr>) ver a = balance_row d ver a"
  by (simp_all add: balance_row_def)

lemma balance_update [simp]:
  "balance (d\<lparr>event_store_events := x\<rparr>) ver a = balance d ver a"
  "balance (d\<lparr>event_seq := n\<rparr>) ver a = balance d ver a"
  "balance (d\<lparr>ledger_idempotency := k\<rparr>) ver a = balance d ver a"
  "balance (d\<lparr>outbox_messages := m\<rparr>) ver a = balance d ver a"
  by (simp_all add: balance_def)

text \<open>
  The stores of one posting succeed exactly when no statement fails and Postgres accepts
  all of them, and then they have made the changes of \<open>post_db\<close>.
\<close>

lemma PostEntry_store_iff:
  assumes "pe_AccountID cmd = ep_AccountID v"
  shows "PostEntry_store cmd (event_delta v) (posted_entry v) w = (Inr eid, w') \<longleftrightarrow>
     fault w (tick w + 1) = None \<and> fault w (tick w + 2) = None \<and> fault w (tick w + 3) = None \<and>
     fault w (tick w + 6) = None \<and>
     post_ok (pe_IdempotencyKey cmd) v (uuid w (tick w)) (uuid w (tick w + 4)) (db w) \<and>
     eid = ep_EntryID v \<and>
     w' = w\<lparr>tick := tick w + 7,
       db := post_db (pe_IdempotencyKey cmd) v (uuid w (tick w)) (uuid w (tick w + 4))
         (sql_clock (w\<lparr>tick := tick w + 6\<rparr>)) (db w)\<rparr>"
  unfolding PostEntry_store_def
  by (simp add: go_inv Entry_PullChanges_def posted_entry_def toAppend_event_def append_db_def assms
      numeral_eq_Suc post_ok_def can_append_def post_db_def posted_event_def posted_row_def
      outbox_row_of_def PostEntry_payload_def event_delta_def)
     (intro iffI; elim conjE; intro conjI; assumption)

definition valid_cmd :: "PostEntry \<Rightarrow> bool" where
  "valid_cmd cmd \<longleftrightarrow> pe_IdempotencyKey cmd \<noteq> '''' \<and> pe_AccountID cmd \<noteq> '''' \<and>
     pe_Type cmd \<in> {EntryTypeDeposit, EntryTypeWithdrawal} \<and> validateMoney (pe_Amount cmd) = None"

text \<open>The first interaction after \<open>NewEntry\<close> (which reads the clock only when no time is given).\<close>

definition store_tick :: "PostEntry \<Rightarrow> ('d, 'p) world \<Rightarrow> nat" where
  "store_tick cmd w = (if pe_OccurredAtUTC cmd = 0 then tick w + 5 else tick w + 4)"

text \<open>The event a posting in world \<open>w\<close> produces.\<close>

definition new_event :: "PostEntry \<Rightarrow> ('d, 'p) world \<Rightarrow> EntryPosted" where
  "new_event cmd w = NewEntry_event (pe_AccountID cmd) (pe_Type cmd) (pe_Amount cmd) (pe_Narration cmd)
     (uuid w (store_tick cmd w - 1))
     (if pe_OccurredAtUTC cmd = 0 then clock w (tick w + 3) else pe_OccurredAtUTC cmd)"

lemma new_event_simps [simp]:
  "ep_AccountID (new_event cmd w) = pe_AccountID cmd"
  "event_delta (new_event cmd w) = posting_delta (pe_Type cmd) (amountKobo (pe_Amount cmd))"
  "ep_EntryType (new_event cmd w) = pe_Type cmd"
  "ep_AmountKobo (new_event cmd w) = amountKobo (pe_Amount cmd)"
  "ep_EntryID (new_event cmd w) = uuid w (store_tick cmd w - 1)"
  by (simp_all add: new_event_def NewEntry_event_def event_delta_def)

definition post_faultless :: "PostEntry \<Rightarrow> ('d, 'p) world \<Rightarrow> bool" where
  "post_faultless cmd w \<longleftrightarrow> (\<forall>n \<in> {tick w, tick w + 1, tick w + 2, store_tick cmd w + 1,
     store_tick cmd w + 2, store_tick cmd w + 3, store_tick cmd w + 6, store_tick cmd w + 7}. fault w n = None)"

definition funds_ok :: "PostEntry \<Rightarrow> ledger_db \<Rightarrow> bool" where
  "funds_ok cmd d \<longleftrightarrow> (pe_Type cmd = EntryTypeWithdrawal \<longrightarrow>
     0 \<le> sint (balance_row d 1 (pe_AccountID cmd) - amountKobo (pe_Amount cmd)))"

lemma NewEntry_event_simps [simp]:
  "ep_AccountID (NewEntry_event a typ amt nar eid at) = a"
  "ep_EntryID (NewEntry_event a typ amt nar eid at) = eid"
  by (simp_all add: NewEntry_event_def)

lemma posted_entry_inj: "posted_entry v = posted_entry v' \<longleftrightarrow> v = v'"
  by (auto simp: posted_entry_def)

lemma Handle_valid:
  "PostEntryHandler_Handle cmd w = (Inr eid, w') \<longleftrightarrow>
     valid_cmd cmd \<and> withTx rollback (PostEntry_tx cmd) w = (Inr eid, w')"
  by (auto simp: PostEntryHandler_Handle_def valid_cmd_def go_inv split: option.splits)

lemma PostEntry_write_iff:
  assumes "pe_AccountID cmd \<noteq> ''''" "validateMoney (pe_Amount cmd) = None"
  shows "PostEntry_write cmd b w = (Inr eid, w') \<longleftrightarrow>
     (pe_Type cmd = EntryTypeWithdrawal \<longrightarrow> 0 \<le> sint (b - amountKobo (pe_Amount cmd))) \<and>
     (\<exists>v u. NewEntry (pe_AccountID cmd) (pe_Type cmd) (pe_Amount cmd) (pe_Narration cmd)
          (pe_OccurredAtUTC cmd) w = (Inr (posted_entry v), u) \<and>
        PostEntry_store cmd (event_delta v) (posted_entry v) u = (Inr eid, w'))"
  using assms unfolding PostEntry_write_def Let_def
  by (cases "pe_OccurredAtUTC cmd = 0")
     (auto simp: go_inv posting_delta_def event_delta_def NewEntry_event_def posted_entry_def)

lemma Handle_new_iff:
  assumes new: "ledger_idempotency (db w) (pe_IdempotencyKey cmd) = None"
  shows "PostEntryHandler_Handle cmd w = (Inr eid, w') \<longleftrightarrow>
     valid_cmd cmd \<and> post_faultless cmd w \<and> funds_ok cmd (db w) \<and>
     post_ok (pe_IdempotencyKey cmd) (new_event cmd w) (uuid w (store_tick cmd w))
       (uuid w (store_tick cmd w + 4)) (db w) \<and>
     eid = ep_EntryID (new_event cmd w) \<and>
     w' = w\<lparr>db := post_db (pe_IdempotencyKey cmd) (new_event cmd w) (uuid w (store_tick cmd w))
         (uuid w (store_tick cmd w + 4)) (clock w (tick w)) (db w),
       tick := store_tick cmd w + 8\<rparr>"
proof (cases "valid_cmd cmd")
  case True
  then have v: "pe_AccountID cmd \<noteq> ''''" "validateMoney (pe_Amount cmd) = None"
    "validateAmount (pe_Amount cmd) = None"
    by (simp_all add: valid_cmd_def validateMoney_None validateAmount_None)
  show ?thesis
    unfolding Handle_valid PostEntry_tx_def PostEntry_read_def
    by (cases "pe_OccurredAtUTC cmd = 0")
       (simp_all add: True new v go_inv PostEntry_write_iff PostEntry_store_iff posted_entry_inj
        post_faultless_def funds_ok_def store_tick_def new_event_def numeral_eq_Suc
      del: new_event_simps, (intro iffI; elim conjE; intro conjI; assumption)+)
qed (simp add: Handle_valid)

lemma Handle_replay_iff:
  assumes "ledger_idempotency (db w) (pe_IdempotencyKey cmd) = Some eid0"
  shows "PostEntryHandler_Handle cmd w = (Inr eid, w') \<longleftrightarrow>
     valid_cmd cmd \<and> fault w (tick w) = None \<and> fault w (tick w + 1) = None \<and> fault w (tick w + 2) = None \<and>
     eid = eid0 \<and> w' = w\<lparr>tick := tick w + 3\<rparr>"
  using assms by (auto simp: Handle_valid PostEntry_tx_def PostEntry_read_def go_inv numeral_eq_Suc)

text \<open>An error leaves every table as it was; only drawn sequence numbers may be lost.\<close>

lemma seq_mono_ledger [seq_mono_intro]:
  "seq_mono (BalanceRepo_GetBalanceKobo a ver)" "seq_mono (IdempotencyRepo_GetByKey key)"
  "seq_mono (ApplyDelta a delta ver)" "seq_mono (IdempotencyRepo_Save key eid)"
  "seq_mono (saveEntrySnapshot e)" "seq_mono (toAppend_event e p)" "seq_mono (NewEntry a t m n o')"
  by (auto simp: BalanceRepo_GetBalanceKobo_def IdempotencyRepo_GetByKey_def ApplyDelta_def
      IdempotencyRepo_Save_def saveEntrySnapshot_def toAppend_event_def NewEntry_def upsert_balance_Inr
      intro!: seq_mono_intro split: prod.splits option.splits if_splits)

lemma seq_mono_PostEntry [seq_mono_intro]:
  "seq_mono (PostEntry_tx cmd)" "seq_mono (PostEntryHandler_Handle cmd)"
  by (auto simp: PostEntryHandler_Handle_def PostEntry_tx_def PostEntry_read_def PostEntry_write_def
      PostEntry_store_def Let_def intro!: seq_mono_intro split: option.splits sum.splits prod.splits)

lemma Handle_error_db:
  "PostEntryHandler_Handle cmd w = (Inl e, w') \<Longrightarrow>
     \<exists>n. seq_le (event_seq (db w)) n \<and> db w' = (db w)\<lparr>event_seq := n\<rparr>"
  using withTx_rollback_error [OF seq_mono_PostEntry(1)]
  by (auto simp: PostEntryHandler_Handle_def throwE_def intro: exI [of _ "event_seq (db w)"]
      split: if_splits option.splits)

section \<open>The invariant\<close>

lemma posting_delta_sint:
  "0 < sint amt \<Longrightarrow> sint (posting_delta typ amt) = (if typ = EntryTypeWithdrawal then - sint amt else sint amt)"
  by (simp add: posting_delta_def sint_minus64)

text \<open>What one stored event contributes to an account, and what a log adds up to.\<close>

definition log_delta :: "id \<Rightarrow> Event \<Rightarrow> int" where
  "log_delta a e =
     (case EntryPosted_Unmarshal (ev_Data e) of
        Inl _ \<Rightarrow> 0
      | Inr v \<Rightarrow> if ep_AccountID v = a then sint (event_delta v) else 0)"

definition log_balance :: "(int \<times> Event) list \<Rightarrow> id \<Rightarrow> int" where
  "log_balance rows a = sum_list (map (log_delta a \<circ> snd) rows)"

text \<open>The events a ledger log holds.\<close>

definition entry_event :: "Event \<Rightarrow> bool" where
  "entry_event e \<longleftrightarrow> ev_AggregateType e = ''ledger_entry'' \<and> ev_Type e = EntryPosted_EventType \<and>
     ev_Version e = 1 \<and>
     (case EntryPosted_Unmarshal (ev_Data e) of
        Inl _ \<Rightarrow> False
      | Inr v \<Rightarrow> ep_EntryID v = ev_AggregateID e \<and> 0 < sint (ep_AmountKobo v) \<and>
          ep_EntryType v \<in> {EntryTypeDeposit, EntryTypeWithdrawal} \<and> ep_Currency v = NGN)"

text \<open>
  The invariant: the store is well formed and holds entry events only; every balance under
  projection version 1 is the sum of the logged postings of its account; these sums were at no
  time negative or out of range; an idempotency key names a logged entry, and no two keys the same one.
\<close>

definition ledger_inv :: "ledger_db \<Rightarrow> bool" where
  "ledger_inv d \<longleftrightarrow>
     events_wf d \<and> (\<forall>(s, e) \<in> set (event_store_events d). entry_event e) \<and>
     (\<forall>a. balance d 1 a = log_balance (event_store_events d) a) \<and>
     (\<forall>n a. 0 \<le> log_balance (take n (event_store_events d)) a \<and>
        in_int64 (log_balance (take n (event_store_events d)) a)) \<and>
     (\<forall>k eid. ledger_idempotency d k = Some eid \<longrightarrow> eid \<in> (ev_AggregateID \<circ> snd) ` set (event_store_events d)) \<and>
     (\<forall>k k' eid. ledger_idempotency d k = Some eid \<longrightarrow> ledger_idempotency d k' = Some eid \<longrightarrow> k = k')"

lemma ledger_invD:
  assumes "ledger_inv d"
  shows "events_wf d" and "balance d 1 a = log_balance (event_store_events d) a" and "0 \<le> balance d 1 a"
    and "(s, e) \<in> set (event_store_events d) \<Longrightarrow> entry_event e"
    and "in_int64 (log_balance (take n (event_store_events d)) a)"
proof -
  show "balance d 1 a = log_balance (event_store_events d) a"
    using assms unfolding ledger_inv_def by blast
  moreover have "0 \<le> log_balance (take (length (event_store_events d)) (event_store_events d)) a"
    using assms unfolding ledger_inv_def by blast
  ultimately show "0 \<le> balance d 1 a" by simp
qed (use assms in \<open>unfold ledger_inv_def, blast+\<close>)

lemma ledger_inv_keys:
  assumes "ledger_inv d" and "ledger_idempotency d k = Some eid"
  shows "eid \<in> (ev_AggregateID \<circ> snd) ` set (event_store_events d)"
    and "ledger_idempotency d k' = Some eid \<Longrightarrow> k' = k"
  using assms unfolding ledger_inv_def by blast+

lemma ledger_inv_prefix:
  "ledger_inv d \<Longrightarrow> 0 \<le> log_balance (take n (event_store_events d)) a"
  unfolding ledger_inv_def by blast

lemma log_balance_snoc: "log_balance (rows @ [(s, e)]) a = log_balance rows a + log_delta a e"
  by (simp add: log_balance_def)

lemma log_delta_posted [simp]:
  "log_delta a (stored (posted_event v evid)) = (if ep_AccountID v = a then sint (event_delta v) else 0)"
  by (simp add: log_delta_def posted_event_def stored_def)

lemma balance_post_db:
  assumes "in_int64 (balance d 1 (ep_AccountID v) + sint (event_delta v))"
  shows "balance (post_db key v evid mid now d) 1 a =
     (if a = ep_AccountID v then balance d 1 a + sint (event_delta v) else balance d 1 a)"
  using assms by (auto simp: post_db_def balance_def balance_row_def sint_add64)

lemma post_db_fields [simp]:
  "event_store_events (post_db key v evid mid now d) =
     event_store_events d @ [(event_seq d + 1, stored (posted_event v evid))]"
  "event_seq (post_db key v evid mid now d) = event_seq d + 1"
  "ledger_idempotency (post_db key v evid mid now d) = (ledger_idempotency d)(key \<mapsto> ep_EntryID v)"
  "outbox_messages (post_db key v evid mid now d) = outbox_messages d @ [posted_row v mid now]"
  "columns (post_db key v evid mid now d) = columns d"
  by (simp_all add: post_db_def)

lemma events_wf_cong:
  "event_store_events d' = event_store_events d \<Longrightarrow> event_seq d' = event_seq d \<Longrightarrow> events_wf d' = events_wf d"
  by (simp add: events_wf_def)

lemma post_db_wf: "events_wf d \<Longrightarrow> post_ok key v evid mid d \<Longrightarrow> events_wf (post_db key v evid mid now d)"
proof -
  assume "events_wf d" "post_ok key v evid mid d"
  moreover have "can_append (posted_event v evid) d"
    using \<open>post_ok key v evid mid d\<close> by (auto simp: post_ok_def can_append_def posted_event_def)
  ultimately have "events_wf (append_db (posted_event v evid) d)"
    using insert_event_wf by (metis insert_event_iff)
  then show ?thesis by (rule iffD2 [OF events_wf_cong, rotated 2]) (simp_all add: append_db_def)
qed

lemma ledger_inv_event_seq:
  "ledger_inv d \<Longrightarrow> seq_le (event_seq d) n \<Longrightarrow> ledger_inv (d\<lparr>event_seq := n\<rparr>)"
  unfolding ledger_inv_def using events_wf_seq [of d n] by auto

lemma ledger_inv_post:
  assumes inv: "ledger_inv d" and ok: "post_ok key v evid mid d"
    and v: "0 < sint (ep_AmountKobo v)" "ep_EntryType v \<in> {EntryTypeDeposit, EntryTypeWithdrawal}"
      "ep_Currency v = NGN"
    and funds: "0 \<le> balance d 1 (ep_AccountID v) + sint (event_delta v)"
  shows "ledger_inv (post_db key v evid mid now d)"
proof -
  have r: "in_int64 (balance d 1 (ep_AccountID v) + sint (event_delta v))"
    using ok by (simp add: post_ok_def)
  have e: "entry_event (stored (posted_event v evid))"
    using v by (simp add: entry_event_def posted_event_def stored_def)
  have fresh: "ep_EntryID v \<notin> (ev_AggregateID \<circ> snd) ` set (event_store_events d)"
    using inv ok by (force simp: ledger_inv_def post_ok_def entry_event_def)
  have agg: "ev_AggregateID (stored (posted_event v evid)) = ep_EntryID v"
    by (simp add: posted_event_def)
  let ?d' = "post_db key v evid mid now d"
  have bal: "balance ?d' 1 a = log_balance (event_store_events ?d') a" for a
    using ledger_invD(2) [OF inv, of a] by (auto simp: balance_post_db [OF r] log_balance_snoc)
  moreover have "0 \<le> balance ?d' 1 a" "in_int64 (balance ?d' 1 a)" for a
    using ledger_invD(3) [OF inv] funds by (simp_all add: balance_post_db [OF r])
      (simp_all add: balance_def r [unfolded balance_def])
  ultimately have pre: "0 \<le> log_balance (take n (event_store_events ?d')) a"
    "in_int64 (log_balance (take n (event_store_events ?d')) a)" for n a
    using ledger_inv_prefix [OF inv, of n a] ledger_invD(5) [OF inv, of n a]
    by (cases "n \<le> length (event_store_events d)"; simp)+
  have keys: "eid \<in> (ev_AggregateID \<circ> snd) ` set (event_store_events ?d')"
    if "ledger_idempotency ?d' k = Some eid" for k eid
    using that ledger_inv_keys(1) [OF inv, of k eid] agg by (cases "k = key") simp_all
  have inj: "k = k'" if "ledger_idempotency ?d' k = Some eid" "ledger_idempotency ?d' k' = Some eid" for k k' eid
    using that ledger_inv_keys(1) [OF inv, of k eid] ledger_inv_keys(1) [OF inv, of k' eid]
      ledger_inv_keys(2) [OF inv, of k eid k'] fresh
    by (cases "k = key"; cases "k' = key") (simp_all, blast?)
  show ?thesis unfolding ledger_inv_def
  proof (intro conjI allI impI)
    show "events_wf ?d'" by (rule post_db_wf [OF ledger_invD(1) [OF inv] ok])
    show "\<forall>(s, e) \<in> set (event_store_events ?d'). entry_event e"
      using e ledger_invD(4) [OF inv] by auto
  qed (fact bal pre keys inj)+
qed

section \<open>The contract of a posting service\<close>

text \<open>\<open>n\<close> attempts of one command, as a client retries it: results in order, last state.\<close>

primrec attempts :: "('s \<Rightarrow> 'r \<times> 's) \<Rightarrow> nat \<Rightarrow> 's \<Rightarrow> 'r list \<times> 's" where
  "attempts f 0 s = ([], s)"
| "attempts f (Suc n) s = (let (r, s1) = f s; (rs, s2) = attempts f n s1 in (r # rs, s2))"

text \<open>
  What a client of the ledger relies on: an error leaves balances and keys alone, a known
  key returns the entry it names and changes nothing, a new key adds its amount to its
  account once. \<open>valid\<close> is the provider's invariant.
\<close>

locale posting_service =
  fixes post :: "'c \<Rightarrow> 's \<Rightarrow> (go_error + id) \<times> 's"
    and key :: "'c \<Rightarrow> string" and acct :: "'c \<Rightarrow> id" and amt :: "'c \<Rightarrow> int"
    and bal :: "'s \<Rightarrow> id \<Rightarrow> int" and keys :: "'s \<Rightarrow> string \<Rightarrow> id option"
    and valid :: "'s \<Rightarrow> bool"
  assumes post_valid: "valid s \<Longrightarrow> post c s = (r, s') \<Longrightarrow> valid s'"
    and post_error: "post c s = (Inl e, s') \<Longrightarrow> bal s' = bal s \<and> keys s' = keys s"
    and post_known: "post c s = (Inr i, s') \<Longrightarrow> keys s (key c) = Some j \<Longrightarrow>
      i = j \<and> bal s' = bal s \<and> keys s' = keys s"
    and post_new: "valid s \<Longrightarrow> post c s = (Inr i, s') \<Longrightarrow> keys s (key c) = None \<Longrightarrow>
      bal s' = (bal s)(acct c := bal s (acct c) + amt c) \<and> keys s' = (keys s)(key c \<mapsto> i)"
    and valid_nonneg: "valid s \<Longrightarrow> 0 \<le> bal s a"
begin

lemma attempts_known:
  "keys s (key c) = Some j \<Longrightarrow> attempts (post c) n s = (rs, s') \<Longrightarrow>
     bal s' = bal s \<and> keys s' = keys s \<and> (\<forall>i. Inr i \<in> set rs \<longrightarrow> i = j)"
proof (induction n arbitrary: s rs)
  case (Suc n)
  obtain r s1 rs1 where r: "post c s = (r, s1)" and rs: "attempts (post c) n s1 = (rs1, s')" "rs = r # rs1"
    using Suc.prems(2) by (auto simp: Let_def split: prod.splits)
  have "bal s1 = bal s \<and> keys s1 = keys s \<and> (\<forall>i. r = Inr i \<longrightarrow> i = j)"
    using r post_error post_known Suc.prems(1) by (cases r) blast+
  then show ?case using Suc.IH [OF _ rs(1)] Suc.prems(1) rs(2) by auto
qed simp

text \<open>Retrying is safe: however many attempts are made and whichever fail, the amount is
  added exactly once if one of them succeeded, and not at all otherwise.\<close>

lemma attempts_exactly_once:
  "valid s \<Longrightarrow> keys s (key c) = None \<Longrightarrow> attempts (post c) n s = (rs, s') \<Longrightarrow>
     bal s' = (if \<exists>i. Inr i \<in> set rs then (bal s)(acct c := bal s (acct c) + amt c) else bal s) \<and>
     (\<forall>i j. Inr i \<in> set rs \<longrightarrow> Inr j \<in> set rs \<longrightarrow> i = j)"
proof (induction n arbitrary: s rs)
  case (Suc n)
  obtain r s1 rs1 where r: "post c s = (r, s1)" and rs: "attempts (post c) n s1 = (rs1, s')" "rs = r # rs1"
    using Suc.prems(3) by (auto simp: Let_def split: prod.splits)
  show ?case
  proof (cases r)
    case (Inl e)
    then have "bal s1 = bal s" "keys s1 = keys s" "valid s1"
      using post_error r post_valid Suc.prems(1) by blast+
    then show ?thesis using Suc.IH [of s1 rs1] rs Suc.prems(2) Inl by auto
  next
    case (Inr i)
    then have s1: "bal s1 = (bal s)(acct c := bal s (acct c) + amt c)" "keys s1 = (keys s)(key c \<mapsto> i)"
      using post_new r Suc.prems(1,2) by blast+
    then have "bal s' = bal s1 \<and> (\<forall>j. Inr j \<in> set rs1 \<longrightarrow> j = i)"
      using attempts_known [of s1 c i n rs1 s'] rs(1) by simp
    then show ?thesis using s1 rs(2) Inr by auto
  qed
qed simp

end

section \<open>The handler provides it\<close>

definition signed_amount :: "PostEntry \<Rightarrow> int" where
  "signed_amount cmd =
     (if pe_Type cmd = EntryTypeWithdrawal then - sint (amountKobo (pe_Amount cmd))
      else sint (amountKobo (pe_Amount cmd)))"

lemma valid_cmd_amount: "valid_cmd cmd \<Longrightarrow> 0 < sint (amountKobo (pe_Amount cmd))"
  by (simp add: valid_cmd_def validateMoney_None)

lemma delta_signed:
  "valid_cmd cmd \<Longrightarrow> sint (posting_delta (pe_Type cmd) (amountKobo (pe_Amount cmd))) = signed_amount cmd"
  by (simp add: posting_delta_sint valid_cmd_amount signed_amount_def)

lemma withdrawal_funds_iff:
  assumes "valid_cmd cmd" and "0 \<le> balance d 1 (pe_AccountID cmd)"
  shows "funds_ok cmd d \<longleftrightarrow> 0 \<le> balance d 1 (pe_AccountID cmd) + signed_amount cmd"
proof (cases "pe_Type cmd = EntryTypeWithdrawal")
  case True
  let ?b = "balance_row d 1 (pe_AccountID cmd)" and ?a = "amountKobo (pe_Amount cmd)"
  have pos: "0 < sint ?a" by (rule valid_cmd_amount [OF assms(1)])
  have "in_int64 (sint ?b + sint (- ?a))"
    using assms(2) pos sint64_bounds [of ?b] sint64_bounds [of ?a]
    by (simp add: in_int64_def balance_def sint_minus64)
  then have "sint (?b + - ?a) = sint ?b - sint ?a"
    using pos by (simp only: sint_add64 sint_minus64)
  then show ?thesis using True by (simp add: funds_ok_def signed_amount_def balance_def)
qed (use assms valid_cmd_amount [OF assms(1)] in \<open>simp add: signed_amount_def funds_ok_def\<close>)

lemma Handle_new_effect:
  assumes "PostEntryHandler_Handle cmd w = (Inr eid, w')"
    and "ledger_idempotency (db w) (pe_IdempotencyKey cmd) = None"
  shows "balance (db w') 1 = (balance (db w) 1)
      (pe_AccountID cmd := balance (db w) 1 (pe_AccountID cmd) + signed_amount cmd)"
    and "ledger_idempotency (db w') = (ledger_idempotency (db w))(pe_IdempotencyKey cmd \<mapsto> eid)"
  using assms
  by (auto simp: Handle_new_iff balance_post_db post_ok_def delta_signed fun_eq_iff)

lemma ledger_inv_Handle:
  assumes "ledger_inv (db w)" and "PostEntryHandler_Handle cmd w = (r, w')"
  shows "ledger_inv (db w')"
proof (cases r)
  case (Inl e)
  then show ?thesis using Handle_error_db assms ledger_inv_event_seq by metis
next
  case (Inr eid)
  show ?thesis
  proof (cases "ledger_idempotency (db w) (pe_IdempotencyKey cmd)")
    case None
    have s: "valid_cmd cmd" "funds_ok cmd (db w)"
      "post_ok (pe_IdempotencyKey cmd) (new_event cmd w) (uuid w (store_tick cmd w))
         (uuid w (store_tick cmd w + 4)) (db w)"
      using assms(2) Inr None by (simp_all add: Handle_new_iff)
    have "ledger_inv (post_db (pe_IdempotencyKey cmd) (new_event cmd w) (uuid w (store_tick cmd w))
         (uuid w (store_tick cmd w + 4)) (clock w (tick w)) (db w))"
      by (rule ledger_inv_post [OF assms(1) s(3)])
         (use s withdrawal_funds_iff [OF s(1)] assms(1) in
           \<open>auto simp: valid_cmd_def validateMoney_None delta_signed [OF s(1)] ledger_invD(3)
             new_event_def NewEntry_event_def event_delta_def\<close>)
    then show ?thesis using assms(2) Inr None by (simp add: Handle_new_iff)
  next
    case (Some j)
    then show ?thesis using assms Inr by (simp add: Handle_replay_iff)
  qed
qed

interpretation ledger: posting_service
  "PostEntryHandler_Handle" pe_IdempotencyKey pe_AccountID signed_amount
  "\<lambda>w. balance (db w) 1" "\<lambda>w. ledger_idempotency (db w)" "\<lambda>w. ledger_inv (db w)"
proof
  fix s s' :: "(ledger_db, 'p) world" and c r e i j a
  show "ledger_inv (db s) \<Longrightarrow> PostEntryHandler_Handle c s = (r, s') \<Longrightarrow> ledger_inv (db s')"
    by (rule ledger_inv_Handle)
  show "PostEntryHandler_Handle c s = (Inl e, s') \<Longrightarrow>
      balance (db s') 1 = balance (db s) 1 \<and> ledger_idempotency (db s') = ledger_idempotency (db s)"
    by (drule Handle_error_db) (auto simp: fun_eq_iff)
  show "PostEntryHandler_Handle c s = (Inr i, s') \<Longrightarrow>
      ledger_idempotency (db s) (pe_IdempotencyKey c) = Some j \<Longrightarrow>
      i = j \<and> balance (db s') 1 = balance (db s) 1 \<and> ledger_idempotency (db s') = ledger_idempotency (db s)"
    by (simp add: Handle_replay_iff)
  show "PostEntryHandler_Handle c s = (Inr i, s') \<Longrightarrow>
      ledger_idempotency (db s) (pe_IdempotencyKey c) = None \<Longrightarrow>
      balance (db s') 1 = (balance (db s) 1)(pe_AccountID c := balance (db s) 1 (pe_AccountID c) + signed_amount c)
      \<and> ledger_idempotency (db s') = (ledger_idempotency (db s))(pe_IdempotencyKey c \<mapsto> i)"
    using Handle_new_effect by blast
  show "ledger_inv (db s) \<Longrightarrow> 0 \<le> balance (db s) 1 a"
    by (rule ledger_invD)
qed

end
