(* ===== verification/LedgerProps.thy ===== *)
theory LedgerProps
  imports Ledger
begin

text \<open>
  The properties of the ledger's command side: the handler implements an abstract ledger of
  balances and keys, posts atomically and exactly once under retries, never overdraws when
  postings are serial, and what happens on the schema of the migrations.
\<close>

section \<open>An abstract ledger\<close>

record abs_ledger =
  abs_balance :: "id \<Rightarrow> int"
  abs_keys :: "string \<Rightarrow> id option"

text \<open>The promise: a known key answers with its entry; a withdrawal needs the funds.\<close>

definition spec_post :: "PostEntry \<Rightarrow> id \<Rightarrow> abs_ledger \<Rightarrow> go_error + id \<times> abs_ledger" where
  "spec_post cmd new s =
     (case abs_keys s (pe_IdempotencyKey cmd) of
        Some entryID \<Rightarrow> Inr (entryID, s)
      | None \<Rightarrow>
          if abs_balance s (pe_AccountID cmd) + signed_amount cmd < 0 then Inl ErrInsufficientFunds
          else Inr (new,
            \<lparr>abs_balance = (abs_balance s)
               (pe_AccountID cmd := abs_balance s (pe_AccountID cmd) + signed_amount cmd),
             abs_keys = (abs_keys s)(pe_IdempotencyKey cmd \<mapsto> new)\<rparr>))"

definition ledger_abs :: "ledger_db \<Rightarrow> abs_ledger" where
  "ledger_abs d = \<lparr>abs_balance = balance d 1, abs_keys = ledger_idempotency d\<rparr>"

text \<open>A run of commands one after the other, whatever each returns.\<close>

definition run_posts :: "PostEntry list \<Rightarrow> (ledger_db, 'p) world \<Rightarrow> (ledger_db, 'p) world" where
  "run_posts cmds w = fold (\<lambda>cmd w. snd (PostEntryHandler_Handle cmd w)) cmds w"

lemma ledger_inv_run_posts: "ledger_inv (db w) \<Longrightarrow> ledger_inv (db (run_posts cmds w))"
  unfolding run_posts_def
proof (induction cmds arbitrary: w)
  case (Cons cmd cmds)
  have "ledger_inv (db (snd (PostEntryHandler_Handle cmd w)))"
    using ledger_inv_Handle [OF Cons.prems, of cmd] by (metis prod.collapse)
  then show ?case using Cons.IH by simp
qed simp

text \<open>An empty ledger whose schema has the column \<open>ApplyDelta\<close> names.\<close>

definition ledger_empty :: ledger_db where
  "ledger_empty = ledger_migrated\<lparr>columns := [updated_at_column]\<rparr>"

lemma ledger_inv_empty [simp]: "ledger_inv ledger_empty"
  by (simp add: ledger_empty_def ledger_inv_def ledger_migrated_def events_wf_def balance_def
      balance_row_def log_balance_def in_int64_def)

lemma ledger_empty_simps [simp]:
  "ledger_idempotency ledger_empty k = None" "event_store_events ledger_empty = []"
  "outbox_messages ledger_empty = []" "balance ledger_empty ver a = 0"
  "columns ledger_empty = [updated_at_column]" "balance_row ledger_empty ver a = 0"
  "ledger_account_balances ledger_empty p = None" "event_seq ledger_empty = 0"
  by (simp_all add: ledger_empty_def ledger_migrated_def balance_def balance_row_def)

section \<open>A sample ledger\<close>

definition sample_ledger :: "(ledger_db, unit) world" where
  "sample_ledger =
     \<lparr>db = ledger_empty, peer = (), clock = (\<lambda>n. 1000 * int n + 5000),
      uuid = (\<lambda>n. replicate (Suc n) (CHR ''u'')), fault = (\<lambda>n. None), tick = 0, txtime = None\<rparr>"

definition sample_post :: PostEntry where
  "sample_post = \<lparr>pe_IdempotencyKey = ''k1'', pe_AccountID = ''acc-1'', pe_Type = EntryTypeDeposit,
     pe_Amount = \<lparr>amountKobo = 100, currency = NGN\<rparr>, pe_Narration = '''', pe_OccurredAtUTC = 0\<rparr>"

lemma sample_ledger_simps [simp]:
  "db sample_ledger = ledger_empty"
  "healthy sample_ledger" "fault sample_ledger n = None" "tick sample_ledger = 0"
  "uuid sample_ledger n = replicate (Suc n) (CHR ''u'')" "clock sample_ledger n = 1000 * int n + 5000"
  by (simp_all add: sample_ledger_def healthy_def)

lemma sint_100 [simp]: "sint (100 :: int64) = 100"
  using sint_of_int64 [of 100] by (simp add: in_int64_def)

lemma sample_post_simps [simp]:
  "valid_cmd sample_post" "signed_amount sample_post = 100" "pe_AccountID sample_post = ''acc-1''"
  "pe_IdempotencyKey sample_post = ''k1''" "pe_Type sample_post = EntryTypeDeposit"
  "amountKobo (pe_Amount sample_post) = 100" "pe_OccurredAtUTC sample_post = 0"
  by (simp_all add: valid_cmd_def sample_post_def validateMoney_None signed_amount_def)

section \<open>Properties\<close>

text \<open>
  C1. The handler refines the abstract ledger: from a state that satisfies the ledger
  invariant, a posting that returns an entry identifier is a step of the abstract ledger to
  the state it leaves, and a posting that returns an error, for whatever reason and after
  whatever statement failed, leaves the abstract ledger unchanged.
\<close>

theorem PostEntry_refines:
  assumes "ledger_inv (db w)" and "PostEntryHandler_Handle cmd w = (r, w')"
  shows "case r of
      Inr eid \<Rightarrow> spec_post cmd eid (ledger_abs (db w)) = Inr (eid, ledger_abs (db w'))
    | Inl e \<Rightarrow> ledger_abs (db w') = ledger_abs (db w)"
proof (cases r)
  case (Inl e)
  then show ?thesis using ledger.post_error [of cmd w e w'] assms(2) by (simp add: ledger_abs_def)
next
  case (Inr eid)
  show ?thesis
  proof (cases "ledger_idempotency (db w) (pe_IdempotencyKey cmd)")
    case None
    then have "0 \<le> balance (db w') 1 (pe_AccountID cmd)"
      using ledger.valid_nonneg ledger_inv_Handle [OF assms] by blast
    then show ?thesis
      using Handle_new_effect [OF _ None] assms(2) Inr None
      by (simp add: spec_post_def ledger_abs_def)
  next
    case (Some j)
    then show ?thesis
      using ledger.post_known [of cmd w eid w' j] assms(2) Inr by (simp add: spec_post_def ledger_abs_def)
  qed
qed

lemma sample_post_succeeds:
  "PostEntryHandler_Handle sample_post sample_ledger =
    (Inr (replicate 5 (CHR ''u'')), sample_ledger\<lparr>db := post_db ''k1'' (new_event sample_post sample_ledger)
       (replicate 6 (CHR ''u'')) (replicate 10 (CHR ''u'')) 5000 (db sample_ledger), tick := 13\<rparr>)"
  by (subst Handle_new_iff)
     (simp_all add: post_faultless_def funds_ok_def post_ok_def posting_delta_def store_tick_def
       numeral_eq_Suc in_int64_def)

theorem PostEntry_refines_witness:
  "spec_post sample_post (replicate 5 (CHR ''u'')) (ledger_abs (db sample_ledger)) =
     Inr (replicate 5 (CHR ''u''), ledger_abs (db (snd (PostEntryHandler_Handle sample_post sample_ledger))))"
  using PostEntry_refines [of sample_ledger sample_post, OF _ sample_post_succeeds]
  by (simp add: sample_post_succeeds)

text \<open>
  C7. A posting with a new key succeeds, and does exactly its work, whenever nothing stands in
  its way: the database answers, the schema has the column \<open>updated_at\<close>, the identifiers
  handed out are not in use, the sequence is not exhausted, the amount fits the balance from above and, for a withdrawal,
  from below. Then the balance of the account moves by the signed amount, one event that
  decodes to the posting is appended under the next sequence number, the key maps to the
  entry, one unpublished outbox row is added, and nothing else changes.
\<close>

theorem PostEntry_succeeds:
  assumes "healthy w" and "valid_cmd cmd" and "ledger_inv (db w)"
    and "ledger_idempotency (db w) (pe_IdempotencyKey cmd) = None"
    and "updated_at_column \<in> set (columns (db w))"
    and "\<And>n. tick w \<le> n \<Longrightarrow> uuid w n \<notin> (ev_ID \<circ> snd) ` set (event_store_events (db w)) \<and>
           uuid w n \<notin> (ev_AggregateID \<circ> snd) ` set (event_store_events (db w)) \<and>
           uuid w n \<notin> msg_ID ` set (outbox_messages (db w))"
    and "0 \<le> balance (db w) 1 (pe_AccountID cmd) + signed_amount cmd"
    and "in_int64 (balance (db w) 1 (pe_AccountID cmd) + signed_amount cmd)"
    and "event_seq (db w) + 1 < 2 ^ 63"
  shows "\<exists>w' v evid mid.
     PostEntryHandler_Handle cmd w = (Inr (ep_EntryID v), w') \<and>
     ep_AccountID v = pe_AccountID cmd \<and> ep_EntryType v = pe_Type cmd \<and>
     ep_AmountKobo v = amountKobo (pe_Amount cmd) \<and>
     EntryPosted_Unmarshal (ev_Data (posted_event v evid)) = Inr v \<and>
     balance (db w') 1 (pe_AccountID cmd) = balance (db w) 1 (pe_AccountID cmd) + signed_amount cmd \<and>
     db w' = (db w)
       \<lparr>event_store_events := event_store_events (db w) @
          [(event_seq (db w) + 1, stored (posted_event v evid))],
        event_seq := event_seq (db w) + 1,
        ledger_account_balances := (ledger_account_balances (db w))((pe_AccountID cmd, 1) \<mapsto>
          balance_row (db w) 1 (pe_AccountID cmd) + event_delta v),
        ledger_idempotency := (ledger_idempotency (db w))(pe_IdempotencyKey cmd \<mapsto> ep_EntryID v),
        outbox_messages := outbox_messages (db w) @ [posted_row v mid (clock w (tick w))]\<rparr>"
proof -
  let ?v = "new_event cmd w" and ?t = "store_tick cmd w"
  have t: "tick w \<le> ?t" "tick w \<le> ?t - 1" "tick w \<le> ?t + 4" by (simp_all add: store_tick_def)
  have "ev_AggregateID f \<noteq> ep_EntryID ?v" if "(s, f) \<in> set (event_store_events (db w))" for s f
    using assms(6) [OF t(2)] that by force
  then have ok: "post_ok (pe_IdempotencyKey cmd) ?v (uuid w ?t) (uuid w (?t + 4)) (db w)"
    using assms(4,5,8,9) assms(6) [OF t(1)] assms(6) [OF t(3)] delta_signed [OF assms(2)]
    unfolding post_ok_def by auto
  have "funds_ok cmd (db w)"
    using withdrawal_funds_iff [OF assms(2) ledger_invD(3) [OF assms(3)]] assms(7) by simp
  moreover have "post_faultless cmd w" using assms(1) by (simp add: post_faultless_def)
  ultimately obtain w' where "PostEntryHandler_Handle cmd w = (Inr (ep_EntryID ?v), w')"
    using ok assms(2,4) by (simp add: Handle_new_iff)
  moreover from this have "db w' = post_db (pe_IdempotencyKey cmd) ?v (uuid w ?t) (uuid w (?t + 4))
      (clock w (tick w)) (db w)"
    using assms(4) by (simp add: Handle_new_iff)
  moreover have "EntryPosted_Unmarshal (ev_Data (posted_event ?v (uuid w ?t))) = Inr ?v"
    by (simp add: posted_event_def)
  ultimately show ?thesis
    using Handle_new_effect(1) [OF _ assms(4)]
    by (intro exI [of _ w'] exI [of _ ?v] exI [of _ "uuid w ?t"] exI [of _ "uuid w (?t + 4)"])
       (simp add: post_db_def)
qed

theorem PostEntry_succeeds_witness:
  "\<exists>w' v evid mid. PostEntryHandler_Handle sample_post sample_ledger = (Inr (ep_EntryID v), w') \<and>
     balance (db w') 1 ''acc-1'' = 100 \<and>
     outbox_messages (db w') = [posted_row v mid 5000] \<and>
     event_store_events (db w') = [(1, stored (posted_event v evid))]"
proof -
  have "in_int64 100" by (simp add: in_int64_def)
  then obtain w' v evid mid where
    "PostEntryHandler_Handle sample_post sample_ledger = (Inr (ep_EntryID v), w')"
    "balance (db w') 1 ''acc-1'' = 100" "outbox_messages (db w') = [posted_row v mid 5000]"
    "event_store_events (db w') = [(1, stored (posted_event v evid))]"
    using PostEntry_succeeds [of sample_ledger sample_post] by auto
  then show ?thesis by blast
qed

text \<open>
  A posting is all or nothing: when the handler returns an error, be it a refused input,
  missing funds, a violated key, an overflow, a failed statement or a failed commit, every
  table of the ledger is as before; only unused sequence numbers may be gone.
\<close>

theorem PostEntry_atomic:
  assumes "PostEntryHandler_Handle cmd w = (Inl e, w')"
  shows "db w' = (db w)\<lparr>event_seq := event_seq (db w')\<rparr>"
  using Handle_error_db [OF assms] by auto

theorem PostEntry_atomic_witness:
  "db (snd (PostEntryHandler_Handle (sample_post\<lparr>pe_Type := EntryTypeWithdrawal\<rparr>) sample_ledger)) = ledger_empty
   \<and> fst (PostEntryHandler_Handle (sample_post\<lparr>pe_Type := EntryTypeWithdrawal\<rparr>) sample_ledger) = Inl ErrInsufficientFunds"
proof -
  let ?c = "sample_post\<lparr>pe_Type := EntryTypeWithdrawal\<rparr>"
  have "sint (- 100 :: int64) = - 100" using sint_minus64 [of 100] by simp
  then have "\<exists>w'. PostEntryHandler_Handle ?c sample_ledger = (Inl ErrInsufficientFunds, w') \<and>
      event_seq (db w') = event_seq ledger_empty"
    by (simp add: PostEntryHandler_Handle_def validateMoney_def IsNegativeOrZero_def sample_post_def
        withTx_def PostEntry_tx_def PostEntry_read_def PostEntry_write_def bindE_def sql_def sql_now_def
        IdempotencyRepo_GetByKey_def BalanceRepo_GetBalanceKobo_def posting_delta_def returnE_def
        throwE_def Let_def rollback_def balance_row_def ledger_empty_def ledger_migrated_def
        del: ledger_empty_simps)
  then obtain w' where w': "PostEntryHandler_Handle ?c sample_ledger = (Inl ErrInsufficientFunds, w')"
    and "event_seq (db w') = event_seq ledger_empty" by blast
  then show ?thesis using PostEntry_atomic [OF w'] by simp
qed

text \<open>
  C2. Retrying a posting is safe. Whatever the database does between and during the attempts,
  if any attempt under a new idempotency key reported success then the balance has moved by
  the amount exactly once, if none did it has not moved, and all successful attempts
  reported the same entry.
\<close>

theorem PostEntry_exactly_once:
  assumes "ledger_inv (db w)" and "ledger_idempotency (db w) (pe_IdempotencyKey cmd) = None"
    and "attempts (PostEntryHandler_Handle cmd) n w = (rs, w')"
  shows "balance (db w') 1 =
      (if \<exists>i. Inr i \<in> set rs
       then (balance (db w) 1)(pe_AccountID cmd := balance (db w) 1 (pe_AccountID cmd) + signed_amount cmd)
       else balance (db w) 1) \<and>
     (\<forall>i j. Inr i \<in> set rs \<longrightarrow> Inr j \<in> set rs \<longrightarrow> i = j)"
  using ledger.attempts_exactly_once [OF assms] .

theorem PostEntry_exactly_once_witness:
  "balance (db (snd (attempts (PostEntryHandler_Handle sample_post) 3 sample_ledger))) 1 ''acc-1'' = 100"
proof -
  obtain rs w' where a: "attempts (PostEntryHandler_Handle sample_post) 3 sample_ledger = (rs, w')"
    by (cases "attempts (PostEntryHandler_Handle sample_post) 3 sample_ledger")
  then have "Inr (replicate 5 (CHR ''u'')) \<in> set rs"
    by (auto simp: numeral_3_eq_3 Let_def sample_post_succeeds split: prod.splits)
  then have "\<exists>i. Inr i \<in> set rs" by blast
  then show ?thesis using PostEntry_exactly_once [OF _ _ a] by (simp add: a)
qed

text \<open>
  C40. Serial postings never overdraw, and the balances are the log: after any list of commands,
  each with any outcome, on a ledger that started empty, the balance of every account is the sum
  of its logged postings and is not negative.
\<close>

theorem serial_postings_balance:
  assumes "db w = ledger_migrated\<lparr>columns := cs\<rparr>"
  shows "balance (db (run_posts cmds w)) 1 a =
      log_balance (event_store_events (db (run_posts cmds w))) a
    \<and> 0 \<le> balance (db (run_posts cmds w)) 1 a"
proof -
  have "ledger_inv (db w)" unfolding assms
    by (simp add: ledger_inv_def ledger_migrated_def events_wf_def balance_def balance_row_def
        log_balance_def in_int64_def)
  then show ?thesis using ledger_inv_run_posts [of w cmds] ledger_invD(2,3) by blast
qed

theorem serial_postings_balance_witness:
  "log_balance (event_store_events (db (run_posts [sample_post] sample_ledger))) ''acc-1'' = 100"
  using serial_postings_balance [of sample_ledger "[updated_at_column]" "[sample_post]" "''acc-1''"]
  by (simp add: ledger_empty_def [symmetric] run_posts_def sample_post_succeeds balance_post_db
      posting_delta_def in_int64_def)

text \<open>
  A withdrawal of more than the balance is refused with \<open>ErrInsufficientFunds\<close> and changes
  nothing, for every amount up to the largest 64-bit value: the subtraction in the check cannot
  wrap, because the balance is not negative.
\<close>

theorem withdrawal_refused:
  assumes "healthy w" and "valid_cmd cmd" and "ledger_inv (db w)"
    and "ledger_idempotency (db w) (pe_IdempotencyKey cmd) = None"
    and "pe_Type cmd = EntryTypeWithdrawal"
    and "balance (db w) 1 (pe_AccountID cmd) < sint (amountKobo (pe_Amount cmd))"
  shows "fst (PostEntryHandler_Handle cmd w) = Inl ErrInsufficientFunds
    \<and> db (snd (PostEntryHandler_Handle cmd w)) = db w"
proof -
  let ?b = "balance_row (db w) 1 (pe_AccountID cmd)" and ?a = "amountKobo (pe_Amount cmd)"
  have "\<not> funds_ok cmd (db w)"
    using withdrawal_funds_iff [OF assms(2) ledger_invD(3) [OF assms(3)]] assms(5,6)
    by (simp add: signed_amount_def)
  then have neg: "sint (?b + posting_delta (pe_Type cmd) ?a) < 0"
    using assms(5) by (simp add: funds_ok_def posting_delta_def)
  let ?w3 = "w\<lparr>tick := tick w + 3, txtime := Some (clock w (tick w))\<rparr>"
  have "PostEntry_tx cmd (w\<lparr>tick := Suc (tick w), txtime := Some (clock w (tick w))\<rparr>) =
      (Inl ErrInsufficientFunds, ?w3)"
    using assms(1,4,5) neg
    by (simp add: PostEntry_tx_def PostEntry_read_def PostEntry_write_def IdempotencyRepo_GetByKey_def
        BalanceRepo_GetBalanceKobo_def bindE_def sql_def sql_now_def returnE_def throwE_def Let_def
        balance_row_def numeral_3_eq_3)
  then have "withTx rollback (PostEntry_tx cmd) w = (Inl ErrInsufficientFunds, ?w3\<lparr>txtime := txtime w\<rparr>)"
    using assms(1) by (simp add: withTx_run(2) rollback_def)
  then show ?thesis
    using assms(2) by (auto simp: PostEntryHandler_Handle_def valid_cmd_def)
qed

definition sample_withdrawal :: PostEntry where
  "sample_withdrawal = sample_post\<lparr>pe_Type := EntryTypeWithdrawal, pe_IdempotencyKey := ''k2''\<rparr>"

lemma sample_withdrawal_simps [simp]:
  "valid_cmd sample_withdrawal" "signed_amount sample_withdrawal = - 100"
  "pe_AccountID sample_withdrawal = ''acc-1''" "pe_IdempotencyKey sample_withdrawal = ''k2''"
  "pe_Type sample_withdrawal = EntryTypeWithdrawal" "amountKobo (pe_Amount sample_withdrawal) = 100"
  "pe_OccurredAtUTC sample_withdrawal = 0"
  using sample_post_simps(1)
  by (simp_all add: sample_withdrawal_def valid_cmd_def signed_amount_def)

theorem withdrawal_refused_witness:
  "fst (PostEntryHandler_Handle sample_withdrawal sample_ledger) = Inl ErrInsufficientFunds"
  using withdrawal_refused [of sample_ledger sample_withdrawal] by simp

text \<open>
  C34. On the schema the ledger's own migrations create, which has no column \<open>updated_at\<close>, no
  posting under a new key ever succeeds: the statement of \<open>ApplyDelta\<close> names the column.
\<close>

theorem migrated_schema_rejects_postings:
  assumes "updated_at_column \<notin> set (columns (db w))"
    and "ledger_idempotency (db w) (pe_IdempotencyKey cmd) = None"
  shows "\<exists>e w'. PostEntryHandler_Handle cmd w = (Inl e, w') \<and> balance (db w') = balance (db w)"
proof (cases "PostEntryHandler_Handle cmd w")
  case (Pair r w')
  show ?thesis
  proof (cases r)
    case (Inl e)
    then show ?thesis using Handle_error_db Pair by (fastforce simp: fun_eq_iff)
  next
    case (Inr eid)
    then show ?thesis using Pair assms by (simp add: Handle_new_iff post_ok_def)
  qed
qed

theorem migrated_schema_rejects_postings_witness:
  "\<exists>e w'. PostEntryHandler_Handle sample_post (sample_ledger\<lparr>db := ledger_migrated\<rparr>) = (Inl e, w') \<and>
     balance (db w') = balance ledger_migrated"
  using migrated_schema_rejects_postings [of "sample_ledger\<lparr>db := ledger_migrated\<rparr>" sample_post]
  by (simp add: ledger_migrated_def)

section \<open>A funded ledger\<close>

text \<open>The ledger after the sample deposit.\<close>

definition sample_funded :: "(ledger_db, unit) world" where
  "sample_funded = snd (PostEntryHandler_Handle sample_post sample_ledger)"

lemma sample_funded_inv: "ledger_inv (db sample_funded)"
  unfolding sample_funded_def using ledger_inv_Handle [of sample_ledger sample_post]
  by (simp add: sample_post_succeeds)

lemma sample_funded_simps [simp]:
  "healthy sample_funded" "fault sample_funded n = None" "tick sample_funded = 13"
  "balance (db sample_funded) 1 ''acc-1'' = 100" "balance_row (db sample_funded) 1 ''acc-1'' = 100"
  "ledger_idempotency (db sample_funded) k = (if k = ''k1'' then Some (replicate 5 (CHR ''u'')) else None)"
  "columns (db sample_funded) = [updated_at_column]" "uuid sample_funded n = replicate (Suc n) (CHR ''u'')"
  "event_store_events (db sample_funded) =
     [(1, stored (posted_event (new_event sample_post sample_ledger) (replicate 6 (CHR ''u''))))]"
  "outbox_messages (db sample_funded) =
     [posted_row (new_event sample_post sample_ledger) (replicate 10 (CHR ''u'')) 5000]"
  by (simp_all add: sample_funded_def sample_post_succeeds healthy_def balance_def posting_delta_def
      post_db_def balance_row_def store_tick_def fun_eq_iff)

end
