(* ===== verification/LedgerProjection.thy ===== *)
theory LedgerProjection
  imports LedgerProps
begin

text \<open>
  The ledger's projection worker
  (\<open>src/services/ledger-service/application/workers/projection_worker.go\<close>): it reads the log in
  batches of 100 from the sequence number it has reached and applies each posting to the
  balances of its projection version, outside any transaction. \<open>main.go\<close> starts it with
  projection version 1 at sequence number 0.
\<close>

section \<open>The worker\<close>

record LedgerProjectionWorker =
  projectionVersion :: int
  batch :: int
  polling :: duration

definition NewLedgerProjectionWorker :: "int \<Rightarrow> LedgerProjectionWorker" where
  "NewLedgerProjectionWorker version = \<lparr>projectionVersion = version, batch = 100, polling = 1 * second\<rparr>"

definition project_event :: "LedgerProjectionWorker \<Rightarrow> Event \<Rightarrow> (ledger_db, 'p, unit) go" where
  "project_event wk e =
     (if ev_AggregateType e \<noteq> ''ledger_entry'' then returnE ()
      else if ev_Type e \<noteq> ''ledger.entry_posted.v1'' then returnE ()
      else
        bindE (liftE (EntryPosted_Unmarshal (ev_Data e))) (\<lambda>ev.
        let delta = (if ep_EntryType ev = EntryTypeWithdrawal then - ep_AmountKobo ev else ep_AmountKobo ev) in
        ApplyDelta (ep_AccountID ev) delta (projectionVersion wk)))"

definition processNextBatch ::
    "LedgerProjectionWorker \<Rightarrow> int \<Rightarrow> (ledger_db, 'p, nat \<times> int) go" where
  "processNextBatch wk lastSeq =
     bindE (Store_ReadAll lastSeq (batch wk)) (\<lambda>(events, nextSeq).
     bindE (forE (project_event wk) events) (\<lambda>_.
     returnE (length events, nextSeq)))"

text \<open>\<open>Start\<close> for \<open>n\<close> ticks of its ticker: an error is logged and the position kept.\<close>

primrec worker_Start :: "LedgerProjectionWorker \<Rightarrow> nat \<Rightarrow> int \<Rightarrow> (ledger_db, 'p, int) go" where
  "worker_Start wk 0 lastSeq = returnE lastSeq"
| "worker_Start wk (Suc n) lastSeq =
     bindE (tryE (processNextBatch wk lastSeq)) (\<lambda>r.
     case r of
       Inl err \<Rightarrow> worker_Start wk n lastSeq
     | Inr (processed, nextSeq) \<Rightarrow> worker_Start wk n (if processed > 0 then nextSeq else lastSeq))"

section \<open>What a batch does\<close>

definition with_balances :: "ledger_db \<Rightarrow> (id \<times> int \<Rightarrow> int64 option) \<Rightarrow> ledger_db" where
  "with_balances d b = d\<lparr>ledger_account_balances := b\<rparr>"

lemma with_balances_simps [simp]:
  "event_store_events (with_balances d b) = event_store_events d"
  "event_seq (with_balances d b) = event_seq d" "columns (with_balances d b) = columns d"
  "with_balances (with_balances d b) b' = with_balances d b'"
  "with_balances d (ledger_account_balances d) = d"
  by (simp_all add: with_balances_def)

lemma log_balance_Cons: "log_balance (r # rows) a = log_delta a (snd r) + log_balance rows a"
  by (simp add: log_balance_def)

lemma log_balance_append: "log_balance (xs @ ys) a = log_balance xs a + log_balance ys a"
  by (simp add: log_balance_def)

lemma log_balance_Nil [simp]: "log_balance [] a = 0"
  by (simp add: log_balance_def)

text \<open>One event, when the database does not fail and the new balance is in range.\<close>

lemma project_event_run:
  assumes "healthy w" and "updated_at_column \<in> set (columns (db w))" and "entry_event e"
    and range: "\<And>a. in_int64 (balance (db w) (projectionVersion wk) a + log_delta a e)"
  shows "\<exists>b. project_event wk e w = (Inr (), w\<lparr>tick := Suc (tick w), db := with_balances (db w) b\<rparr>) \<and>
     (\<forall>a. balance (with_balances (db w) b) (projectionVersion wk) a =
        balance (db w) (projectionVersion wk) a + log_delta a e)"
proof -
  obtain v where v: "EntryPosted_Unmarshal (ev_Data e) = Inr v"
    using assms(3) by (auto simp: entry_event_def split: sum.splits)
  let ?delta = "event_delta v"
  have ld: "log_delta a e = (if ep_AccountID v = a then sint ?delta else 0)" for a
    by (simp add: log_delta_def v)
  have "project_event wk e w = ApplyDelta (ep_AccountID v) ?delta (projectionVersion wk) w"
    using assms(3) v
    by (simp add: project_event_def entry_event_def EntryPosted_EventType_def go_run event_delta_def
        posting_delta_def Let_def)
  moreover have "in_int64 (balance (db w) (projectionVersion wk) (ep_AccountID v) + sint ?delta)"
    using range [of "ep_AccountID v"] by (simp add: ld)
  ultimately show ?thesis
    using assms(1,2)
    by (intro exI [of _ "(ledger_account_balances (db w))((ep_AccountID v, projectionVersion wk) \<mapsto>
          balance_row (db w) (projectionVersion wk) (ep_AccountID v) + ?delta)"])
       (auto simp: ledger_repo_inv with_balances_def balance_def balance_row_def ld sint_add64)
qed

lemma project_batch_run:
  assumes "updated_at_column \<in> set (columns (db w))" and "\<forall>r\<in>set rows. entry_event (snd r)"
  shows "healthy w \<Longrightarrow>
     (\<And>n a. in_int64 (balance (db w) (projectionVersion wk) a + log_balance (take n rows) a)) \<Longrightarrow>
     \<exists>b w'. forE (project_event wk) (map snd rows) w = (Inr (), w') \<and> healthy w' \<and>
       db w' = with_balances (db w) b \<and>
       (\<forall>a. balance (db w') (projectionVersion wk) a =
          balance (db w) (projectionVersion wk) a + log_balance rows a)"
  using assms
proof (induction rows arbitrary: w)
  case Nil
  then show ?case
    by (intro exI [of _ "ledger_account_balances (db w)"] exI [of _ w]) (simp add: go_run)
next
  case (Cons r rows)
  have e: "entry_event (snd r)" using Cons.prems(4) by simp
  have range: "in_int64 (balance (db w) (projectionVersion wk) a + log_delta a (snd r))" for a
    using Cons.prems(2) [of a "Suc 0"] by (simp add: log_balance_Cons)
  obtain b where b: "project_event wk (snd r) w = (Inr (), w\<lparr>tick := Suc (tick w), db := with_balances (db w) b\<rparr>)"
    and bal: "\<And>a. balance (with_balances (db w) b) (projectionVersion wk) a =
        balance (db w) (projectionVersion wk) a + log_delta a (snd r)"
    using project_event_run [OF Cons.prems(1,3) e range] by blast
  let ?v = "w\<lparr>tick := Suc (tick w), db := with_balances (db w) b\<rparr>"
  have "in_int64 (balance (db ?v) (projectionVersion wk) a + log_balance (take n rows) a)" for n a
    using Cons.prems(2) [of a "Suc n"] by (simp add: bal log_balance_Cons add.assoc)
  then obtain b' w' where "forE (project_event wk) (map snd rows) ?v = (Inr (), w')" "healthy w'"
      "db w' = with_balances (db w) b'"
      "\<And>a. balance (db w') (projectionVersion wk) a = balance (db ?v) (projectionVersion wk) a + log_balance rows a"
    using Cons.IH [of ?v] Cons.prems by auto
  then show ?case
    by (intro exI [of _ b'] exI [of _ w']) (simp add: bindE_run b bal log_balance_Cons)
qed

lemma log_after_with_balances [simp]: "log_after from (with_balances d b) = log_after from d"
  by (simp add: log_after_def)

lemma events_wf_with_balances [simp]: "events_wf (with_balances d b) = events_wf d"
  by (rule events_wf_cong) simp_all

lemma processNextBatch_run:
  assumes "healthy w" and "updated_at_column \<in> set (columns (db w))" and "events_wf (db w)"
    and "\<forall>r\<in>set (event_store_events (db w)). entry_event (snd r)" and "0 < batch wk"
    and "\<And>n a. in_int64 (balance (db w) (projectionVersion wk) a + log_balance (take n (log_after from (db w))) a)"
  shows "\<exists>b w'. processNextBatch wk from w =
       (Inr (let rows = take (nat (batch wk)) (log_after from (db w))
             in (length rows, if rows = [] then from else fst (last rows))), w') \<and>
     healthy w' \<and> db w' = with_balances (db w) b \<and>
     (\<forall>a. balance (db w') (projectionVersion wk) a = balance (db w) (projectionVersion wk) a +
        log_balance (take (nat (batch wk)) (log_after from (db w))) a)"
proof -
  let ?rows = "take (nat (batch wk)) (log_after from (db w))" and ?w1 = "w\<lparr>tick := Suc (tick w)\<rparr>"
  have rd: "Store_ReadAll from (batch wk) w =
      (Inr (map snd ?rows, if ?rows = [] then from else fst (last ?rows)), ?w1)"
    using assms(1,5) select_all_wf [OF assms(3)]
    by (simp add: Store_ReadAll_def sql_run default_limit_def Let_def log_after_def)
  have "in_int64 (balance (db ?w1) (projectionVersion wk) a + log_balance (take n ?rows) a)" for n a
    using assms(6) [of a "min n (nat (batch wk))"] by (simp add: min.commute)
  moreover have "\<forall>r\<in>set ?rows. entry_event (snd r)"
    using assms(4) by (auto simp: log_after_def dest!: in_set_takeD)
  ultimately obtain b w' where "forE (project_event wk) (map snd ?rows) ?w1 = (Inr (), w')" "healthy w'"
      "db w' = with_balances (db w) b"
      "\<forall>a. balance (db w') (projectionVersion wk) a = balance (db w) (projectionVersion wk) a + log_balance ?rows a"
    using project_batch_run [of ?w1 ?rows wk] assms(1,2) by auto
  then show ?thesis
    by (intro exI [of _ b] exI [of _ w']) (simp add: processNextBatch_def rd go_run Let_def)
qed

lemma worker_Start_run:
  assumes "0 < batch wk"
  shows "healthy w \<Longrightarrow> updated_at_column \<in> set (columns (db w)) \<Longrightarrow> events_wf (db w) \<Longrightarrow>
     \<forall>r\<in>set (event_store_events (db w)). entry_event (snd r) \<Longrightarrow>
     (\<And>m a. in_int64 (balance (db w) (projectionVersion wk) a + log_balance (take m (log_after from (db w))) a)) \<Longrightarrow>
     length (log_after from (db w)) \<le> n * nat (batch wk) \<Longrightarrow>
     \<exists>b w' lastSeq. worker_Start wk n from w = (Inr lastSeq, w') \<and> db w' = with_balances (db w) b \<and>
       (\<forall>a. balance (db w') (projectionVersion wk) a =
          balance (db w) (projectionVersion wk) a + log_balance (log_after from (db w)) a)"
proof (induction n arbitrary: w "from")
  case 0
  then show ?case
    by (intro exI [of _ "ledger_account_balances (db w)"] exI [of _ w] exI [of _ "from"]) (simp add: go_run)
next
  case (Suc n)
  let ?L = "log_after from (db w)" and ?k = "nat (batch wk)"
  let ?next = "if take ?k ?L = [] then from else fst (last (take ?k ?L))"
  obtain b w' where run: "processNextBatch wk from w = (Inr (length (take ?k ?L), ?next), w')" and "healthy w'"
    and d: "db w' = with_balances (db w) b"
    and bal: "\<And>a. balance (db w') (projectionVersion wk) a =
        balance (db w) (projectionVersion wk) a + log_balance (take ?k ?L) a"
    using processNextBatch_run [OF Suc.prems(1-4) assms Suc.prems(5)] by (auto simp: Let_def)
  define seq where "seq = (if 0 < length (take ?k ?L) then ?next else from)"
  have rest: "log_after seq (db w') = drop ?k ?L"
    using log_after_next [OF Suc.prems(3), of ?k "from"] assms by (simp add: d seq_def split: if_splits)
  have range: "in_int64 (balance (db w') (projectionVersion wk) a + log_balance (take m (log_after seq (db w'))) a)" for m a
  proof -
    have "log_balance (take (?k + m) ?L) a = log_balance (take ?k ?L) a + log_balance (take m (drop ?k ?L)) a"
      by (simp add: take_add log_balance_append)
    then show ?thesis using Suc.prems(5) [of a "?k + m"] by (simp add: rest bal add.assoc)
  qed
  have len: "length (log_after seq (db w')) \<le> n * ?k" using Suc.prems(6) by (simp add: rest)
  have "\<exists>b w'' lastSeq. worker_Start wk n seq w' = (Inr lastSeq, w'') \<and> db w'' = with_balances (db w') b \<and>
       (\<forall>a. balance (db w'') (projectionVersion wk) a =
          balance (db w') (projectionVersion wk) a + log_balance (log_after seq (db w')) a)"
    by (rule Suc.IH [OF \<open>healthy w'\<close> _ _ _ range len]) (use Suc.prems(2-4) in \<open>simp_all add: d\<close>)
  then obtain b' w'' lastSeq where st: "worker_Start wk n seq w' = (Inr lastSeq, w'')"
    and d2: "db w'' = with_balances (db w') b'"
    and bal2: "\<And>a. balance (db w'') (projectionVersion wk) a = balance (db w') (projectionVersion wk) a +
        log_balance (drop ?k ?L) a"
    unfolding rest by blast
  have "log_balance ?L a = log_balance (take ?k ?L) a + log_balance (drop ?k ?L) a" for a
    using log_balance_append [of "take ?k ?L" "drop ?k ?L" a] by simp
  then have "balance (db w'') (projectionVersion wk) a =
      balance (db w) (projectionVersion wk) a + log_balance ?L a" for a
    unfolding bal2 bal by simp
  moreover have "worker_Start wk (Suc n) from w = (Inr lastSeq, w'')"
    using st unfolding worker_Start.simps tryE_def seq_def by (simp only: run bindE_run prod.case sum.case)
  moreover have "db w'' = with_balances (db w) b'" by (simp add: d2 d)
  ultimately show ?case by blast
qed

section \<open>Properties\<close>

text \<open>
  C8. Rebuilding a projection from the log is exact. Take any ledger that satisfies the invariant,
  with any content of the balance table as long as the worker's projection version has no rows
  (a new version, or a truncated table). When the database does not fail, enough ticks (100
  events each) leave, under the worker's version, for every account the balance the command
  side had computed.
\<close>

theorem projection_rebuild:
  assumes "ledger_inv d" and "db w = with_balances d b" and "\<And>a. b (a, version) = None"
    and "healthy w" and "updated_at_column \<in> set (columns d)"
    and "length (event_store_events d) \<le> n * 100"
  shows "\<exists>lastSeq w'. worker_Start (NewLedgerProjectionWorker version) n 0 w = (Inr lastSeq, w') \<and>
     (\<forall>a. balance (db w') version a = balance d 1 a)"
proof -
  let ?wk = "NewLedgerProjectionWorker version"
  have wk: "batch ?wk = 100" "projectionVersion ?wk = version"
    by (simp_all add: NewLedgerProjectionWorker_def)
  have 0: "balance (db w) version a = 0" for a
    using assms(2,3) by (simp add: balance_def balance_row_def with_balances_def)
  have log: "log_after 0 (db w) = event_store_events d"
    using log_after_0 [OF ledger_invD(1) [OF assms(1)]] assms(2) by simp
  have ev: "event_store_events (db w) = event_store_events d" and wf: "events_wf (db w)"
    and col: "updated_at_column \<in> set (columns (db w))"
    using assms(2,5) ledger_invD(1) [OF assms(1)] by simp_all
  have "\<exists>b w' lastSeq. worker_Start ?wk n 0 w = (Inr lastSeq, w') \<and> db w' = with_balances (db w) b \<and>
       (\<forall>a. balance (db w') (projectionVersion ?wk) a =
          balance (db w) (projectionVersion ?wk) a + log_balance (log_after 0 (db w)) a)"
    by (rule worker_Start_run [OF _ assms(4) col wf])
       (use assms(6) ledger_invD(4,5) [OF assms(1)] in \<open>auto simp: wk 0 log ev\<close>)
  then show ?thesis using ledger_invD(2) [OF assms(1)] by (auto simp: wk 0 log)
qed

theorem projection_rebuild_witness:
  "\<exists>lastSeq w'. worker_Start (NewLedgerProjectionWorker 2) 1 0 sample_funded = (Inr lastSeq, w') \<and>
     balance (db w') 2 ''acc-1'' = 100"
proof -
  have "ledger_account_balances (db sample_funded) (a, 2) = None" for a
    by (simp add: sample_funded_def sample_post_succeeds post_db_def)
  then show ?thesis
    using projection_rebuild [of "db sample_funded" sample_funded "ledger_account_balances (db sample_funded)" 2 1]
      sample_funded_inv by (fastforce simp: with_balances_def)
qed

text \<open>
  C33. The worker as \<open>main.go\<close> starts it (version 1, from sequence 0, every time the process
  starts) adds every posting a second time to the balances that the handler has already updated:
  after enough ticks every balance is doubled.
\<close>

theorem worker_doubles_balances:
  assumes "ledger_inv (db w)" and "healthy w" and "updated_at_column \<in> set (columns (db w))"
    and "length (event_store_events (db w)) \<le> n * 100"
    and "\<And>m a. in_int64 (balance (db w) 1 a + log_balance (take m (event_store_events (db w))) a)"
  shows "\<exists>lastSeq w'. worker_Start (NewLedgerProjectionWorker 1) n 0 w = (Inr lastSeq, w') \<and>
     (\<forall>a. balance (db w') 1 a = 2 * balance (db w) 1 a)"
proof -
  let ?wk = "NewLedgerProjectionWorker 1"
  have wk: "batch ?wk = 100" "projectionVersion ?wk = 1"
    by (simp_all add: NewLedgerProjectionWorker_def)
  have log: "log_after 0 (db w) = event_store_events (db w)"
    by (rule log_after_0 [OF ledger_invD(1) [OF assms(1)]])
  have "\<exists>b w' lastSeq. worker_Start ?wk n 0 w = (Inr lastSeq, w') \<and> db w' = with_balances (db w) b \<and>
       (\<forall>a. balance (db w') (projectionVersion ?wk) a =
          balance (db w) (projectionVersion ?wk) a + log_balance (log_after 0 (db w)) a)"
    by (rule worker_Start_run [OF _ assms(2,3) ledger_invD(1) [OF assms(1)]])
       (use assms(4,5) ledger_invD(4) [OF assms(1)] in \<open>auto simp: wk log\<close>)
  then show ?thesis using ledger_invD(2) [OF assms(1)] by (auto simp: wk log)
qed

theorem worker_doubles_balances_witness:
  "\<exists>lastSeq w'. worker_Start (NewLedgerProjectionWorker 1) 1 0 sample_funded = (Inr lastSeq, w') \<and>
     balance (db w') 1 ''acc-1'' = 200"
proof -
  have "log_delta a (stored (posted_event (new_event sample_post sample_ledger) i)) =
      (if a = ''acc-1'' then 100 else 0)" for a i
    by (simp add: posting_delta_def)
  moreover have "balance (db sample_funded) 1 a = (if a = ''acc-1'' then 100 else 0)" for a
    using ledger_invD(2) [OF sample_funded_inv, of a] calculation by (simp add: log_balance_Cons)
  ultimately have "in_int64 (balance (db sample_funded) 1 a +
      log_balance (take m (event_store_events (db sample_funded))) a)" for m a
    by (cases m) (simp_all add: log_balance_Cons in_int64_def)
  then show ?thesis
    using worker_doubles_balances [of sample_funded 1] sample_funded_inv by fastforce
qed

definition sample_two_deposits :: "(ledger_db, unit) world" where
  "sample_two_deposits =
     (let w = run_posts [sample_post, sample_post\<lparr>pe_IdempotencyKey := ''k4''\<rparr>] sample_ledger
      in w\<lparr>fault := (\<lambda>n. if n = tick w + 2 then Some ''connection reset'' else None)\<rparr>)"

text \<open>
  A batch is not atomic. With two deposits of 100 kobo in the log and one statement of the
  first tick failing, the tick's error keeps the position at 0 although the first deposit has
  been applied, and the next tick applies both: the rebuilt balance is 300 kobo, not 200.
\<close>

theorem worker_batch_not_atomic:
  "balance (db (snd (worker_Start (NewLedgerProjectionWorker 2) 2 0 sample_two_deposits))) 2 ''acc-1'' = 300
   \<and> balance (db sample_two_deposits) 1 ''acc-1'' = 200"
  by code_simp

end
