(* ===== verification/LedgerRace.thy ===== *)
theory LedgerRace
  imports LedgerProps
begin

text \<open>
  Two postings whose transactions overlap: what the isolation level of
  \<open>src/services/ledger-service/infrastructure/postgres/uow.go\<close> and the missing lock of the balance
  query in \<open>balance_repo.go\<close> allow. The rules for overlapping transactions are those of PostgreSQL
  (its manual, chapter Concurrency Control), for two transactions that update the same row.
\<close>

section \<open>Settings of the code\<close>

datatype iso_level = ReadCommitted | RepeatableRead | Serializable

text \<open>\<open>u.pool.Begin(ctx)\<close> begins with the default options, so at the default level of the server.\<close>

definition WithTx_isolation :: iso_level where
  "WithTx_isolation = ReadCommitted"

text \<open>The query of \<open>GetBalanceKobo\<close> has no clause \<open>for update\<close>.\<close>

definition GetBalanceKobo_forUpdate :: bool where
  "GetBalanceKobo_forUpdate = False"

section \<open>A transaction in two halves\<close>

text \<open>
  The transaction of a posting up to its reads, and from there to its commit; \<open>t\<close> is the time at
  which it began. In between other transactions may commit.
\<close>

definition tx_begin :: "(ledger_db, 'p, 'a) go \<Rightarrow> (ledger_db, 'p, 'a \<times> time) go" where
  "tx_begin reads = (\<lambda>w.
     case fault w (tick w) of
       Some m \<Rightarrow> (Inl (DbError m), w\<lparr>tick := Suc (tick w)\<rparr>)
     | None \<Rightarrow>
         (case reads (w\<lparr>tick := Suc (tick w), txtime := Some (clock w (tick w))\<rparr>) of
            (Inl e, w1) \<Rightarrow> (Inl e, w1\<lparr>db := rollback (db w) (db w1), txtime := txtime w\<rparr>)
          | (Inr x, w1) \<Rightarrow> (Inr (x, clock w (tick w)), w1\<lparr>txtime := txtime w\<rparr>)))"

definition tx_finish :: "time \<Rightarrow> (ledger_db, 'p, 'a) go \<Rightarrow> (ledger_db, 'p, 'a) go" where
  "tx_finish t writes = (\<lambda>w.
     case writes (w\<lparr>txtime := Some t\<rparr>) of
       (Inl e, w1) \<Rightarrow> (Inl e, w1\<lparr>db := rollback (db w) (db w1), txtime := txtime w\<rparr>)
     | (Inr x, w1) \<Rightarrow>
         (case fault w1 (tick w1) of
            Some m \<Rightarrow> (Inl (DbError m), w1\<lparr>db := rollback (db w) (db w1), tick := Suc (tick w1), txtime := txtime w\<rparr>)
          | None \<Rightarrow> (Inr x, w1\<lparr>tick := Suc (tick w1), txtime := txtime w\<rparr>)))"

text \<open>What \<open>PostEntry_tx\<close> does after its reads.\<close>

definition PostEntry_rest :: "PostEntry \<Rightarrow> id + int64 \<Rightarrow> (ledger_db, 'p, id) go" where
  "PostEntry_rest cmd r = (case r of Inl entryID \<Rightarrow> returnE entryID | Inr currentBal \<Rightarrow> PostEntry_write cmd currentBal)"

text \<open>Run back to back, the halves are the transaction of the handler.\<close>

lemma PostEntry_read_db: "PostEntry_read cmd w = (r, w1) \<Longrightarrow> db w1 = db w \<and> txtime w1 = txtime w"
  by (auto simp: PostEntry_read_def IdempotencyRepo_GetByKey_def BalanceRepo_GetBalanceKobo_def bindE_def returnE_def
      sql_def sql_now_def Let_def split: option.splits)

lemma tx_begin_db: "tx_begin (PostEntry_read cmd) w = (Inr x, u) \<Longrightarrow> db u = db w"
  by (auto simp: tx_begin_def dest!: PostEntry_read_db split: option.splits prod.splits sum.splits)

lemma tx_halves:
  assumes "valid_cmd cmd"
  shows "bindE (tx_begin (PostEntry_read cmd)) (\<lambda>(r, t). tx_finish t (PostEntry_rest cmd r)) =
    PostEntryHandler_Handle cmd"
proof
  fix w :: "(ledger_db, 'p) world"
  have handle: "PostEntryHandler_Handle cmd w = withTx rollback (PostEntry_tx cmd) w"
    using assms by (auto simp: PostEntryHandler_Handle_def valid_cmd_def split: option.splits)
  obtain r w1 where read: "PostEntry_read cmd (w\<lparr>tick := Suc (tick w), txtime := Some (clock w (tick w))\<rparr>) = (r, w1)"
    by fastforce
  have "db w1 = db w" "w1\<lparr>txtime := txtime w, txtime := Some (clock w (tick w))\<rparr> = w1"
    using PostEntry_read_db [OF read] by simp_all
  then show "bindE (tx_begin (PostEntry_read cmd)) (\<lambda>(r, t). tx_finish t (PostEntry_rest cmd r)) w =
      PostEntryHandler_Handle cmd w"
    using read unfolding handle
    by (cases r) (auto simp: withTx_def tx_begin_def tx_finish_def PostEntry_tx_def PostEntry_rest_def bindE_def Let_def
        split: option.splits prod.splits sum.splits)
qed

section \<open>Overlapping postings\<close>

definition serialization_failure :: go_error where
  "serialization_failure = DbError ''ERROR: could not serialize access due to concurrent update (SQLSTATE 40001)''"

text \<open>
  Two postings with different new keys to one account that has a balance row. The first has read the balance when the second
  begins. If the read locks the row, the second waits for it until the first is done, and then reads
  the new row at the level \<open>ReadCommitted\<close> and fails at the others if the first has changed it. If
  the read does not lock, the second runs to its end; then the first goes on with the balance it has
  read: its update sees the new row at the level \<open>ReadCommitted\<close> and fails at the others if the
  second has changed it. The results are those of the first and of the second posting.
\<close>

definition overlapped ::
    "iso_level \<Rightarrow> bool \<Rightarrow> PostEntry \<Rightarrow> PostEntry \<Rightarrow> (ledger_db, 'p, (go_error + id) \<times> (go_error + id)) go" where
  "overlapped level forUpdate cmd1 cmd2 =
     bindE (tryE (tx_begin (PostEntry_read cmd1))) (\<lambda>begun.
     case begun of
       Inl e \<Rightarrow> bindE (tryE (PostEntryHandler_Handle cmd2)) (\<lambda>r2. returnE (Inl e, r2))
     | Inr (r, t) \<Rightarrow>
         if forUpdate then
           bindE (tryE (tx_finish t (PostEntry_rest cmd1 r))) (\<lambda>r1.
           bindE (tryE (if level = ReadCommitted \<or> isl r1 then PostEntryHandler_Handle cmd2
                        else throwE serialization_failure)) (\<lambda>r2.
           returnE (r1, r2)))
         else
           bindE (tryE (PostEntryHandler_Handle cmd2)) (\<lambda>r2.
           bindE (tryE (if level = ReadCommitted \<or> isl r2 then tx_finish t (PostEntry_rest cmd1 r)
                        else throwE serialization_failure)) (\<lambda>r1.
           returnE (r1, r2))))"

text \<open>Identifiers that are neither in use nor drawn twice.\<close>

definition fresh_ids :: "(ledger_db, 'p) world \<Rightarrow> bool" where
  "fresh_ids w \<longleftrightarrow>
     (\<forall>n \<ge> tick w. uuid w n \<notin> (ev_ID \<circ> snd) ` set (event_store_events (db w)) \<and>
        uuid w n \<notin> (ev_AggregateID \<circ> snd) ` set (event_store_events (db w)) \<and>
        uuid w n \<notin> msg_ID ` set (outbox_messages (db w))) \<and>
     inj_on (uuid w) {tick w..}"

lemma post_okI:
  assumes "fresh_ids w" and "updated_at_column \<in> set (columns (db w))" and "event_seq (db w) + 1 < 2 ^ 63"
    and "in_int64 (balance (db w) 1 (ep_AccountID v) + sint (event_delta v))"
    and "ledger_idempotency (db w) key = None"
    and "ep_EntryID v = uuid w k" and "tick w \<le> k" "tick w \<le> m" "tick w \<le> n"
  shows "post_ok key v (uuid w m) (uuid w n) (db w)"
proof -
  have "ev_AggregateID f \<noteq> ep_EntryID v" if "(s, f) \<in> set (event_store_events (db w))" for s f
    using assms(1,6,7) that unfolding fresh_ids_def by force
  then show ?thesis using assms unfolding post_ok_def fresh_ids_def by auto
qed

lemma fresh_ids_later:
  assumes "fresh_ids w" and "tick w \<le> k" "k < n" "tick w \<le> e" "e < n" "tick w \<le> m" "m < n"
    and "ep_EntryID v = uuid w k"
  shows "fresh_ids (w\<lparr>db := post_db key v (uuid w e) (uuid w m) now (db w), tick := n\<rparr>)"
proof -
  have "inj_on (uuid w) {n..}"
    using assms(1-3) unfolding fresh_ids_def by (auto intro: inj_on_subset)
  moreover have "uuid w i \<noteq> uuid w j" if "n \<le> i" "tick w \<le> j" "j < n" for i j
    using assms(1-3) that unfolding fresh_ids_def by (auto dest: inj_onD)
  ultimately show ?thesis
    using assms unfolding fresh_ids_def by (auto simp: posted_event_def posted_row_def)
qed

text \<open>A posting that the balance covers succeeds, and leaves the identifiers fresh.\<close>

lemma covered_posting_runs:
  assumes "healthy w" and "valid_cmd cmd" and "ledger_inv (db w)"
    and "ledger_idempotency (db w) (pe_IdempotencyKey cmd) = None"
    and "updated_at_column \<in> set (columns (db w))" and "fresh_ids w" and "event_seq (db w) + 1 < 2 ^ 63"
    and "0 \<le> balance (db w) 1 (pe_AccountID cmd) + signed_amount cmd"
    and "in_int64 (balance (db w) 1 (pe_AccountID cmd) + signed_amount cmd)"
  shows "\<exists>eid d n. PostEntryHandler_Handle cmd w = (Inr eid, w\<lparr>db := d, tick := n\<rparr>) \<and>
    fresh_ids (w\<lparr>db := d, tick := n\<rparr>) \<and> columns d = columns (db w) \<and> event_seq d = event_seq (db w) + 1 \<and>
    ledger_idempotency d = (ledger_idempotency (db w))(pe_IdempotencyKey cmd \<mapsto> eid) \<and>
    balance d 1 (pe_AccountID cmd) = balance (db w) 1 (pe_AccountID cmd) + signed_amount cmd"
proof -
  let ?v = "new_event cmd w" and ?t = "store_tick cmd w"
  have t: "tick w \<le> ?t" "tick w \<le> ?t - 1" "tick w \<le> ?t + 4" by (simp_all add: store_tick_def)
  have ok: "post_ok (pe_IdempotencyKey cmd) ?v (uuid w ?t) (uuid w (?t + 4)) (db w)"
    using assms(4-7,9) t by (intro post_okI [where k = "?t - 1"]) (simp_all add: delta_signed [OF assms(2)])
  have "funds_ok cmd (db w)"
    using withdrawal_funds_iff [OF assms(2) ledger_invD(3) [OF assms(3)]] assms(8) by simp
  moreover have "post_faultless cmd w" using assms(1) by (simp add: post_faultless_def)
  ultimately have "PostEntryHandler_Handle cmd w = (Inr (ep_EntryID ?v),
      w\<lparr>db := post_db (pe_IdempotencyKey cmd) ?v (uuid w ?t) (uuid w (?t + 4)) (clock w (tick w)) (db w), tick := ?t + 8\<rparr>)"
    using ok assms(2,4) by (simp add: Handle_new_iff)
  moreover have "fresh_ids (w\<lparr>db := post_db (pe_IdempotencyKey cmd) ?v (uuid w ?t) (uuid w (?t + 4)) (clock w (tick w)) (db w),
      tick := ?t + 8\<rparr>)"
    using t by (intro fresh_ids_later [OF assms(6), where k = "?t - 1"]) simp_all
  moreover have "balance (post_db (pe_IdempotencyKey cmd) ?v (uuid w ?t) (uuid w (?t + 4)) (clock w (tick w)) (db w)) 1
      (pe_AccountID cmd) = balance (db w) 1 (pe_AccountID cmd) + signed_amount cmd"
    using assms(9) by (simp add: balance_post_db delta_signed [OF assms(2)])
  ultimately show ?thesis by (intro exI conjI) simp_all
qed

text \<open>
  The second half of a posting runs with whatever balance it has read, as long as this one covers
  it; the balance it changes is the present one.
\<close>

lemma stale_posting_runs:
  assumes "healthy w" and "valid_cmd cmd" and "0 \<le> sint (bal + posting_delta (pe_Type cmd) (amountKobo (pe_Amount cmd)))"
    and "ledger_idempotency (db w) (pe_IdempotencyKey cmd) = None"
    and "updated_at_column \<in> set (columns (db w))" and "fresh_ids w" and "event_seq (db w) + 1 < 2 ^ 63"
    and "in_int64 (balance (db w) 1 (pe_AccountID cmd) + signed_amount cmd)"
  shows "\<exists>eid w'. tx_finish t (PostEntry_rest cmd (Inr bal)) w = (Inr eid, w') \<and>
    balance (db w') 1 (pe_AccountID cmd) = balance (db w) 1 (pe_AccountID cmd) + signed_amount cmd"
proof -
  let ?w = "w\<lparr>txtime := Some t\<rparr>"
  let ?k = "if pe_OccurredAtUTC cmd = 0 then Suc (tick w) else tick w"
  let ?v = "NewEntry_event (pe_AccountID cmd) (pe_Type cmd) (pe_Amount cmd) (pe_Narration cmd) (uuid w ?k)
    (if pe_OccurredAtUTC cmd = 0 then clock w (tick w) else pe_OccurredAtUTC cmd)"
  let ?u = "?w\<lparr>tick := Suc ?k\<rparr>"
  have v: "pe_AccountID cmd \<noteq> ''''" "validateMoney (pe_Amount cmd) = None" "validateAmount (pe_Amount cmd) = None"
    using assms(2) by (simp_all add: valid_cmd_def validateMoney_None validateAmount_None)
  have new: "NewEntry (pe_AccountID cmd) (pe_Type cmd) (pe_Amount cmd) (pe_Narration cmd) (pe_OccurredAtUTC cmd) ?w =
      (Inr (posted_entry ?v), ?u)"
    using v by (simp add: NewEntry_inv)
  have delta: "event_delta ?v = posting_delta (pe_Type cmd) (amountKobo (pe_Amount cmd))"
    by (simp add: NewEntry_event_def event_delta_def)
  have ok: "post_ok (pe_IdempotencyKey cmd) ?v (uuid w (Suc ?k)) (uuid w (Suc ?k + 4)) (db w)"
    using assms(4-8) by (intro post_okI [where k = ?k]) (simp_all add: delta delta_signed [OF assms(2)])
  then obtain eid x where store: "PostEntry_store cmd (event_delta ?v) (posted_entry ?v) ?u = (Inr eid, x)"
      and x: "db x = post_db (pe_IdempotencyKey cmd) ?v (uuid w (Suc ?k)) (uuid w (Suc ?k + 4))
        (sql_clock (?u\<lparr>tick := tick ?u + 6\<rparr>)) (db w)" "fault x = fault w"
    using assms(1) by (simp add: PostEntry_store_iff)
  have "PostEntry_write cmd bal ?w = (Inr eid, x)"
    using new store assms(3) v by (auto simp: PostEntry_write_iff posting_delta_def)
  then have "tx_finish t (PostEntry_rest cmd (Inr bal)) w = (Inr eid, x\<lparr>tick := Suc (tick x), txtime := txtime w\<rparr>)"
    using x(2) assms(1) by (simp add: tx_finish_def PostEntry_rest_def)
  moreover have "balance (db x) 1 (pe_AccountID cmd) = balance (db w) 1 (pe_AccountID cmd) + signed_amount cmd"
    using assms(8) by (simp add: x(1) balance_post_db delta delta_signed [OF assms(2)])
  ultimately show ?thesis by simp
qed

text \<open>With a lock, or above \<open>ReadCommitted\<close>, the ledger stays consistent, and so never overdrawn.\<close>

lemma overlapped_safe:
  assumes "ledger_inv (db w)" and "valid_cmd cmd1"
    and "tx_begin (PostEntry_read cmd1) w = (Inr (r, t), u)" and "\<not> isl (fst (PostEntryHandler_Handle cmd2 u))"
    and "(level, lock) \<noteq> (ReadCommitted, False)"
  shows "ledger_inv (db (snd (overlapped level lock cmd1 cmd2 w)))"
proof (cases lock)
  case True
  obtain r1 w1 where f: "tx_finish t (PostEntry_rest cmd1 r) u = (r1, w1)" by fastforce
  then have "PostEntryHandler_Handle cmd1 w = (r1, w1)"
    using assms(3) by (simp flip: tx_halves [OF assms(2)] add: bindE_def)
  then have "ledger_inv (db w1)" by (rule ledger_inv_Handle [OF assms(1)])
  moreover from this have "ledger_inv (db (snd (PostEntryHandler_Handle cmd2 w1)))"
    by (cases "PostEntryHandler_Handle cmd2 w1") (auto dest: ledger_inv_Handle)
  ultimately show ?thesis
    using True assms(3) f by (auto simp: overlapped_def bindE_def tryE_def returnE_def throwE_def split: prod.splits)
next
  case False
  obtain i2 w2 where "PostEntryHandler_Handle cmd2 u = (Inr i2, w2)"
    using assms(4) by (cases "PostEntryHandler_Handle cmd2 u"; cases "fst (PostEntryHandler_Handle cmd2 u)") auto
  moreover from this have "ledger_inv (db w2)"
    using ledger_inv_Handle assms(1) tx_begin_db [OF assms(3)] by metis
  ultimately show ?thesis
    using False assms(3,5) by (auto simp: overlapped_def bindE_def tryE_def returnE_def throwE_def)
qed

section \<open>Properties\<close>

text \<open>
  C35. Overlapping withdrawals overdraw, because of the isolation level and the missing lock. In every
  consistent ledger, take two withdrawals of one account with different new keys, each of which the
  balance covers, but not both. At the isolation level of \<open>WithTx\<close> and with the query of
  \<open>GetBalanceKobo\<close> as it is, both succeed when they overlap and the balance becomes negative; at any
  other isolation level, or with a lock on the balance row, it does not.
\<close>

theorem overlapping_withdrawals_overdraw:
  assumes "healthy w" and "ledger_inv (db w)" and "valid_cmd cmd1" and "valid_cmd cmd2"
    and "pe_Type cmd1 = EntryTypeWithdrawal" and "pe_Type cmd2 = EntryTypeWithdrawal"
    and "pe_AccountID cmd1 = a" and "pe_AccountID cmd2 = a"
    and "pe_IdempotencyKey cmd1 \<noteq> pe_IdempotencyKey cmd2"
    and "ledger_idempotency (db w) (pe_IdempotencyKey cmd1) = None"
    and "ledger_idempotency (db w) (pe_IdempotencyKey cmd2) = None"
    and "updated_at_column \<in> set (columns (db w))" and "fresh_ids w" and "event_seq (db w) + 2 < 2 ^ 63"
    and "- signed_amount cmd1 \<le> balance (db w) 1 a" and "- signed_amount cmd2 \<le> balance (db w) 1 a"
    and "balance (db w) 1 a < - signed_amount cmd1 - signed_amount cmd2"
  shows "(\<exists>i1 i2 w'. overlapped WithTx_isolation GetBalanceKobo_forUpdate cmd1 cmd2 w = (Inr (Inr i1, Inr i2), w') \<and>
      balance (db w') 1 a = balance (db w) 1 a + signed_amount cmd1 + signed_amount cmd2 \<and> balance (db w') 1 a < 0) \<and>
    (\<forall>level lock. (level, lock) \<noteq> (ReadCommitted, False) \<longrightarrow>
      0 \<le> balance (db (snd (overlapped level lock cmd1 cmd2 w))) 1 a)"
proof -
  let ?bal = "balance_row (db w) 1 a" and ?u = "w\<lparr>tick := tick w + 3\<rparr>" and ?t = "clock w (tick w)"
  have begun: "tx_begin (PostEntry_read cmd1) w = (Inr (Inr ?bal, ?t), ?u)"
    using assms(1,7,10) by (simp add: tx_begin_def PostEntry_read_def IdempotencyRepo_GetByKey_def
        BalanceRepo_GetBalanceKobo_def bindE_def returnE_def sql_def sql_now_def Let_def balance_row_def numeral_3_eq_3)
  have range: "in_int64 (balance (db w) 1 a + signed_amount cmd2)"
      "in_int64 (balance (db w) 1 a + signed_amount cmd2 + signed_amount cmd1)"
    using assms(5,6,15,16) sint64_bounds [of ?bal] sint64_bounds [of "amountKobo (pe_Amount cmd1)"]
      valid_cmd_amount [OF assms(3)] valid_cmd_amount [OF assms(4)]
    by (simp_all add: in_int64_def balance_def signed_amount_def)
  have fresh: "fresh_ids ?u" using assms(13) unfolding fresh_ids_def by (auto intro: inj_on_subset)
  obtain i2 d n where second: "PostEntryHandler_Handle cmd2 ?u = (Inr i2, ?u\<lparr>db := d, tick := n\<rparr>)"
    and later: "fresh_ids (?u\<lparr>db := d, tick := n\<rparr>)" "columns d = columns (db w)" "event_seq d = event_seq (db w) + 1"
      "ledger_idempotency d = (ledger_idempotency (db w))(pe_IdempotencyKey cmd2 \<mapsto> i2)"
      "balance d 1 a = balance (db w) 1 a + signed_amount cmd2"
    using covered_posting_runs [of ?u cmd2] assms(1,2,4,8,11,12,14,16) fresh range(1) by auto
  have "0 \<le> sint (?bal + posting_delta (pe_Type cmd1) (amountKobo (pe_Amount cmd1)))"
    using withdrawal_funds_iff [OF assms(3), of "db w"] assms(5,7,15) ledger_invD(3) [OF assms(2)]
    by (simp add: funds_ok_def posting_delta_def)
  then obtain i1 w' where first: "tx_finish ?t (PostEntry_rest cmd1 (Inr ?bal)) (?u\<lparr>db := d, tick := n\<rparr>) = (Inr i1, w')"
      "balance (db w') 1 a = balance (db w) 1 a + signed_amount cmd2 + signed_amount cmd1"
    using stale_posting_runs [of "?u\<lparr>db := d, tick := n\<rparr>" cmd1 ?bal ?t] assms(1,3,7,9,10,12,14) later range(2) by auto
  have race: "overlapped WithTx_isolation GetBalanceKobo_forUpdate cmd1 cmd2 w = (Inr (Inr i1, Inr i2), w')"
    using begun second first(1)
    by (simp add: overlapped_def WithTx_isolation_def GetBalanceKobo_forUpdate_def bindE_def tryE_def returnE_def)
  have "0 \<le> balance (db (snd (overlapped level lock cmd1 cmd2 w))) 1 a" if "(level, lock) \<noteq> (ReadCommitted, False)" for level lock
    using overlapped_safe [OF assms(2,3) begun, of cmd2 level lock] second that ledger_invD(3) by auto
  then show ?thesis using race first(2) assms(17) by simp
qed

text \<open>Two withdrawals of the whole balance of 100 kobo.\<close>

theorem overlapping_withdrawals_overdraw_witness:
  "\<exists>i1 i2 w'. overlapped WithTx_isolation GetBalanceKobo_forUpdate sample_withdrawal
      (sample_withdrawal\<lparr>pe_IdempotencyKey := ''k3''\<rparr>) sample_funded = (Inr (Inr i1, Inr i2), w') \<and>
     balance (db w') 1 ''acc-1'' = - 100"
proof -
  let ?c = "sample_withdrawal\<lparr>pe_IdempotencyKey := ''k3''\<rparr>"
  have "valid_cmd ?c" "signed_amount ?c = - 100"
    using sample_withdrawal_simps(1,2) by (auto simp: valid_cmd_def signed_amount_def)
  moreover have "fresh_ids sample_funded"
    by (auto simp: fresh_ids_def inj_on_def posted_event_def posted_row_def stored_def store_tick_def
        dest: arg_cong [where f = length])
  moreover have "event_seq (db sample_funded) = 1"
    by (simp add: sample_funded_def sample_post_succeeds post_db_def)
  ultimately show ?thesis
    using overlapping_withdrawals_overdraw [of sample_funded sample_withdrawal ?c "''acc-1''"] sample_funded_inv
    by auto
qed

end
