(* ===== verification/AccountDomain.thy ===== *)
theory AccountDomain
  imports Money EventStore
begin

text \<open>
  \<open>src/services/account-service/domain\<close>: the account aggregate, its events, its life cycle and
  how it is rebuilt from events and snapshots.
\<close>

section \<open>Accounts\<close>

type_synonym Status = string

definition StatusPending :: Status where
  "StatusPending = ''PENDING''"

definition StatusActive :: Status where
  "StatusActive = ''ACTIVE''"

definition StatusFrozen :: Status where
  "StatusFrozen = ''FROZEN''"

definition StatusClosed :: Status where
  "StatusClosed = ''CLOSED''"

definition ErrAccountInvalidAmount :: go_error where
  "ErrAccountInvalidAmount = ErrorString ''invalid amount''"

definition ErrAccountNotActive :: go_error where
  "ErrAccountNotActive = ErrorString ''account not active''"

definition ErrAccountClosed :: go_error where
  "ErrAccountClosed = ErrorString ''account closed''"

definition ErrAccountCurrencyNotNGN :: go_error where
  "ErrAccountCurrencyNotNGN = ErrorString ''currency must be NGN''"

datatype account_event =
    AccountOpened (ae_AccountID: id) (ae_CustomerID: id) (ae_OccurredAt: time)
  | AccountFrozen (ae_AccountID: id) (ae_OccurredAt: time)
  | AccountClosed (ae_AccountID: id) (ae_OccurredAt: time)
  | MoneyDeposited (ae_AccountID: id) (ae_Amount: Money) (ae_EntryID: id) (ae_OccurredAt: time)
  | MoneyWithdrawn (ae_AccountID: id) (ae_Amount: Money) (ae_EntryID: id) (ae_OccurredAt: time)

fun account_EventType :: "account_event \<Rightarrow> string" where
  "account_EventType (AccountOpened _ _ _) = ''account.opened.v1''"
| "account_EventType (AccountFrozen _ _) = ''account.frozen.v1''"
| "account_EventType (AccountClosed _ _) = ''account.closed.v1''"
| "account_EventType (MoneyDeposited _ _ _ _) = ''account.money_deposited.v1''"
| "account_EventType (MoneyWithdrawn _ _ _ _) = ''account.money_withdrawn.v1''"

record Account =
  ac_id :: id
  ac_customerID :: id
  ac_status :: Status
  ac_version :: int
  ac_changes :: "account_event list"

definition Account_zero :: Account where
  "Account_zero = \<lparr>ac_id = '''', ac_customerID = '''', ac_status = '''', ac_version = 0, ac_changes = []\<rparr>"

record AccountSnapshot =
  as_AccountID :: id
  as_CustomerID :: id
  as_Status :: Status
  as_Version :: int

fun Account_apply :: "account_event \<Rightarrow> Account \<Rightarrow> Account" where
  "Account_apply (AccountOpened i c t) a = a\<lparr>ac_id := i, ac_customerID := c, ac_status := StatusActive\<rparr>"
| "Account_apply (AccountFrozen i t) a = a\<lparr>ac_status := StatusFrozen\<rparr>"
| "Account_apply (AccountClosed i t) a = a\<lparr>ac_status := StatusClosed\<rparr>"
| "Account_apply (MoneyDeposited i m e t) a = a"
| "Account_apply (MoneyWithdrawn i m e t) a = a"

definition Account_raise :: "account_event \<Rightarrow> Account \<Rightarrow> Account" where
  "Account_raise e a =
     (let a' = Account_apply e (a\<lparr>ac_changes := ac_changes a @ [e]\<rparr>)
      in a'\<lparr>ac_version := ac_version a' + 1\<rparr>)"

definition NewAccount :: "id \<Rightarrow> ('d, 'p, Account) go" where
  "NewAccount customerID =
     (if customerID = '''' then throwE (ErrorString ''customer id required'')
      else
        bindE newID (\<lambda>i.
        bindE nowUTC (\<lambda>t.
        returnE (Account_raise (AccountOpened i customerID t) Account_zero))))"

definition Freeze :: "Account \<Rightarrow> ('d, 'p, Account) go" where
  "Freeze a =
     (if ac_status a = StatusClosed then throwE ErrAccountClosed
      else if ac_status a \<noteq> StatusActive then throwE ErrAccountNotActive
      else bindE nowUTC (\<lambda>t. returnE (Account_raise (AccountFrozen (ac_id a) t) a)))"

definition Close :: "Account \<Rightarrow> ('d, 'p, Account) go" where
  "Close a =
     (if ac_status a = StatusClosed then returnE a
      else if ac_status a \<noteq> StatusActive then throwE ErrAccountNotActive
      else bindE nowUTC (\<lambda>t. returnE (Account_raise (AccountClosed (ac_id a) t) a)))"

definition ValidateNGNAmountPositive :: "Money \<Rightarrow> go_error option" where
  "ValidateNGNAmountPositive amt =
     (if currency amt \<noteq> NGN then Some ErrAccountCurrencyNotNGN
      else if IsNegativeOrZero amt then Some ErrAccountInvalidAmount
      else None)"

definition Account_PullChanges :: "Account \<Rightarrow> account_event list \<times> Account" where
  "Account_PullChanges a = (ac_changes a, a\<lparr>ac_changes := []\<rparr>)"

definition Account_Snapshot :: "Account \<Rightarrow> AccountSnapshot" where
  "Account_Snapshot a =
     \<lparr>as_AccountID = ac_id a, as_CustomerID = ac_customerID a, as_Status = ac_status a,
      as_Version = ac_version a\<rparr>"

text \<open>One round of the loop of \<open>Rehydrate\<close>: \<open>a.apply(e); a.version++\<close>.\<close>

definition Account_step :: "account_event \<Rightarrow> Account \<Rightarrow> Account" where
  "Account_step e a = (let a' = Account_apply e a in a'\<lparr>ac_version := ac_version a' + 1\<rparr>)"

definition Account_Rehydrate :: "account_event list \<Rightarrow> Account" where
  "Account_Rehydrate es = fold Account_step es Account_zero"

definition Account_restore :: "AccountSnapshot \<Rightarrow> Account" where
  "Account_restore s =
     \<lparr>ac_id = as_AccountID s, ac_customerID = as_CustomerID s, ac_status = as_Status s,
      ac_version = as_Version s, ac_changes = []\<rparr>"

definition Account_RehydrateFromSnapshot :: "AccountSnapshot \<Rightarrow> account_event list \<Rightarrow> Account" where
  "Account_RehydrateFromSnapshot s es = fold Account_step es (Account_restore s)"

section \<open>JSON\<close>

fun account_event_Marshal :: "account_event \<Rightarrow> json" where
  "account_event_Marshal (AccountOpened i c t) =
     JObj [(''AccountID'', JStr i), (''CustomerID'', JStr c), (''OccurredAt'', JTime t)]"
| "account_event_Marshal (AccountFrozen i t) = JObj [(''AccountID'', JStr i), (''OccurredAt'', JTime t)]"
| "account_event_Marshal (AccountClosed i t) = JObj [(''AccountID'', JStr i), (''OccurredAt'', JTime t)]"
| "account_event_Marshal (MoneyDeposited i m e t) =
     JObj [(''AccountID'', JStr i), (''Amount'', Money_Marshal m), (''EntryID'', JStr e), (''OccurredAt'', JTime t)]"
| "account_event_Marshal (MoneyWithdrawn i m e t) =
     JObj [(''AccountID'', JStr i), (''Amount'', Money_Marshal m), (''EntryID'', JStr e), (''OccurredAt'', JTime t)]"

definition dec_status_change :: "(id \<Rightarrow> time \<Rightarrow> account_event) \<Rightarrow> json \<Rightarrow> go_error + account_event" where
  "dec_status_change c j =
     bindS (dec_obj j) (\<lambda>kvs.
     bindS (dec_string (jmember kvs ''AccountID'')) (\<lambda>i.
     bindS (dec_time (jmember kvs ''OccurredAt'')) (\<lambda>t. Inr (c i t))))"

definition dec_money_event ::
    "(id \<Rightarrow> Money \<Rightarrow> id \<Rightarrow> time \<Rightarrow> account_event) \<Rightarrow> json \<Rightarrow> go_error + account_event" where
  "dec_money_event c j =
     bindS (dec_obj j) (\<lambda>kvs.
     bindS (dec_string (jmember kvs ''AccountID'')) (\<lambda>i.
     bindS (Money_Unmarshal (jmember kvs ''Amount'')) (\<lambda>m.
     bindS (dec_string (jmember kvs ''EntryID'')) (\<lambda>e.
     bindS (dec_time (jmember kvs ''OccurredAt'')) (\<lambda>t. Inr (c i m e t))))))"

definition UnmarshalAccountEvent :: "string \<Rightarrow> json \<Rightarrow> go_error + account_event" where
  "UnmarshalAccountEvent typ j =
     (if typ = ''account.opened.v1'' then
        bindS (dec_obj j) (\<lambda>kvs.
        bindS (dec_string (jmember kvs ''AccountID'')) (\<lambda>i.
        bindS (dec_string (jmember kvs ''CustomerID'')) (\<lambda>c.
        bindS (dec_time (jmember kvs ''OccurredAt'')) (\<lambda>t. Inr (AccountOpened i c t)))))
      else if typ = ''account.frozen.v1'' then dec_status_change AccountFrozen j
      else if typ = ''account.closed.v1'' then dec_status_change AccountClosed j
      else if typ = ''account.money_deposited.v1'' then dec_money_event MoneyDeposited j
      else if typ = ''account.money_withdrawn.v1'' then dec_money_event MoneyWithdrawn j
      else Inl (ErrorString (''unknown account event type: '' @ typ)))"

definition AccountSnapshot_Marshal :: "AccountSnapshot \<Rightarrow> json" where
  "AccountSnapshot_Marshal s = JObj
     [(''AccountID'', JStr (as_AccountID s)), (''CustomerID'', JStr (as_CustomerID s)),
      (''Status'', JStr (as_Status s)), (''Version'', JInt (as_Version s))]"

definition AccountSnapshot_Unmarshal :: "json \<Rightarrow> go_error + AccountSnapshot" where
  "AccountSnapshot_Unmarshal j =
     bindS (dec_obj j) (\<lambda>kvs.
     bindS (dec_string (jmember kvs ''AccountID'')) (\<lambda>i.
     bindS (dec_string (jmember kvs ''CustomerID'')) (\<lambda>c.
     bindS (dec_string (jmember kvs ''Status'')) (\<lambda>s.
     bindS (dec_int (jmember kvs ''Version'')) (\<lambda>v.
     Inr \<lparr>as_AccountID = i, as_CustomerID = c, as_Status = s, as_Version = v\<rparr>)))))"

section \<open>Facts\<close>

text \<open>Decoding gives the event back, except that the amount of a money event is lost.\<close>

fun forget_amount :: "account_event \<Rightarrow> account_event" where
  "forget_amount (MoneyDeposited i m e t) = MoneyDeposited i Money_zero e t"
| "forget_amount (MoneyWithdrawn i m e t) = MoneyWithdrawn i Money_zero e t"
| "forget_amount ev = ev"

lemma account_event_roundtrip:
  "UnmarshalAccountEvent (account_EventType ev) (account_event_Marshal ev) = Inr (forget_amount ev)"
  by (cases ev)
     (simp_all add: UnmarshalAccountEvent_def dec_status_change_def dec_money_event_def jmember_def
       Money_Marshal_def)

lemma AccountSnapshot_roundtrip:
  "in_int64 (as_Version s) \<Longrightarrow> AccountSnapshot_Unmarshal (AccountSnapshot_Marshal s) = Inr s"
  by (simp add: AccountSnapshot_Unmarshal_def AccountSnapshot_Marshal_def jmember_def)

lemma Account_apply_frame [simp]:
  "ac_version (Account_apply e a) = ac_version a" "ac_changes (Account_apply e a) = ac_changes a"
  by (cases e; simp)+

lemma Account_step_forget [simp]: "Account_step (forget_amount e) a = Account_step e a"
  by (cases e) (simp_all add: Account_step_def)

lemma ac_changes_replay: "ac_changes (fold Account_step es a) = ac_changes a"
  by (induction es arbitrary: a) (simp_all add: Account_step_def Let_def)

interpretation account: snapshotted Account_step Account_zero ac_version Account_Snapshot Account_restore
proof
  fix es
  show "Account_restore (Account_Snapshot (fold Account_step es Account_zero)) = fold Account_step es Account_zero"
    using ac_changes_replay [of es Account_zero]
    by (simp add: Account_restore_def Account_Snapshot_def Account_zero_def)
qed (simp_all add: Account_zero_def Account_step_def Let_def)

section \<open>The life cycle\<close>

text \<open>The accounts that the domain operations can produce.\<close>

inductive account_run :: "Account \<Rightarrow> bool" where
  opened: "NewAccount c (w :: (unit, unit) world) = (Inr a, w') \<Longrightarrow> account_run a"
| froze: "account_run a \<Longrightarrow> Freeze a (w :: (unit, unit) world) = (Inr a', w') \<Longrightarrow> account_run a'"
| closed: "account_run a \<Longrightarrow> Close a (w :: (unit, unit) world) = (Inr a', w') \<Longrightarrow> account_run a'"

lemma Statuses_differ [simp]:
  "StatusActive \<noteq> StatusFrozen" "StatusActive \<noteq> StatusClosed" "StatusFrozen \<noteq> StatusClosed"
  "StatusFrozen \<noteq> StatusActive" "StatusClosed \<noteq> StatusActive" "StatusClosed \<noteq> StatusFrozen"
  by (simp_all add: StatusActive_def StatusFrozen_def StatusClosed_def)

text \<open>Raising an event is replaying it.\<close>

lemma Account_apply_changes:
  "Account_apply e (a\<lparr>ac_changes := cs\<rparr>) = (Account_apply e a)\<lparr>ac_changes := cs\<rparr>"
  by (cases e) simp_all

definition rebuilt :: "Account \<Rightarrow> bool" where
  "rebuilt a \<longleftrightarrow> Account_Rehydrate (ac_changes a) = a\<lparr>ac_changes := []\<rparr>"

lemma rebuilt_raise: "rebuilt a \<Longrightarrow> rebuilt (Account_raise e a)"
  by (simp add: rebuilt_def Account_Rehydrate_def Account_raise_def Account_step_def Let_def
      Account_apply_changes)

lemma account_run_inv:
  "account_run a \<Longrightarrow> rebuilt a \<and> ac_id a = ae_AccountID (hd (ac_changes a)) \<and>
     (case ac_changes a of
        [AccountOpened i c t] \<Rightarrow> ac_status a = StatusActive
      | [AccountOpened i c t, AccountFrozen i' t'] \<Rightarrow> ac_status a = StatusFrozen
      | [AccountOpened i c t, AccountClosed i' t'] \<Rightarrow> ac_status a = StatusClosed
      | _ \<Rightarrow> False)"
proof (induction rule: account_run.induct)
  case (opened c w a w')
  have "rebuilt Account_zero" by (simp add: rebuilt_def Account_Rehydrate_def Account_zero_def)
  then show ?case using opened
    by (auto simp: NewAccount_def go_inv rebuilt_raise split: if_splits)
       (auto simp: Account_raise_def Account_zero_def)
next
  case (froze a w a' w')
  then show ?case
    by (auto simp: Freeze_def go_inv rebuilt_raise split: if_splits list.splits account_event.splits)
       (auto simp: Account_raise_def)
next
  case (closed a w a' w')
  then show ?case
    by (auto simp: Close_def go_inv rebuilt_raise split: if_splits list.splits account_event.splits)
       (auto simp: Account_raise_def)
qed

section \<open>Properties\<close>

text \<open>
  C11. The life cycle of an account: whatever sequence of \<open>NewAccount\<close>, \<open>Freeze\<close> and \<open>Close\<close>
  produced it, an account is active, frozen or closed; replaying its raised events gives back
  exactly its state; it has one event while active and two otherwise; and when it is not
  active neither operation changes it: \<open>Freeze\<close> fails, and \<open>Close\<close> fails on a frozen account
  and does nothing on a closed one.
\<close>

theorem account_lifecycle:
  assumes "account_run a"
  shows "ac_status a \<in> {StatusActive, StatusFrozen, StatusClosed} \<and>
    Account_Rehydrate (ac_changes a) = a\<lparr>ac_changes := []\<rparr> \<and>
    ac_version a = int (length (ac_changes a)) \<and>
    length (ac_changes a) = (if ac_status a = StatusActive then 1 else 2) \<and>
    (ac_status a \<noteq> StatusActive \<longrightarrow>
       (\<exists>e. fst (Freeze a (w :: (unit, unit) world)) = Inl e) \<and>
       fst (Close a w) = (if ac_status a = StatusClosed then Inr a else Inl ErrAccountNotActive))"
proof -
  have r: "Account_Rehydrate (ac_changes a) = a\<lparr>ac_changes := []\<rparr>"
    using account_run_inv [OF assms] by (simp add: rebuilt_def)
  then have "ac_version a = ac_version (fold Account_step (ac_changes a) Account_zero)"
    by (simp add: Account_Rehydrate_def)
  then have "ac_version a = int (length (ac_changes a))" by (simp only: account.version_replay)
  then show ?thesis
    using account_run_inv [OF assms] r
    by (auto simp: Freeze_def Close_def throwE_def returnE_def split: list.splits account_event.splits)
qed

theorem account_lifecycle_witness:
  "\<exists>a. account_run a \<and> ac_status a = StatusFrozen \<and>
     (\<exists>w :: (unit, unit) world. fst (Close a w) = Inl ErrAccountNotActive)"
proof -
  let ?w = "\<lparr>db = (), peer = (), clock = (\<lambda>n. 1), uuid = (\<lambda>n. ''a1''), fault = (\<lambda>n. None), tick = 0,
    txtime = None\<rparr> :: (unit, unit) world"
  let ?a = "Account_raise (AccountOpened ''a1'' ''c1'' 1) Account_zero"
  let ?f = "Account_raise (AccountFrozen ''a1'' 1) ?a"
  have "NewAccount ''c1'' ?w = (Inr ?a, ?w\<lparr>tick := 2\<rparr>)"
    by (simp add: NewAccount_def go_run numeral_2_eq_2)
  moreover have "Freeze ?a ?w = (Inr ?f, ?w\<lparr>tick := 1\<rparr>)"
    by (simp add: Freeze_def Account_raise_def go_run)
  ultimately have "account_run ?f" by (blast intro: account_run.intros)
  moreover have "ac_status ?f = StatusFrozen" by (simp add: Account_raise_def)
  ultimately show ?thesis using account_lifecycle [of ?f ?w] by auto
qed

end
