(* ===== verification/Account.thy ===== *)
theory Account
  imports AccountDomain
begin

text \<open>
  The account service's command side: \<open>src/services/account-service/application/commands\<close> over
  the event store, the outbox and the projection table
  (\<open>infrastructure/postgres/account_projection_repo.go\<close>). The ledger is called through the
  port \<open>ports.LedgerClient\<close>, an argument of the handlers; its state is the world's peer.
\<close>

section \<open>The projection table\<close>

record AccountProjection =
  ap_AccountID :: id
  ap_CustomerID :: id
  ap_Status :: string
  ap_Version :: int

record account_db = event_db +
  accounts_projection :: "id \<Rightarrow> AccountProjection option"

definition AccountProjection_Upsert :: "AccountProjection \<Rightarrow> (account_db, 'p, unit) go" where
  "AccountProjection_Upsert p = sql (\<lambda>d.
     Inr ((), d\<lparr>accounts_projection := (accounts_projection d)(ap_AccountID p \<mapsto> p)\<rparr>))"

definition AccountProjection_GetByID :: "id \<Rightarrow> (account_db, 'p, AccountProjection option) go" where
  "AccountProjection_GetByID accountID = sql (\<lambda>d. Inr (accounts_projection d accountID, d))"

section \<open>Loading an account\<close>

text \<open>The loop over the stored events; the first one that cannot be decoded ends it.\<close>

primrec decode_account_events :: "Event list \<Rightarrow> go_error + account_event list" where
  "decode_account_events [] = Inr []"
| "decode_account_events (se # ses) =
     bindS (UnmarshalAccountEvent (ev_Type se) (ev_Data se)) (\<lambda>ev.
     bindS (decode_account_events ses) (\<lambda>evs. Inr (ev # evs)))"

definition LoadAccount :: "id \<Rightarrow> (account_db, 'p, Account) go" where
  "LoadAccount accountID =
     bindE (LoadLatestSnapshot accountID) (\<lambda>snap.
     bindE (case snap of
              None \<Rightarrow> returnE None
            | Some s \<Rightarrow> bindE (liftE (AccountSnapshot_Unmarshal (snap_Data s))) (\<lambda>st. returnE (Some st))) (\<lambda>snapState.
     let fromVer = (case snap of None \<Rightarrow> 0 | Some s \<Rightarrow> snap_Version s) in
     bindE (Store_Read accountID fromVer 10000) (\<lambda>events.
     bindE (liftE (decode_account_events events)) (\<lambda>des.
     returnE (case snapState of
                Some s \<Rightarrow> Account_RehydrateFromSnapshot s des
              | None \<Rightarrow> Account_Rehydrate des)))))"

definition saveAccountSnapshot :: "Account \<Rightarrow> id \<Rightarrow> int \<Rightarrow> (account_db, 'p, unit) go" where
  "saveAccountSnapshot ag aggregateID version =
     bindE nowUTC (\<lambda>now.
     SaveSnapshot \<lparr>snap_AggregateID = aggregateID, snap_AggregateType = ''account'', snap_Version = version,
       snap_CreatedAt = now,
       snap_Data = AccountSnapshot_Marshal ((Account_Snapshot ag)\<lparr>as_Version := version\<rparr>)\<rparr>)"

section \<open>Opening an account\<close>

definition accountEventsTopicV1 :: string where
  "accountEventsTopicV1 = ''banking.accounts.v1''"

text \<open>The JSON of \<open>outboxEventEnvelope\<close>; \<open>data\<close> is a byte slice.\<close>

definition outboxEventEnvelope :: "string \<Rightarrow> id \<Rightarrow> string \<Rightarrow> int \<Rightarrow> time \<Rightarrow> json \<Rightarrow> json" where
  "outboxEventEnvelope eventType aggregateID aggregateType version occurredAt data = JObj
     [(''event_type'', JStr eventType), (''aggregate_id'', JStr aggregateID),
      (''aggregate_type'', JStr aggregateType), (''version'', JInt version),
      (''occurred_at_utc'', JTime occurredAt), (''data'', JBytes data)]"

definition account_message :: "id \<Rightarrow> time \<Rightarrow> id \<Rightarrow> account_event \<Rightarrow> int \<Rightarrow> Message" where
  "account_message mid created accountID ev ver =
     \<lparr>msg_ID = mid, msg_Topic = accountEventsTopicV1, msg_Key = accountID,
      msg_Value = outboxEventEnvelope (account_EventType ev) accountID ''account'' ver
        (ae_OccurredAt ev) (account_event_Marshal ev),
      msg_Headers = [(''event_type'', account_EventType ev), (''aggregate_id'', accountID),
        (''aggregate_type'', ''account''), (''schema'', ''json-envelope.v1'')],
      msg_CreatedAt = created, msg_PublishedAt = None\<rparr>"

definition account_store_event :: "id \<Rightarrow> id \<Rightarrow> account_event \<Rightarrow> int \<Rightarrow> Event" where
  "account_store_event evid accountID ev ver =
     \<lparr>ev_ID = evid, ev_AggregateID = accountID, ev_AggregateType = ''account'', ev_Version = ver,
      ev_Type = account_EventType ev, ev_OccurredAt = ae_OccurredAt ev,
      ev_Data = account_event_Marshal ev, ev_Metadata = None\<rparr>"

record OpenAccount =
  oa_CustomerID :: id
  oa_IdempotencyKey :: string

text \<open>One round of the loop that prepares the events: it enqueues the outbox message at once.\<close>

definition OpenAccount_prepare :: "Account \<Rightarrow> int \<times> account_event \<Rightarrow> (account_db, 'p, Event) go" where
  "OpenAccount_prepare ag = (\<lambda>(i, ev).
     let ver = i + 1 in
     bindE newID (\<lambda>evid.
     bindE newID (\<lambda>mid.
     bindE nowUTC (\<lambda>created.
     bindE (wrapE ''enqueue outbox'' (Enqueue (account_message mid created (ac_id ag) ev ver))) (\<lambda>_.
     returnE (account_store_event evid (ac_id ag) ev ver))))))"

definition OpenAccount_tx :: "OpenAccount \<Rightarrow> (account_db, 'p, id \<times> int) go" where
  "OpenAccount_tx cmd =
     bindE (NewAccount (oa_CustomerID cmd)) (\<lambda>ag0.
     let (events, ag) = Account_PullChanges ag0 in
     bindE (mapE (OpenAccount_prepare ag) (zip [0..int (length events) - 1] events)) (\<lambda>toAppend.
     bindE (wrapE ''append events'' (Store_Append toAppend)) (\<lambda>_.
     bindE (AccountProjection_Upsert
        \<lparr>ap_AccountID = ac_id ag, ap_CustomerID = ac_customerID ag, ap_Status = ac_status ag,
         ap_Version = ac_version ag\<rparr>) (\<lambda>_.
     returnE (ac_id ag, ac_version ag)))))"

definition OpenAccountHandler_Handle :: "OpenAccount \<Rightarrow> (account_db, 'p, id \<times> int) go" where
  "OpenAccountHandler_Handle cmd =
     (if oa_CustomerID cmd = '''' then throwE (ErrorString ''customer id required'')
      else if oa_IdempotencyKey cmd = '''' then throwE (ErrorString ''idempotency key required'')
      else withTx rollback (OpenAccount_tx cmd))"

section \<open>Deposits and withdrawals\<close>

definition LedgerEntryTypeDeposit :: string where
  "LedgerEntryTypeDeposit = ''DEPOSIT''"

definition LedgerEntryTypeWithdrawal :: string where
  "LedgerEntryTypeWithdrawal = ''WITHDRAWAL''"

text \<open>\<open>ports.LedgerClient.PostEntry\<close>: key, account, type, amount and narration.\<close>

type_synonym 'p ledger_post =
  "string \<Rightarrow> id \<Rightarrow> string \<Rightarrow> Money \<Rightarrow> string \<Rightarrow> 'p \<Rightarrow> (go_error + id) \<times> 'p"

text \<open>\<open>DepositMoney\<close> and \<open>WithdrawMoney\<close> have the same fields.\<close>

record MoneyCommand =
  mc_AccountID :: id
  mc_Amount :: Money
  mc_IdempotencyKey :: string
  mc_Narration :: string

text \<open>
  The transaction of both handlers, which differ only in the event: load the account, check that
  it is active, append the event at the next version, snapshot every 50 versions, update the
  projection, enqueue the message.
\<close>

definition store_money_event :: "id \<Rightarrow> Account \<Rightarrow> account_event \<Rightarrow> (account_db, 'p, unit) go" where
  "store_money_event accountID ag ev =
     (let ver = ac_version ag + 1 in
      bindE newID (\<lambda>evid.
      bindE (wrapE ''append account event''
        (Store_Append [account_store_event evid accountID ev ver])) (\<lambda>_.
      bindE (if ver mod 50 = 0 then saveAccountSnapshot ag accountID ver else returnE ()) (\<lambda>_.
      bindE (AccountProjection_Upsert
         \<lparr>ap_AccountID = accountID, ap_CustomerID = ac_customerID ag, ap_Status = ac_status ag,
          ap_Version = ver\<rparr>) (\<lambda>_.
      bindE newID (\<lambda>mid.
      bindE nowUTC (\<lambda>created.
      Enqueue (account_message mid created accountID ev ver))))))))"

definition money_event_tx ::
    "(id \<Rightarrow> Money \<Rightarrow> id \<Rightarrow> time \<Rightarrow> account_event) \<Rightarrow> MoneyCommand \<Rightarrow> id \<Rightarrow> (account_db, 'p, id \<times> id) go" where
  "money_event_tx mk cmd entryID =
     bindE (LoadAccount (mc_AccountID cmd)) (\<lambda>ag.
     if ac_status ag \<noteq> StatusActive then throwE ErrAccountNotActive
     else
       bindE nowUTC (\<lambda>t.
       bindE (store_money_event (mc_AccountID cmd) ag (mk (mc_AccountID cmd) (mc_Amount cmd) entryID t)) (\<lambda>_.
       returnE (mc_AccountID cmd, entryID))))"

definition DepositMoneyHandler_Handle ::
    "'p ledger_post \<Rightarrow> MoneyCommand \<Rightarrow> (account_db, 'p, id \<times> id) go" where
  "DepositMoneyHandler_Handle post cmd =
     (if mc_AccountID cmd = '''' then throwE (ErrorString ''account id required'')
      else if mc_IdempotencyKey cmd = '''' then throwE (ErrorString ''idempotency key required'')
      else case ValidateNGNAmountPositive (mc_Amount cmd) of
        Some err \<Rightarrow> throwE err
      | None \<Rightarrow>
          bindE (callPeer (post (mc_IdempotencyKey cmd) (mc_AccountID cmd) LedgerEntryTypeDeposit
                   (mc_Amount cmd) (mc_Narration cmd))) (\<lambda>entryID.
          withTx rollback (money_event_tx MoneyDeposited cmd entryID)))"

definition WithdrawMoneyHandler_Handle ::
    "'p ledger_post \<Rightarrow> MoneyCommand \<Rightarrow> (account_db, 'p, id \<times> id) go" where
  "WithdrawMoneyHandler_Handle post cmd =
     (if mc_AccountID cmd = '''' then throwE (ErrorString ''account id required'')
      else if mc_IdempotencyKey cmd = '''' then throwE (ErrorString ''idempotency key required'')
      else case ValidateNGNAmountPositive (mc_Amount cmd) of
        Some err \<Rightarrow> throwE err
      | None \<Rightarrow>
          bindE (callPeer (post (mc_IdempotencyKey cmd) (mc_AccountID cmd) LedgerEntryTypeWithdrawal
                   (mc_Amount cmd) (mc_Narration cmd))) (\<lambda>entryID.
          withTx rollback (money_event_tx MoneyWithdrawn cmd entryID)))"

section \<open>The invariant\<close>

definition decoded :: "Event list \<Rightarrow> account_event list" where
  "decoded es = map (\<lambda>e. projr (UnmarshalAccountEvent (ev_Type e) (ev_Data e))) es"

text \<open>The state of an account according to all of its events.\<close>

definition replayed :: "account_db \<Rightarrow> id \<Rightarrow> Account" where
  "replayed d a = Account_Rehydrate (decoded (stream d a))"

definition event_ok :: "Event \<Rightarrow> bool" where
  "event_ok e \<longleftrightarrow> ev_AggregateType e = ''account'' \<and>
     (case UnmarshalAccountEvent (ev_Type e) (ev_Data e) of Inl _ \<Rightarrow> False | Inr _ \<Rightarrow> True)"

text \<open>A snapshot holds the state of the account at its version, a multiple of 50.\<close>

definition snapshot_ok :: "account_db \<Rightarrow> Snapshot \<Rightarrow> bool" where
  "snapshot_ok d s \<longleftrightarrow>
     (let es = stream d (snap_AggregateID s) in
      0 \<le> snap_Version s \<and> snap_Version s \<le> int (length es) \<and> snap_Version s mod 50 = 0 \<and>
      AccountSnapshot_Unmarshal (snap_Data s) =
        Inr (Account_Snapshot (Account_Rehydrate (decoded (take (nat (snap_Version s)) es)))))"

definition snap_version :: "account_db \<Rightarrow> id \<Rightarrow> int" where
  "snap_version d a = (case latest_snapshot a d of None \<Rightarrow> 0 | Some s \<Rightarrow> snap_Version s)"

definition projection_of :: "id \<Rightarrow> Account \<Rightarrow> AccountProjection" where
  "projection_of a ag = \<lparr>ap_AccountID = a, ap_CustomerID = ac_customerID ag, ap_Status = ac_status ag,
     ap_Version = ac_version ag\<rparr>"

text \<open>
  The invariant: a well-formed store of decodable events with versions \<open>1, ..., n\<close> per account;
  every snapshot is right and the latest one at most 49 versions old; the projection of every
  account is the state its events replay to.
\<close>

definition account_inv :: "account_db \<Rightarrow> bool" where
  "account_inv d \<longleftrightarrow>
     events_wf d \<and> (\<forall>a. contiguous (stream d a)) \<and>
     (\<forall>(s, e) \<in> set (event_store_events d). event_ok e) \<and>
     (\<forall>s \<in> set (event_store_snapshots d). snapshot_ok d s) \<and>
     (\<forall>a. int (length (stream d a)) < snap_version d a + 50) \<and>
     (\<forall>a. accounts_projection d a =
        (if stream d a = [] then None else Some (projection_of a (replayed d a))))"

section \<open>Loading\<close>

lemma account_invD:
  assumes "account_inv d"
  shows "events_wf d" and "contiguous (stream d a)" and "e \<in> set (stream d a) \<Longrightarrow> event_ok e"
    and "s \<in> set (event_store_snapshots d) \<Longrightarrow> snapshot_ok d s"
    and "int (length (stream d a)) < snap_version d a + 50"
    and "accounts_projection d a = (if stream d a = [] then None else Some (projection_of a (replayed d a)))"
  using assms unfolding account_inv_def by (auto simp: set_stream)

lemma decode_ok: "\<forall>e\<in>set es. event_ok e \<Longrightarrow> decode_account_events es = Inr (decoded es)"
  by (induction es) (auto simp: decoded_def event_ok_def split: sum.splits)

lemma decoded_take: "decoded (take n es) = take n (decoded es)"
  and decoded_drop: "decoded (drop n es) = drop n (decoded es)"
  by (simp_all add: decoded_def take_map drop_map)

lemma replayed_version: "ac_version (replayed d a) = int (length (stream d a))"
  by (simp add: replayed_def Account_Rehydrate_def account.version_replay decoded_def)

lemma snap_version_nonneg: "account_inv d \<Longrightarrow> 0 \<le> snap_version d a"
  using account_invD(4) [of d] latest_snapshot_Some
  by (auto simp: snap_version_def snapshot_ok_def Let_def split: option.splits)

text \<open>
  The events read after version \<open>v\<close> are the rest of the stream: the limit of 10000 never cuts,
  because there are fewer than 50 of them.
\<close>

lemma read_after_snapshot:
  assumes "account_inv d" and "v = snap_version d a"
  shows "select_stream a v (default_limit 10000) d = drop (nat v) (stream d a)"
proof -
  have v: "0 \<le> v" using snap_version_nonneg [OF assms(1)] assms(2) by simp
  have "filter (\<lambda>e. v < ev_Version e) (stream d a) = drop (nat v) (stream d a)"
    by (rule contiguous_tail [OF account_invD(2) [OF assms(1)] v])
  moreover have "length (drop (nat v) (stream d a)) \<le> nat 10000"
    using account_invD(5) [OF assms(1), of a] assms(2) v by simp
  ultimately show ?thesis by (simp add: select_stream_eq default_limit_def)
qed

lemma LoadAccount_iff:
  assumes inv: "account_inv (db w)"
  shows "LoadAccount a w = (Inr ag, w') \<longleftrightarrow>
     fault w (tick w) = None \<and> fault w (Suc (tick w)) = None \<and>
     ag = replayed (db w) a \<and> w' = w\<lparr>tick := Suc (Suc (tick w))\<rparr>"
proof (cases "latest_snapshot a (db w)")
  case None
  then have "select_stream a 0 (default_limit 10000) (db w) = stream (db w) a"
    using read_after_snapshot [OF inv, of 0 a] by (simp add: snap_version_def)
  moreover have "decode_account_events (stream (db w) a) = Inr (decoded (stream (db w) a))"
    using account_invD(3) [OF inv] by (intro decode_ok) blast
  ultimately show ?thesis
    using None by (auto simp: LoadAccount_def LoadLatestSnapshot_def Store_Read_def go_inv replayed_def)
next
  case (Some s)
  let ?v = "snap_Version s" and ?es = "stream (db w) a"
  have s: "snap_AggregateID s = a" "snapshot_ok (db w) s"
    using latest_snapshot_Some [OF Some] account_invD(4) [OF inv] by auto
  have rd: "select_stream a ?v (default_limit 10000) (db w) = drop (nat ?v) ?es"
    using read_after_snapshot [OF inv, of ?v a] Some by (simp add: snap_version_def)
  have "decode_account_events (drop (nat ?v) ?es) = Inr (decoded (drop (nat ?v) ?es))"
    using account_invD(3) [OF inv] by (intro decode_ok) (auto dest!: in_set_dropD)
  moreover have "Account_RehydrateFromSnapshot
      (Account_Snapshot (Account_Rehydrate (decoded (take (nat ?v) ?es)))) (decoded (drop (nat ?v) ?es)) =
      replayed (db w) a"
    by (simp only: Account_RehydrateFromSnapshot_def Account_Rehydrate_def replayed_def decoded_take
        decoded_drop account.replay_from_prefix)
  ultimately show ?thesis
    using Some s
    by (auto simp: LoadAccount_def LoadLatestSnapshot_def Store_Read_def go_inv rd snapshot_ok_def Let_def)
qed

section \<open>What the handlers do to the database\<close>

definition account_snapshot_row :: "Account \<Rightarrow> id \<Rightarrow> int \<Rightarrow> time \<Rightarrow> Snapshot" where
  "account_snapshot_row ag a ver now =
     \<lparr>snap_AggregateID = a, snap_AggregateType = ''account'', snap_Version = ver, snap_CreatedAt = pg_time now,
      snap_Data = AccountSnapshot_Marshal ((Account_Snapshot ag)\<lparr>as_Version := ver\<rparr>)\<rparr>"

text \<open>The database after the money event \<open>ev\<close> of account \<open>a\<close> in state \<open>ag\<close> has been stored.\<close>

definition money_db ::
    "account_event \<Rightarrow> id \<Rightarrow> Account \<Rightarrow> id \<Rightarrow> time \<Rightarrow> outbox_row \<Rightarrow> account_db \<Rightarrow> account_db" where
  "money_db ev a ag evid snapnow row d =
     (let ver = ac_version ag + 1; d1 = append_db (account_store_event evid a ev ver) d
      in d1\<lparr>event_store_snapshots := event_store_snapshots d @
              (if ver mod 50 = 0 then [account_snapshot_row ag a ver snapnow] else []),
            accounts_projection := (accounts_projection d)
              (a \<mapsto> \<lparr>ap_AccountID = a, ap_CustomerID = ac_customerID ag, ap_Status = ac_status ag, ap_Version = ver\<rparr>),
            outbox_messages := outbox_messages d @ [row]\<rparr>)"

lemma account_repo_inv [go_inv]:
  "AccountProjection_Upsert p w = (Inr u, w') \<longleftrightarrow> fault w (tick w) = None \<and>
     w' = w\<lparr>tick := Suc (tick w),
       db := (db w)\<lparr>accounts_projection := (accounts_projection (db w))(ap_AccountID p \<mapsto> p)\<rparr>\<rparr>"
  "AccountProjection_GetByID a w = (Inr r, w') \<longleftrightarrow> fault w (tick w) = None \<and>
     r = accounts_projection (db w) a \<and> w' = w\<lparr>tick := Suc (tick w)\<rparr>"
  by (auto simp: AccountProjection_Upsert_def AccountProjection_GetByID_def go_inv)

lemma saveAccountSnapshot_inv [go_inv]:
  "saveAccountSnapshot ag a ver w = (Inr u, w') \<longleftrightarrow>
     fault w (Suc (tick w)) = None \<and>
     (\<forall>t\<in>set (event_store_snapshots (db w)). snap_AggregateID t = a \<longrightarrow> snap_Version t \<noteq> ver) \<and>
     w' = w\<lparr>tick := Suc (Suc (tick w)), db := (db w)\<lparr>event_store_snapshots :=
       event_store_snapshots (db w) @ [account_snapshot_row ag a ver (clock w (tick w))]\<rparr>\<rparr>"
  by (auto simp: saveAccountSnapshot_def SaveSnapshot_def go_inv account_snapshot_row_def)

lemma append_db_simps [simp]:
  "event_store_snapshots (append_db e d) = event_store_snapshots d"
  "outbox_messages (append_db e d) = outbox_messages d"
  "accounts_projection (append_db e (d :: account_db)) = accounts_projection d"
  "columns (append_db e d) = columns d"
  by (simp_all add: append_db_def)

lemma store_money_event_success:
  assumes "store_money_event a ag ev w = (Inr u, w')"
  shows "\<exists>evid snapnow mid created now.
     can_append (account_store_event evid a ev (ac_version ag + 1)) (db w) \<and>
     db w' = money_db ev a ag evid snapnow
       (outbox_row_of (account_message mid created a ev (ac_version ag + 1)) now) (db w) \<and>
     peer w' = peer w"
proof -
  let ?ver = "ac_version ag + 1"
  obtain w2 w3 w4 evid mid created w5 where
    app: "Store_Append [account_store_event evid a ev ?ver] (w\<lparr>tick := Suc (tick w)\<rparr>) = (Inr (), w2)" and
    snp: "(if ?ver mod 50 = 0 then saveAccountSnapshot ag a ?ver else returnE ()) w2 = (Inr (), w3)" and
    ups: "AccountProjection_Upsert \<lparr>ap_AccountID = a, ap_CustomerID = ac_customerID ag, ap_Status = ac_status ag,
          ap_Version = ?ver\<rparr> w3 = (Inr (), w4)" and
    enq: "Enqueue (account_message mid created a ev ?ver) w5 = (Inr (), w')" and
    w5: "db w5 = db w4" "peer w5 = peer w4"
    using assms unfolding store_money_event_def Let_def
    by (auto simp: bindE_inv wrapE_inv newID_inv nowUTC_inv)
  have w4: "db w4 = (db w3)\<lparr>accounts_projection := (accounts_projection (db w3))(a \<mapsto>
      \<lparr>ap_AccountID = a, ap_CustomerID = ac_customerID ag, ap_Status = ac_status ag, ap_Version = ?ver\<rparr>)\<rparr>"
    "peer w4 = peer w3"
    using ups by (simp_all add: go_inv)
  have "\<exists>sn. db w3 = (db w2)\<lparr>event_store_snapshots := event_store_snapshots (db w2) @
      (if ?ver mod 50 = 0 then [account_snapshot_row ag a ?ver sn] else [])\<rparr> \<and> peer w3 = peer w2"
    using snp by (auto simp: go_inv split: if_splits)
  then obtain sn where w3: "db w3 = (db w2)\<lparr>event_store_snapshots := event_store_snapshots (db w2) @
      (if ?ver mod 50 = 0 then [account_snapshot_row ag a ?ver sn] else [])\<rparr>" "peer w3 = peer w2" by blast
  have w2: "can_append (account_store_event evid a ev ?ver) (db w)" "peer w2 = peer w"
    "db w2 = append_db (account_store_event evid a ev ?ver) (db w)"
    using app by (simp_all add: go_inv)
  have "db w' = money_db ev a ag evid sn
      (outbox_row_of (account_message mid created a ev ?ver) (sql_clock w5)) (db w)" "peer w' = peer w"
    using enq by (simp_all add: go_inv w5 w4 w3 w2 money_db_def Let_def)
  then show ?thesis using w2 by blast
qed

lemma money_event_tx_success:
  assumes inv: "account_inv (db w)" and run: "money_event_tx mk cmd entryID w = (Inr r, w')"
  shows "\<exists>t evid snapnow mid created now. let a = mc_AccountID cmd; ag = replayed (db w) a;
       ev = mk a (mc_Amount cmd) entryID t in
     ac_status ag = StatusActive \<and> r = (a, entryID) \<and>
     can_append (account_store_event evid a ev (ac_version ag + 1)) (db w) \<and>
     db w' = money_db ev a ag evid snapnow
       (outbox_row_of (account_message mid created a ev (ac_version ag + 1)) now) (db w) \<and>
     peer w' = peer w"
proof -
  let ?a = "mc_AccountID cmd" let ?ag = "replayed (db w) ?a"
  obtain t v where act: "ac_status ?ag = StatusActive" "r = (?a, entryID)" and
    st: "store_money_event ?a ?ag (mk ?a (mc_Amount cmd) entryID t) v = (Inr (), w')" and
    v: "db v = db w" "peer v = peer w"
    using run by (auto simp: money_event_tx_def go_inv LoadAccount_iff [OF inv] split: if_splits)
  show ?thesis using store_money_event_success [OF st] act unfolding Let_def v by blast
qed

section \<open>The handlers keep the invariant\<close>

lemma stream_cong: "event_store_events d' = event_store_events d \<Longrightarrow> stream d' a = stream d a"
  by (simp add: stream_def)

lemma stream_append_next:
  assumes "account_inv d" and "can_append e d"
    and "ev_Version e = int (length (stream d (ev_AggregateID e))) + 1"
  shows "stream (append_db e d) a =
     (if a = ev_AggregateID e then stream d a @ [stored e] else stream d a)"
  using assms account_invD(2) by (intro es.append_next) (auto simp: insert_event_iff)

lemma stream_length_bound: "events_wf d \<Longrightarrow> in_int64 (int (length (stream d a)))"
proof -
  assume wf: "events_wf d"
  have "length (stream d a) \<le> length (event_store_events d)" by (simp add: stream_def le_trans [OF length_filter_le])
  then show ?thesis using events_length [OF wf] wf by (simp add: in_int64_def events_wf_def)
qed

lemma decoded_snoc:
  "decoded (es @ [stored (account_store_event evid a ev ver)]) = decoded es @ [forget_amount ev]"
  by (simp add: decoded_def account_store_event_def account_event_roundtrip)

lemma event_ok_stored: "event_ok (stored (account_store_event evid a ev ver))"
  by (simp add: event_ok_def account_store_event_def account_event_roundtrip)

text \<open>The money event at version \<open>n + 1\<close> of an account with \<open>n\<close> events, and the database then.\<close>

definition next_event :: "account_db \<Rightarrow> id \<Rightarrow> account_event \<Rightarrow> id \<Rightarrow> Event" where
  "next_event d a ev evid = account_store_event evid a ev (ac_version (replayed d a) + 1)"

definition next_db :: "account_db \<Rightarrow> id \<Rightarrow> account_event \<Rightarrow> id \<Rightarrow> time \<Rightarrow> outbox_row \<Rightarrow> account_db" where
  "next_db d a ev evid sn row = money_db ev a (replayed d a) evid sn row d"

lemma next_db_stream:
  assumes "account_inv d" and "can_append (next_event d a ev evid) d"
  shows "stream (next_db d a ev evid sn row) x =
     (if x = a then stream d a @ [stored (next_event d a ev evid)] else stream d x)"
proof -
  have "stream (next_db d a ev evid sn row) x = stream (append_db (next_event d a ev evid) d) x"
    by (rule stream_cong) (simp add: next_db_def money_db_def next_event_def Let_def)
  then show ?thesis
    using stream_append_next [OF assms, of x] by (simp add: next_event_def account_store_event_def replayed_version)
qed

lemma next_db_replayed:
  assumes "account_inv d" and "can_append (next_event d a ev evid) d" and "\<And>x. Account_apply ev x = x"
  shows "replayed (next_db d a ev evid sn row) x =
     (if x = a then (replayed d a)\<lparr>ac_version := ac_version (replayed d a) + 1\<rparr> else replayed d x)"
proof -
  have "Account_step ev x = x\<lparr>ac_version := ac_version x + 1\<rparr>" for x
    by (simp add: Account_step_def assms(3) Let_def)
  then show ?thesis
    by (simp add: replayed_def next_db_stream [OF assms(1,2)] next_event_def decoded_snoc
        Account_Rehydrate_def)
qed

lemma next_db_fields:
  "event_store_events (next_db d a ev evid sn row) = event_store_events (append_db (next_event d a ev evid) d)"
  "event_seq (next_db d a ev evid sn row) = event_seq (append_db (next_event d a ev evid) d)"
  "event_store_snapshots (next_db d a ev evid sn row) = event_store_snapshots d @
     (if (ac_version (replayed d a) + 1) mod 50 = 0
      then [account_snapshot_row (replayed d a) a (ac_version (replayed d a) + 1) sn] else [])"
  "accounts_projection (next_db d a ev evid sn row) = (accounts_projection d)
     (a \<mapsto> projection_of a ((replayed d a)\<lparr>ac_version := ac_version (replayed d a) + 1\<rparr>))"
  by (simp_all add: next_db_def money_db_def Let_def next_event_def projection_of_def)

lemma next_db_snapshot_old:
  assumes "account_inv d" and "can_append (next_event d a ev evid) d" and "snapshot_ok d s"
  shows "snapshot_ok (next_db d a ev evid sn row) s"
  using assms(3) by (auto simp: snapshot_ok_def Let_def next_db_stream [OF assms(1,2)])

lemma next_db_snapshot_new:
  assumes "account_inv d" and "can_append (next_event d a ev evid) d" and "\<And>x. Account_apply ev x = x"
    and "(ac_version (replayed d a) + 1) mod 50 = 0"
  shows "snapshot_ok (next_db d a ev evid sn row)
     (account_snapshot_row (replayed d a) a (ac_version (replayed d a) + 1) sn)"
proof -
  let ?d' = "next_db d a ev evid sn row"
  have len: "int (length (stream ?d' a)) = ac_version (replayed d a) + 1"
    by (simp add: next_db_stream [OF assms(1,2)] replayed_version)
  have "events_wf (append_db (next_event d a ev evid) d)"
    using insert_event_wf [OF account_invD(1) [OF assms(1)]] assms(2) by (metis insert_event_iff)
  then have "in_int64 (int (length (stream (append_db (next_event d a ev evid) d) a)))"
    by (rule stream_length_bound)
  then have "in_int64 (ac_version (replayed d a) + 1)"
    using len stream_cong [of ?d' "append_db (next_event d a ev evid) d" a] by (simp add: next_db_fields)
  moreover have "Account_Rehydrate (decoded (stream ?d' a)) = replayed ?d' a" by (simp add: replayed_def)
  ultimately show ?thesis
    using len assms(4)
    by (simp add: snapshot_ok_def account_snapshot_row_def AccountSnapshot_roundtrip Let_def
        next_db_replayed [OF assms(1-3)] replayed_version Account_Snapshot_def)
qed

lemma next_db_snap_version:
  assumes "account_inv d" and "can_append (next_event d a ev evid) d" and "\<And>x. Account_apply ev x = x"
  shows "int (length (stream (next_db d a ev evid sn row) x)) < snap_version (next_db d a ev evid sn row) x + 50"
proof (cases "(ac_version (replayed d a) + 1) mod 50 = 0")
  case True
  have "snap_Version t < ac_version (replayed d a) + 1"
    if "t \<in> set (event_store_snapshots d)" "snap_AggregateID t = a" for t
    using account_invD(4) [OF assms(1) that(1)] that(2)
    by (simp add: snapshot_ok_def Let_def replayed_version)
  then have "latest_snapshot x (next_db d a ev evid sn row) =
      (if x = a then Some (account_snapshot_row (replayed d a) a (ac_version (replayed d a) + 1) sn)
       else latest_snapshot x d)"
    using latest_snapshot_snoc [of "next_db d a ev evid sn row" d
        "account_snapshot_row (replayed d a) a (ac_version (replayed d a) + 1) sn" x] True
    by (simp add: next_db_fields account_snapshot_row_def)
  then show ?thesis
    using account_invD(5) [OF assms(1), of x]
    by (simp add: snap_version_def next_db_stream [OF assms(1,2)] account_snapshot_row_def replayed_version)
next
  case False
  have eq: "snap_version (next_db d a ev evid sn row) x = snap_version d x"
    using latest_snapshot_cong [of "next_db d a ev evid sn row" d x]
    by (simp add: snap_version_def next_db_fields False)
  have arith: "l + 1 < v + 50" if "v mod 50 = 0" "l < v + 50" "(l + 1) mod 50 \<noteq> 0" for l v :: int
    using that by presburger
  have "snap_version d x mod 50 = 0"
    using account_invD(4) [OF assms(1)] latest_snapshot_Some
    by (auto simp: snap_version_def snapshot_ok_def Let_def split: option.splits)
  moreover have "int (length (stream d x)) < snap_version d x + 50" by (rule account_invD(5) [OF assms(1)])
  moreover have "(int (length (stream d a)) + 1) mod 50 \<noteq> 0" using False by (simp add: replayed_version)
  ultimately show ?thesis
    unfolding eq using arith [of "snap_version d a" "int (length (stream d a))"]
    by (cases "x = a") (simp_all add: next_db_stream [OF assms(1,2)])
qed

lemma account_inv_next:
  assumes inv: "account_inv d" and app: "can_append (next_event d a ev evid) d"
    and money: "\<And>x. Account_apply ev x = x"
  shows "account_inv (next_db d a ev evid sn row)"
proof -
  let ?d' = "next_db d a ev evid sn row" and ?e = "next_event d a ev evid"
  have wf: "events_wf (append_db ?e d)"
    using insert_event_wf [OF account_invD(1) [OF inv]] app by (metis insert_event_iff)
  have "contiguous (stream ?d' x)" for x
    using account_invD(2) [OF inv] contiguous_snoc [of "stream d a" "stored ?e"]
    by (simp add: next_db_stream [OF inv app] next_event_def account_store_event_def replayed_version)
  moreover have "events_wf ?d'"
    using wf by (simp add: events_wf_def next_db_fields)
  moreover have "\<forall>(s, e) \<in> set (event_store_events ?d'). event_ok e"
    using inv by (auto simp: account_inv_def next_db_fields append_db_def next_event_def event_ok_stored)
  moreover have "\<forall>s \<in> set (event_store_snapshots ?d'). snapshot_ok ?d' s"
    using account_invD(4) [OF inv] next_db_snapshot_old [OF inv app] next_db_snapshot_new [OF inv app money]
    by (auto simp: next_db_fields)
  moreover have "\<forall>x. accounts_projection ?d' x =
      (if stream ?d' x = [] then None else Some (projection_of x (replayed ?d' x)))"
    using account_invD(6) [OF inv]
    by (simp add: next_db_fields next_db_stream [OF inv app] next_db_replayed [OF inv app money])
  ultimately show ?thesis
    using next_db_snap_version [OF inv app money] unfolding account_inv_def by blast
qed

subsection \<open>Opening\<close>

definition open_db :: "id \<Rightarrow> id \<Rightarrow> time \<Rightarrow> id \<Rightarrow> outbox_row \<Rightarrow> account_db \<Rightarrow> account_db" where
  "open_db i c t evid row d =
     (append_db (account_store_event evid i (AccountOpened i c t) 1) d)
       \<lparr>accounts_projection := (accounts_projection d)(i \<mapsto>
          \<lparr>ap_AccountID = i, ap_CustomerID = c, ap_Status = StatusActive, ap_Version = 1\<rparr>),
        outbox_messages := outbox_messages d @ [row]\<rparr>"

lemma OpenAccount_prepare_inv [go_inv]:
  "OpenAccount_prepare ag (i, ev) w = (Inr e, w') \<longleftrightarrow>
     fault w (tick w + 3) = None \<and> uuid w (tick w + 1) \<notin> msg_ID ` set (outbox_messages (db w)) \<and>
     e = account_store_event (uuid w (tick w)) (ac_id ag) ev (i + 1) \<and>
     w' = w\<lparr>tick := tick w + 4, db := (db w)\<lparr>outbox_messages := outbox_messages (db w) @
       [outbox_row_of (account_message (uuid w (tick w + 1)) (clock w (tick w + 2)) (ac_id ag) ev (i + 1))
          (sql_clock (w\<lparr>tick := tick w + 3\<rparr>))]\<rparr>\<rparr>"
  by (auto simp: OpenAccount_prepare_def go_inv numeral_eq_Suc account_message_def Let_def)

lemma can_append_outbox [simp]: "can_append e (d\<lparr>outbox_messages := m\<rparr>) = can_append e d"
  by (simp add: can_append_def)

lemma append_db_outbox: "append_db e (d\<lparr>outbox_messages := m\<rparr>) = (append_db e d)\<lparr>outbox_messages := m\<rparr>"
  by (simp add: append_db_def)

lemma NewAccount_inv:
  "NewAccount c w = (Inr ag, w') \<longleftrightarrow> c \<noteq> '''' \<and>
     ag = Account_raise (AccountOpened (uuid w (tick w)) c (clock w (Suc (tick w)))) Account_zero \<and>
     w' = w\<lparr>tick := Suc (Suc (tick w))\<rparr>"
  by (auto simp: NewAccount_def go_inv)

lemma OpenAccount_tx_success:
  assumes "OpenAccount_tx cmd w = (Inr r, w')"
  shows "\<exists>i t evid mid created now. oa_CustomerID cmd \<noteq> '''' \<and> r = (i, 1) \<and>
     can_append (account_store_event evid i (AccountOpened i (oa_CustomerID cmd) t) 1) (db w) \<and>
     db w' = open_db i (oa_CustomerID cmd) t evid
       (outbox_row_of (account_message mid created i (AccountOpened i (oa_CustomerID cmd) t) 1) now) (db w) \<and>
     peer w' = peer w"
proof -
  define c i t where "c = oa_CustomerID cmd" and "i = uuid w (tick w)" and "t = clock w (Suc (tick w))"
  define ev v where "ev = AccountOpened i c t" and "v = w\<lparr>tick := Suc (Suc (tick w))\<rparr>"
  define ag where "ag = \<lparr>ac_id = i, ac_customerID = c, ac_status = StatusActive, ac_version = 1, ac_changes = []\<rparr>"
  have pull: "Account_PullChanges (Account_raise ev Account_zero) = ([ev], ag)"
    by (simp add: Account_PullChanges_def Account_raise_def Account_zero_def ev_def ag_def)
  have c: "c \<noteq> ''''" using assms by (auto simp: OpenAccount_tx_def bindE_inv NewAccount_inv c_def)
  then have new: "NewAccount (oa_CustomerID cmd) w = (Inr (Account_raise ev Account_zero), v)"
    by (simp add: NewAccount_inv ev_def v_def c_def i_def t_def)
  obtain evs w2 w3 where r: "r = (i, 1)" and
    prep: "mapE (OpenAccount_prepare ag) (zip [0..int (length [ev]) - 1] [ev]) v = (Inr evs, w2)" and
    app: "Store_Append evs w2 = (Inr (), w3)" and
    ups: "AccountProjection_Upsert \<lparr>ap_AccountID = i, ap_CustomerID = c, ap_Status = StatusActive, ap_Version = 1\<rparr> w3
      = (Inr (), w')"
    using assms unfolding OpenAccount_tx_def
      bindE_run(1) [of "NewAccount (oa_CustomerID cmd)" w _ v, OF new] pull
    by (auto simp: bindE_inv wrapE_inv returnE_inv ag_def)
  obtain evid mid created now where "evs = [account_store_event evid i ev 1]"
    and w2: "db w2 = (db w)\<lparr>outbox_messages := outbox_messages (db w) @
       [outbox_row_of (account_message mid created i ev 1) now]\<rparr>" "peer w2 = peer w"
    using prep by (auto simp: go_inv v_def ag_def)
  then have "can_append (account_store_event evid i ev 1) (db w)" and
    "db w' = open_db i c t evid (outbox_row_of (account_message mid created i ev 1) now) (db w)"
    "peer w' = peer w"
    using app ups by (auto simp: go_inv w2 open_db_def append_db_outbox ev_def)
  then show ?thesis using c r unfolding c_def ev_def by blast
qed

lemma account_inv_open:
  assumes inv: "account_inv d" and app: "can_append (account_store_event evid i (AccountOpened i c t) 1) d"
  shows "account_inv (open_db i c t evid row d)"
proof -
  let ?e = "account_store_event evid i (AccountOpened i c t) 1" and ?d' = "open_db i c t evid row d"
  have "stream d i = []"
  proof (rule ccontr)
    assume "stream d i \<noteq> []"
    then have "1 \<in> ev_Version ` set (stream d i)"
      using contiguous_versions [OF account_invD(2) [OF inv, of i]] by (simp add: Suc_leI)
    then show False using app by (auto simp: can_append_def account_store_event_def set_stream)
  qed
  then have st: "stream ?d' x = (if x = i then [stored ?e] else stream d x)" for x
    using stream_append_next [OF inv app, of x] stream_cong [of ?d' "append_db ?e d" x]
    by (simp add: account_store_event_def open_db_def)
  have rep: "replayed ?d' x = (if x = i then \<lparr>ac_id = i, ac_customerID = c, ac_status = StatusActive,
      ac_version = 1, ac_changes = []\<rparr> else replayed d x)" for x
    using decoded_snoc [of "[]" evid i "AccountOpened i c t" 1]
    by (simp add: replayed_def st Account_Rehydrate_def Account_step_def Account_zero_def decoded_def)
  have snaps: "event_store_snapshots ?d' = event_store_snapshots d" by (simp add: open_db_def)
  have "events_wf (append_db ?e d)"
    using insert_event_wf [OF account_invD(1) [OF inv]] app by (metis insert_event_iff)
  then have "events_wf ?d'" by (simp add: events_wf_def open_db_def)
  moreover have "contiguous (stream ?d' x)" for x
    using account_invD(2) [OF inv] by (simp add: st contiguous_def account_store_event_def)
  moreover have "\<forall>(s, e) \<in> set (event_store_events ?d'). event_ok e"
    using inv by (auto simp: account_inv_def open_db_def append_db_def event_ok_stored)
  moreover have "\<forall>s \<in> set (event_store_snapshots ?d'). snapshot_ok ?d' s"
    using account_invD(4) [OF inv] \<open>stream d i = []\<close>
    by (fastforce simp: snaps snapshot_ok_def Let_def st)
  moreover have "int (length (stream ?d' x)) < snap_version ?d' x + 50" for x
    using account_invD(5) [OF inv, of x] latest_snapshot_cong [OF snaps, of x] snap_version_nonneg [OF inv, of i]
    by (cases "x = i") (simp_all add: st snap_version_def)
  moreover have "\<forall>x. accounts_projection ?d' x =
      (if stream ?d' x = [] then None else Some (projection_of x (replayed ?d' x)))"
    using account_invD(6) [OF inv] by (simp add: st rep) (simp add: open_db_def projection_of_def)
  ultimately show ?thesis unfolding account_inv_def by blast
qed

subsection \<open>Deposits and withdrawals\<close>

text \<open>Both handlers, in the entry type and the event.\<close>

definition money_handle ::
    "'p ledger_post \<Rightarrow> string \<Rightarrow> (id \<Rightarrow> Money \<Rightarrow> id \<Rightarrow> time \<Rightarrow> account_event) \<Rightarrow> MoneyCommand \<Rightarrow>
     (account_db, 'p, id \<times> id) go" where
  "money_handle post typ mk cmd =
     (if mc_AccountID cmd = '''' then throwE (ErrorString ''account id required'')
      else if mc_IdempotencyKey cmd = '''' then throwE (ErrorString ''idempotency key required'')
      else case ValidateNGNAmountPositive (mc_Amount cmd) of
        Some err \<Rightarrow> throwE err
      | None \<Rightarrow>
          bindE (callPeer (post (mc_IdempotencyKey cmd) (mc_AccountID cmd) typ (mc_Amount cmd) (mc_Narration cmd)))
            (\<lambda>entryID. withTx rollback (money_event_tx mk cmd entryID)))"

lemma handlers_money:
  "DepositMoneyHandler_Handle post = money_handle post LedgerEntryTypeDeposit MoneyDeposited"
  "WithdrawMoneyHandler_Handle post = money_handle post LedgerEntryTypeWithdrawal MoneyWithdrawn"
  by (simp_all add: fun_eq_iff DepositMoneyHandler_Handle_def WithdrawMoneyHandler_Handle_def money_handle_def)

lemma seq_mono_account [seq_mono_intro]:
  "seq_mono (AccountProjection_Upsert p)" "seq_mono (LoadAccount a)" "seq_mono (saveAccountSnapshot ag a v)"
  "seq_mono (store_money_event a ag ev)" "seq_mono (money_event_tx mk cmd e)" "seq_mono (OpenAccount_prepare ag q)"
  "seq_mono (NewAccount c)" "seq_mono (OpenAccount_tx oc)"
  by (auto simp: AccountProjection_Upsert_def LoadAccount_def saveAccountSnapshot_def store_money_event_def
      money_event_tx_def OpenAccount_prepare_def NewAccount_def OpenAccount_tx_def Let_def
      intro!: seq_mono_intro split: option.splits prod.splits)

lemma local_account [local_intro]:
  "local_op (AccountProjection_Upsert p)" "local_op (LoadAccount a)" "local_op (saveAccountSnapshot ag a v)"
  "local_op (store_money_event a ag ev)" "local_op (money_event_tx mk cmd e)"
  by (auto simp: AccountProjection_Upsert_def LoadAccount_def saveAccountSnapshot_def store_money_event_def
      money_event_tx_def Let_def intro!: local_intro split: option.splits)

lemma account_inv_seq: "account_inv d \<Longrightarrow> seq_le (event_seq d) n \<Longrightarrow> account_inv (d\<lparr>event_seq := n\<rparr>)"
proof -
  assume a: "account_inv d" "seq_le (event_seq d) n"
  have "stream (d\<lparr>event_seq := n\<rparr>) x = stream d x" "latest_snapshot x (d\<lparr>event_seq := n\<rparr>) = latest_snapshot x d" for x
    by (simp_all add: stream_def latest_snapshot_def)
  then show ?thesis
    using a events_wf_seq [of d n]
    by (simp add: account_inv_def snapshot_ok_def snap_version_def replayed_def)
qed

text \<open>A handler that fails changes its own database in nothing but unused sequence numbers.\<close>

lemma money_handle_error:
  assumes "money_handle post typ mk cmd w = (Inl e, w')"
  shows "\<exists>n. seq_le (event_seq (db w)) n \<and> db w' = (db w)\<lparr>event_seq := n\<rparr>"
    and "peer w' = peer w \<or>
      peer w' = snd (post (mc_IdempotencyKey cmd) (mc_AccountID cmd) typ (mc_Amount cmd) (mc_Narration cmd) (peer w))"
proof -
  let ?post = "post (mc_IdempotencyKey cmd) (mc_AccountID cmd) typ (mc_Amount cmd) (mc_Narration cmd)"
  obtain r p where rp: "?post (peer w) = (r, p)" by fastforce
  have refl: "\<exists>n. seq_le (event_seq (db w)) n \<and> db w = (db w)\<lparr>event_seq := n\<rparr>"
    by (rule exI [of _ "event_seq (db w)"]) simp
  have "w' = w \<or> (\<exists>e'. r = Inl e' \<and> w' = w\<lparr>peer := p\<rparr>) \<or>
      (\<exists>eid. r = Inr eid \<and> withTx rollback (money_event_tx mk cmd eid) (w\<lparr>peer := p\<rparr>) = (Inl e, w'))"
    using assms
    by (auto simp: money_handle_def throwE_def bindE_def callPeer_def rp split: if_splits option.splits sum.splits)
  then show "\<exists>n. seq_le (event_seq (db w)) n \<and> db w' = (db w)\<lparr>event_seq := n\<rparr>" and
    "peer w' = peer w \<or> peer w' = snd (?post (peer w))"
    using withTx_rollback_error [OF seq_mono_account(5)] refl
      local_opD [OF local_withTx [OF local_account(5)]] by (fastforce simp: rp)+
qed

lemma money_handle_success:
  assumes inv: "account_inv (db w)" and run: "money_handle post typ mk cmd w = (Inr r, w')"
  shows "\<exists>eid t evid sn row.
     post (mc_IdempotencyKey cmd) (mc_AccountID cmd) typ (mc_Amount cmd) (mc_Narration cmd) (peer w) = (Inr eid, peer w') \<and>
     r = (mc_AccountID cmd, eid) \<and> ac_status (replayed (db w) (mc_AccountID cmd)) = StatusActive \<and>
     can_append (next_event (db w) (mc_AccountID cmd) (mk (mc_AccountID cmd) (mc_Amount cmd) eid t) evid) (db w) \<and>
     db w' = next_db (db w) (mc_AccountID cmd) (mk (mc_AccountID cmd) (mc_Amount cmd) eid t) evid sn row"
proof -
  obtain eid p v where
    post: "post (mc_IdempotencyKey cmd) (mc_AccountID cmd) typ (mc_Amount cmd) (mc_Narration cmd) (peer w) = (Inr eid, p)" and
    tx: "money_event_tx mk cmd eid
      (w\<lparr>peer := p, tick := Suc (tick w), txtime := Some (clock w (tick w))\<rparr>) = (Inr r, v)" and
    w': "w' = v\<lparr>tick := Suc (tick v), txtime := txtime w\<rparr>"
    using run by (auto simp: money_handle_def go_inv split: if_splits option.splits)
  show ?thesis
    using money_event_tx_success [OF _ tx] inv post w'
    by (auto simp: Let_def next_db_def next_event_def)
qed

lemma account_inv_money_handle:
  assumes "account_inv (db w)" and "money_handle post typ mk cmd w = (r, w')"
    and "\<And>i m e t x. Account_apply (mk i m e t) x = x"
  shows "account_inv (db w')"
proof (cases r)
  case (Inl e)
  then show ?thesis using money_handle_error(1) assms(1,2) account_inv_seq by metis
next
  case (Inr x)
  then show ?thesis using money_handle_success assms account_inv_next by metis
qed

lemma account_inv_OpenAccount:
  assumes inv: "account_inv (db w)" and run: "OpenAccountHandler_Handle cmd w = (r, w')"
  shows "account_inv (db w')"
proof (cases r)
  case (Inl e)
  have "w' = w \<or> withTx rollback (OpenAccount_tx cmd) w = (Inl e, w')"
    using run Inl by (auto simp: OpenAccountHandler_Handle_def throwE_def split: if_splits)
  then show ?thesis
    using withTx_rollback_error [OF seq_mono_account(8)] inv account_inv_seq by metis
next
  case (Inr x)
  then obtain v where tx: "OpenAccount_tx cmd (w\<lparr>tick := Suc (tick w), txtime := Some (clock w (tick w))\<rparr>) = (Inr x, v)"
    and "db w' = db v"
    using run by (auto simp: OpenAccountHandler_Handle_def go_inv split: if_splits)
  then show ?thesis using OpenAccount_tx_success [OF tx] account_inv_open [of "db w"] inv by auto
qed

end
