(* ===== verification/GoStrings.thy ===== *)
theory GoStrings
  imports Prelude
begin

text \<open>
  The functions of Go's \<open>strings\<close> package that the services use on input, on strings as
  their UTF-8 bytes: \<open>TrimSpace\<close> removes the encodings of the Unicode white space
  characters at both ends, \<open>HasPrefix\<close>, \<open>HasSuffix\<close>, \<open>TrimPrefix\<close> and \<open>Split\<close> are as
  documented.
\<close>

text \<open>U+0009..000D, U+0020, U+0085, U+00A0, U+1680, U+2000..200A, U+2028, U+2029, U+202F, U+205F, U+3000.\<close>

definition white_space :: "string list" where
  "white_space =
     [[CHR 0x09], [CHR 0x0A], [CHR 0x0B], [CHR 0x0C], [CHR 0x0D], [CHR 0x20],
      [CHR 0xC2, CHR 0x85], [CHR 0xC2, CHR 0xA0], [CHR 0xE1, CHR 0x9A, CHR 0x80],
      [CHR 0xE2, CHR 0x80, CHR 0x80], [CHR 0xE2, CHR 0x80, CHR 0x81], [CHR 0xE2, CHR 0x80, CHR 0x82],
      [CHR 0xE2, CHR 0x80, CHR 0x83], [CHR 0xE2, CHR 0x80, CHR 0x84], [CHR 0xE2, CHR 0x80, CHR 0x85],
      [CHR 0xE2, CHR 0x80, CHR 0x86], [CHR 0xE2, CHR 0x80, CHR 0x87], [CHR 0xE2, CHR 0x80, CHR 0x88],
      [CHR 0xE2, CHR 0x80, CHR 0x89], [CHR 0xE2, CHR 0x80, CHR 0x8A], [CHR 0xE2, CHR 0x80, CHR 0xA8],
      [CHR 0xE2, CHR 0x80, CHR 0xA9], [CHR 0xE2, CHR 0x80, CHR 0xAF], [CHR 0xE2, CHR 0x81, CHR 0x9F],
      [CHR 0xE3, CHR 0x80, CHR 0x80]]"

definition HasPrefix :: "string \<Rightarrow> string \<Rightarrow> bool" where
  "HasPrefix s p \<longleftrightarrow> take (length p) s = p"

definition HasSuffix :: "string \<Rightarrow> string \<Rightarrow> bool" where
  "HasSuffix s p \<longleftrightarrow> HasPrefix (rev s) (rev p)"

definition TrimPrefix :: "string \<Rightarrow> string \<Rightarrow> string" where
  "TrimPrefix s p = (if HasPrefix s p then drop (length p) s else s)"

function trim_left :: "string list \<Rightarrow> string \<Rightarrow> string" where
  "trim_left ws s =
     (case find (\<lambda>w. w \<noteq> [] \<and> HasPrefix s w) ws of
        None \<Rightarrow> s
      | Some w \<Rightarrow> trim_left ws (drop (length w) s))"
  by pat_completeness auto
termination
proof (relation "measure (\<lambda>(ws, s). length s)")
  fix ws s w
  assume "find (\<lambda>w. w \<noteq> [] \<and> HasPrefix s w) ws = Some w"
  then have "w \<noteq> []" and "HasPrefix s w" by (auto simp: find_Some_iff)
  then have "s \<noteq> []" by (auto simp: HasPrefix_def)
  then show "((ws, drop (length w) s), (ws, s)) \<in> measure (\<lambda>(ws, s). length s)"
    using \<open>w \<noteq> []\<close> by simp
qed simp

declare trim_left.simps [simp del]

definition TrimSpace :: "string \<Rightarrow> string" where
  "TrimSpace s = rev (trim_left (map rev white_space) (rev (trim_left white_space s)))"

text \<open>\<open>strings.ToLower\<close> on ASCII letters; the code lowers only schemes and header names.\<close>

definition lower_char :: "char \<Rightarrow> char" where
  "lower_char c = (let n = of_char c :: nat in if 65 \<le> n \<and> n \<le> 90 then char_of (n + 32) else c)"

definition ToLower :: "string \<Rightarrow> string" where
  "ToLower s = map lower_char s"

text \<open>\<open>strings.Split(s, c)\<close> for a one-character separator.\<close>

primrec split_on :: "char \<Rightarrow> string \<Rightarrow> string list" where
  "split_on c [] = [[]]"
| "split_on c (x # xs) =
     (if x = c then [] # split_on c xs
      else (x # hd (split_on c xs)) # tl (split_on c xs))"

section \<open>Facts\<close>

lemma trim_left_Nil [simp]: "trim_left ws [] = []"
  by (subst trim_left.simps) (auto simp: HasPrefix_def find_Some_iff split: option.splits)

lemma TrimSpace_Nil [simp]: "TrimSpace [] = []"
  by (simp add: TrimSpace_def)

lemma trim_left_suffix: "\<exists>p. s = p @ trim_left ws s"
proof (induction ws s rule: trim_left.induct)
  case (1 ws s)
  show ?case
  proof (cases "find (\<lambda>w. w \<noteq> [] \<and> HasPrefix s w) ws")
    case None
    then show ?thesis by (subst trim_left.simps) simp
  next
    case (Some w)
    then obtain p where p: "drop (length w) s = p @ trim_left ws (drop (length w) s)"
      using 1 by blast
    have "trim_left ws s = trim_left ws (drop (length w) s)"
      by (subst trim_left.simps) (simp add: Some)
    then have "s = (take (length w) s @ p) @ trim_left ws s"
      using p by (simp add: append_eq_conv_conj)
    then show ?thesis by (rule exI)
  qed
qed

text \<open>Trimming stops exactly where no member of the list is a prefix any more.\<close>

lemma trim_left_stops: "w \<in> set ws \<Longrightarrow> w \<noteq> [] \<Longrightarrow> \<not> HasPrefix (trim_left ws s) w"
proof (induction ws s rule: trim_left.induct)
  case (1 ws s)
  then show ?case
    by (subst trim_left.simps) (auto simp: find_None_iff split: option.splits)
qed

lemma trim_left_id: "(\<And>w. w \<in> set ws \<Longrightarrow> w \<noteq> [] \<Longrightarrow> \<not> HasPrefix s w) \<Longrightarrow> trim_left ws s = s"
  by (subst trim_left.simps) (auto simp: find_Some_iff set_conv_nth split: option.splits)

lemma white_space_nonempty: "w \<in> set white_space \<Longrightarrow> w \<noteq> []"
  by (auto simp: white_space_def)

lemma HasPrefix_append: "HasPrefix s p \<Longrightarrow> HasPrefix (s @ t) p"
  by (cases "length p \<le> length s") (auto simp: HasPrefix_def)

text \<open>Trimming twice is trimming once.\<close>

lemma TrimSpace_idem: "TrimSpace (TrimSpace s) = TrimSpace s"
proof -
  let ?l = "trim_left white_space s" and ?rw = "map rev white_space"
  let ?t = "TrimSpace s"
  obtain p where "rev ?l = p @ trim_left ?rw (rev ?l)" using trim_left_suffix by blast
  then have l: "?l = ?t @ rev p" unfolding TrimSpace_def by (metis rev_append rev_rev_ident)
  have "trim_left white_space ?t = ?t"
    by (rule trim_left_id) (metis l HasPrefix_append trim_left_stops)
  moreover have "trim_left ?rw (rev ?t) = rev ?t"
    by (rule trim_left_id) (simp add: TrimSpace_def trim_left_stops)
  ultimately show ?thesis by (subst TrimSpace_def) simp
qed

text \<open>Joining the parts of a split gives the string back.\<close>

lemma split_on_nonempty: "split_on c s \<noteq> []"
  by (induction s) auto

section \<open>Fields\<close>

text \<open>\<open>strings.Fields\<close>: the maximal runs without white space.\<close>

fun until_space :: "string \<Rightarrow> string \<times> string" where
  "until_space [] = ([], [])"
| "until_space (c # cs) =
     (if list_ex (HasPrefix (c # cs)) white_space then ([], c # cs)
      else (c # fst (until_space cs), snd (until_space cs)))"

lemma until_space_length: "length (snd (until_space s)) \<le> length s"
  by (induction s rule: until_space.induct) auto

function Fields :: "string \<Rightarrow> string list" where
  "Fields s =
     (case trim_left white_space s of
        [] \<Rightarrow> []
      | c # cs \<Rightarrow> (c # fst (until_space cs)) # Fields (snd (until_space cs)))"
  by pat_completeness auto
termination
proof (relation "measure length")
  fix s c cs
  assume "trim_left white_space s = c # cs"
  then have "length cs < length s" using trim_left_suffix [of s white_space] by (metis length_append le_add2 length_Cons Suc_le_eq)
  then show "(snd (until_space cs), s) \<in> measure length"
    using until_space_length [of cs] by simp
qed simp

declare Fields.simps [simp del]

end
