(* ===== verification/LedgerServer.thy ===== *)
theory LedgerServer
  imports LedgerProps GoStrings
begin

text \<open>
  The ledger's gRPC server \<open>src/services/ledger-service/infrastructure/grpc/server.go\<close> and the
  balance query \<open>infrastructure/postgres/balance_query.go\<close>, which waits until the log has reached
  the sequence number a client has seen before it reads the balance. Absent messages of a
  request are \<open>None\<close>; the enumeration values are their numbers.
\<close>

section \<open>Messages\<close>

record MoneyMsg =
  mm_Currency :: string
  mm_AmountKobo :: int64

record PostEntryRequest =
  per_IdempotencyKey :: string
  per_Account :: "string option"
  per_EntryType :: int
  per_Amount :: "MoneyMsg option"
  per_Narration :: string

definition ENTRY_TYPE_DEPOSIT :: int where
  "ENTRY_TYPE_DEPOSIT = 1"

definition ENTRY_TYPE_WITHDRAWAL :: int where
  "ENTRY_TYPE_WITHDRAWAL = 2"

section \<open>Posting\<close>

definition Server_PostEntry :: "PostEntryRequest option \<Rightarrow> (ledger_db, 'p, id) go" where
  "Server_PostEntry request =
     (case request of
        None \<Rightarrow> throwE (ErrorString ''request required'')
      | Some req \<Rightarrow>
          (case per_Account req of
             None \<Rightarrow> throwE (ErrorString ''account_id required'')
           | Some accountId \<Rightarrow>
               if TrimSpace accountId = '''' then throwE (ErrorString ''account_id required'')
               else (case per_Amount req of
                 None \<Rightarrow> throwE (ErrorString ''amount required'')
               | Some m \<Rightarrow>
                   bindE (liftE (Money_New (mm_AmountKobo m) (mm_Currency m))) (\<lambda>amt.
                   bindE (if per_EntryType req = ENTRY_TYPE_DEPOSIT then returnE EntryTypeDeposit
                          else if per_EntryType req = ENTRY_TYPE_WITHDRAWAL then returnE EntryTypeWithdrawal
                          else throwE (ErrorString ''unsupported entry type'')) (\<lambda>typ.
                   PostEntryHandler_Handle
                     \<lparr>pe_IdempotencyKey = per_IdempotencyKey req, pe_AccountID = accountId, pe_Type = typ,
                      pe_Amount = amt, pe_Narration = per_Narration req, pe_OccurredAtUTC = 0\<rparr>)))))"

section \<open>Reading a balance\<close>

text \<open>
  What the \<open>select\<close> of the wait loop can receive: the end of the request's context, the
  two-second timeout, or a tick of the 50 ms ticker. Before a tick other processes may have
  committed to the database, which the tick carries as a function. \<open>wait_lsn\<close> is the loop over
  the events it receives; it yields \<open>True\<close> at \<open>goto READY\<close> and \<open>False\<close> while it still waits.
\<close>

datatype wait_event = CtxDone go_error | TimeoutFired | Tick "ledger_db \<Rightarrow> ledger_db"

definition current_lsn :: "ledger_db \<Rightarrow> int" where
  "current_lsn d =
     (case sort_key (\<lambda>s. - s) (map fst (event_store_events d)) of [] \<Rightarrow> 0 | s # _ \<Rightarrow> s)"

definition commit_others :: "(ledger_db \<Rightarrow> ledger_db) \<Rightarrow> (ledger_db, 'p, unit) go" where
  "commit_others f = (\<lambda>w. (Inr (), w\<lparr>db := f (db w)\<rparr>))"

primrec wait_lsn :: "64 word \<Rightarrow> wait_event list \<Rightarrow> (ledger_db, 'p, bool) go" where
  "wait_lsn requiredLSN [] = returnE False"
| "wait_lsn requiredLSN (ev # evs) =
     (case ev of
        CtxDone err \<Rightarrow> throwE err
      | TimeoutFired \<Rightarrow> throwE (ErrorString ''timeout waiting for causal consistency'')
      | Tick others \<Rightarrow>
          bindE (commit_others others) (\<lambda>_.
          bindE (sql (\<lambda>d. Inr (current_lsn d, d))) (\<lambda>currentLSN.
          if requiredLSN \<le> (word_of_int currentLSN :: 64 word) then returnE True
          else wait_lsn requiredLSN evs)))"

text \<open>The balance, or \<open>None\<close> while the call has not returned.\<close>

definition BalanceQuery_GetBalanceKobo ::
    "64 word \<Rightarrow> wait_event list \<Rightarrow> id \<Rightarrow> int \<Rightarrow> (ledger_db, 'p, int64 option) go" where
  "BalanceQuery_GetBalanceKobo requiredLSN evs accountID version =
     bindE (if requiredLSN \<noteq> 0 then wait_lsn requiredLSN evs else returnE True) (\<lambda>ready.
     if \<not> ready then returnE None
     else sql (\<lambda>d. Inr (Some (case ledger_account_balances d (accountID, version) of
            None \<Rightarrow> 0 | Some b \<Rightarrow> b), d)))"

definition Server_GetBalance ::
    "64 word \<Rightarrow> wait_event list \<Rightarrow> string option option \<Rightarrow> (ledger_db, 'p, MoneyMsg option) go" where
  "Server_GetBalance requiredLSN evs request =
     (case request of
        None \<Rightarrow> throwE (ErrorString ''request required'')
      | Some account \<Rightarrow>
          (case account of
             None \<Rightarrow> throwE (ErrorString ''account_id required'')
           | Some accountId \<Rightarrow>
               if TrimSpace accountId = '''' then throwE (ErrorString ''account_id required'')
               else
                 bindE (BalanceQuery_GetBalanceKobo requiredLSN evs accountId 1) (\<lambda>bal.
                 returnE (map_option (\<lambda>b. \<lparr>mm_Currency = ''NGN'', mm_AmountKobo = b\<rparr>) bal))))"

section \<open>Facts\<close>

lemma current_lsn_ge: "(s, e) \<in> set (event_store_events d) \<Longrightarrow> s \<le> current_lsn d"
proof -
  assume m: "(s, e) \<in> set (event_store_events d)"
  obtain t ts where t: "sort_key (\<lambda>s. - s) (map fst (event_store_events d)) = t # ts"
    using m by (cases "sort_key (\<lambda>s. - s) (map fst (event_store_events d))")
      (auto dest: arg_cong [where f = set])
  have "sorted (map (\<lambda>s. - s) (t # ts))" unfolding t [symmetric] by simp
  moreover have "s \<in> set (t # ts)" unfolding t [symmetric] using m by force
  ultimately show ?thesis by (auto simp: current_lsn_def t)
qed

lemma current_lsn_member:
  "event_store_events d \<noteq> [] \<Longrightarrow> current_lsn d \<in> fst ` set (event_store_events d)"
  unfolding current_lsn_def
  by (cases "sort_key (\<lambda>s. - s) (map fst (event_store_events d))")
     (auto dest: arg_cong [where f = set])

lemma wait_lsn_ready:
  "wait_lsn requiredLSN evs w = (Inr True, w') \<Longrightarrow> requiredLSN \<le> (word_of_int (current_lsn (db w')) :: 64 word)"
  by (induction evs arbitrary: w)
     (auto simp: go_inv commit_others_def split: wait_event.splits if_splits)

text \<open>The server hands a well-formed request to the handler unchanged.\<close>

lemma Server_PostEntry_handle:
  assumes "TrimSpace accountId \<noteq> ''''" and "cur \<noteq> ''''"
  shows "Server_PostEntry (Some \<lparr>per_IdempotencyKey = key, per_Account = Some accountId,
      per_EntryType = (if withdrawal then ENTRY_TYPE_WITHDRAWAL else ENTRY_TYPE_DEPOSIT),
      per_Amount = Some \<lparr>mm_Currency = cur, mm_AmountKobo = amt\<rparr>, per_Narration = nar\<rparr>) =
    PostEntryHandler_Handle \<lparr>pe_IdempotencyKey = key, pe_AccountID = accountId,
      pe_Type = (if withdrawal then EntryTypeWithdrawal else EntryTypeDeposit),
      pe_Amount = \<lparr>amountKobo = amt, currency = cur\<rparr>, pe_Narration = nar, pe_OccurredAtUTC = 0\<rparr>"
  using assms
  by (auto simp: Server_PostEntry_def Money_New_def ENTRY_TYPE_DEPOSIT_def ENTRY_TYPE_WITHDRAWAL_def
      fun_eq_iff bindE_def liftE_def returnE_def)

section \<open>Properties\<close>

text \<open>
  C9. Reads are causally consistent: when a balance request that carries a non-zero sequence number
  is answered, the log holds an event with that or a later number at that moment, and the
  answer is the sum of all postings of the account in that log. This is for every sequence of
  ticks and of commits by other processes that keep the ledger invariant.
\<close>

theorem GetBalance_causal:
  assumes "BalanceQuery_GetBalanceKobo requiredLSN evs a 1 w = (Inr (Some b), w')"
    and "requiredLSN \<noteq> 0" and "ledger_inv (db w')"
  shows "(\<exists>s e. (s, e) \<in> set (event_store_events (db w')) \<and> uint requiredLSN \<le> s) \<and>
     sint b = log_balance (event_store_events (db w')) a"
proof -
  from assms(1,2) obtain v where wait: "wait_lsn requiredLSN evs v = (Inr True, w'\<lparr>tick := tick w' - 1\<rparr>)"
    and b: "b = balance_row (db w') 1 a"
    by (force simp: BalanceQuery_GetBalanceKobo_def go_inv balance_row_def split: if_splits)
  let ?l = "current_lsn (db w')"
  have le: "requiredLSN \<le> (word_of_int ?l :: 64 word)"
    using wait_lsn_ready [OF wait] by simp
  have "event_store_events (db w') \<noteq> []"
  proof
    assume "event_store_events (db w') = []"
    then show False using le assms(2) by (simp add: current_lsn_def)
  qed
  then obtain e where e: "(?l, e) \<in> set (event_store_events (db w'))"
    using current_lsn_member by fastforce
  then have "0 < ?l" "?l < 2 ^ 64"
    using ledger_invD(1) [OF assms(3)] by (auto simp: events_wf_def)
  then have "uint (word_of_int ?l :: 64 word) = ?l" by (simp add: uint_word_of_int)
  then have "uint requiredLSN \<le> ?l" using le by (simp add: word_le_def)
  then show ?thesis
    using e b ledger_invD(2) [OF assms(3), of a] by (auto simp: balance_def)
qed

theorem GetBalance_causal_witness:
  "sint (100 :: int64) = log_balance (event_store_events (db sample_funded)) ''acc-1''"
proof -
  let ?r = "BalanceQuery_GetBalanceKobo 1 [Tick (\<lambda>d. d)] ''acc-1'' 1 sample_funded"
  have "current_lsn (db sample_funded) = 1"
    by (simp add: current_lsn_def ledger_empty_def ledger_migrated_def)
  then have r: "?r = (Inr (Some 100), sample_funded\<lparr>tick := 15\<rparr>)"
    by (simp add: BalanceQuery_GetBalanceKobo_def commit_others_def bindE_def sql_def sql_now_def Let_def
        returnE_def) (simp add: sample_funded_def sample_post_succeeds post_db_def posting_delta_def)
  show ?thesis using GetBalance_causal [OF r] sample_funded_inv by simp
qed

end
