(* ===== verification/Authz.thy ===== *)
theory Authz
  imports Prelude GoStrings "HOL-Library.Multiset"
begin

text \<open>
  The authorization interceptor of the gRPC services,
  \<open>src/pkg/security/middleware/grpc.go\<close>, and the token payload of
  \<open>src/pkg/security/token.go\<close>. Token verification (\<open>security.TokenMaker\<close>), the SPIFFE parsers
  (\<open>spiffeid.FromURI\<close>, \<open>spiffeid.FromString\<close>) and the value of \<open>GATEWAY_SPIFFE_ID\<close> are
  parameters. A Go map is an association list in the order in which \<open>range\<close> visits it, so a
  statement about all orders covers Go's random iteration order.
\<close>

section \<open>Requests\<close>

record TokenPayload =
  tp_UserID :: string
  tp_Roles :: "string list"
  tp_Permissions :: "string list"
  tp_LSN :: "64 word"
  tp_IssuedAt :: time
  tp_ExpiredAt :: time

text \<open>
  What the interceptor reads of a call: the incoming metadata (\<open>None\<close> when the context has none;
  its keys are lower case), and the peer: whether it is known, whether its authentication info
  is a \<open>credentials.TLSInfo\<close>, the TLS version and the URIs of the peer certificates, leaf first.
\<close>

record tls_info =
  tls_Version :: nat
  tls_PeerCertificates :: "string option list option list"

record call_ctx =
  cc_metadata :: "(string \<Rightarrow> string list) option"
  cc_peer :: "tls_info option option"

definition MD_Get :: "(string \<Rightarrow> string list) \<Rightarrow> string \<Rightarrow> string list" where
  "MD_Get md k = md (ToLower k)"

fun firstMDValue :: "(string \<Rightarrow> string list) \<Rightarrow> string list \<Rightarrow> string" where
  "firstMDValue md [] = ''''"
| "firstMDValue md (k # ks) = (case MD_Get md k of [] \<Rightarrow> firstMDValue md ks | v # _ \<Rightarrow> v)"

definition splitCSV :: "string \<Rightarrow> string list" where
  "splitCSV v =
     (let v = TrimSpace v
      in if v = '''' then [] else filter (\<lambda>p. p \<noteq> '''') (map TrimSpace (split_on (CHR 0x2C) v)))"

definition digit_value :: "char \<Rightarrow> nat option" where
  "digit_value c = (let n = of_char c :: nat in if 48 \<le> n \<and> n \<le> 57 then Some (n - 48) else None)"

fun digits_value :: "nat \<Rightarrow> string \<Rightarrow> nat option" where
  "digits_value acc [] = Some acc"
| "digits_value acc (c # cs) =
     (case digit_value c of None \<Rightarrow> None | Some d \<Rightarrow> digits_value (10 * acc + d) cs)"

text \<open>\<open>strconv.ParseUint(s, 10, 64)\<close>; \<open>None\<close> is a syntax or a range error.\<close>

definition ParseUint :: "string \<Rightarrow> 64 word option" where
  "ParseUint s =
     (if s = '''' then None
      else case digits_value 0 s of
        None \<Rightarrow> None
      | Some n \<Rightarrow> if n < 2 ^ 64 then Some (of_nat n) else None)"

section \<open>The peer's identity\<close>

text \<open>\<open>spiffeIDFromLeafCert\<close>: the first URI of the certificate that parses.\<close>

primrec spiffeIDFromLeafCert :: "(string \<Rightarrow> 'i option) \<Rightarrow> string option list \<Rightarrow> 'i option" where
  "spiffeIDFromLeafCert FromURI [] = None"
| "spiffeIDFromLeafCert FromURI (uri # uris) =
     (case uri of
        None \<Rightarrow> spiffeIDFromLeafCert FromURI uris
      | Some u \<Rightarrow> (case FromURI u of Some i \<Rightarrow> Some i | None \<Rightarrow> spiffeIDFromLeafCert FromURI uris))"

definition peerSpiffeIDFromContext :: "(string \<Rightarrow> 'i option) \<Rightarrow> call_ctx \<Rightarrow> 'i option" where
  "peerSpiffeIDFromContext FromURI ctx =
     (case cc_peer ctx of
        None \<Rightarrow> None
      | Some None \<Rightarrow> None
      | Some (Some tls) \<Rightarrow>
          if tls_Version tls = 0 then None
          else (case tls_PeerCertificates tls of
            [] \<Rightarrow> None
          | leaf # _ \<Rightarrow> (case leaf of None \<Rightarrow> None | Some uris \<Rightarrow> spiffeIDFromLeafCert FromURI uris)))"

definition gatewaySpiffeIDFromEnv :: "string \<Rightarrow> string" where
  "gatewaySpiffeIDFromEnv env =
     (let v = TrimSpace env
      in if v = '''' then ''spiffe://fincore.local/ns/default/sa/api-gateway'' else v)"

text \<open>
  The environment of the interceptor: the token verifier, the two parsers and the variable
  \<open>GATEWAY_SPIFFE_ID\<close>.
\<close>

record 'i authz_env =
  az_VerifyToken :: "string \<Rightarrow> go_error + TokenPayload"
  az_FromURI :: "string \<Rightarrow> 'i option"
  az_FromString :: "string \<Rightarrow> 'i option"
  az_GatewayEnv :: string

definition payloadFromGatewayHeaders :: "'i authz_env \<Rightarrow> call_ctx \<Rightarrow> TokenPayload option" where
  "payloadFromGatewayHeaders env ctx =
     (case cc_metadata ctx of
        None \<Rightarrow> None
      | Some md \<Rightarrow>
          let subject = TrimSpace (firstMDValue md [''x-fincore-subject'', ''X-Fincore-Subject'']) in
          if subject = '''' then None
          else (case peerSpiffeIDFromContext (az_FromURI env) ctx of
            None \<Rightarrow> None
          | Some peerID \<Rightarrow>
              (case az_FromString env (gatewaySpiffeIDFromEnv (az_GatewayEnv env)) of
                 None \<Rightarrow> None
               | Some allowed \<Rightarrow>
                   if peerID \<noteq> allowed then None
                   else
                     let roles = splitCSV (firstMDValue md [''x-fincore-roles'', ''X-Fincore-Roles'']);
                         perms = splitCSV (firstMDValue md [''x-fincore-permissions'', ''X-Fincore-Permissions'']);
                         lsnStr = firstMDValue md [''x-fincore-lsn'', ''X-Fincore-LSN''];
                         lsn = (if lsnStr \<noteq> '''' then (case ParseUint lsnStr of Some v \<Rightarrow> v | None \<Rightarrow> 0) else 0)
                     in Some \<lparr>tp_UserID = subject, tp_Roles = roles, tp_Permissions = perms, tp_LSN = lsn,
                              tp_IssuedAt = 0, tp_ExpiredAt = 0\<rparr>)))"

section \<open>The interceptor\<close>

text \<open>The entry of the table whose suffix the method has, the first one in iteration order.\<close>

primrec required_perm :: "(string \<times> string) list \<Rightarrow> string \<Rightarrow> string option" where
  "required_perm [] fullMethod = None"
| "required_perm (sp # table) fullMethod =
     (if HasSuffix fullMethod (fst sp) then Some (snd sp) else required_perm table fullMethod)"

definition authenticate :: "'i authz_env \<Rightarrow> call_ctx \<Rightarrow> go_error + TokenPayload" where
  "authenticate env ctx =
     (case cc_metadata ctx of
        None \<Rightarrow> Inl (Status Unauthenticated ''missing auth metadata'')
      | Some md \<Rightarrow>
          let vals = (case MD_Get md ''authorization'' of [] \<Rightarrow> MD_Get md ''Authorization'' | vs \<Rightarrow> vs)
          in (case vals of
            [] \<Rightarrow>
              (case payloadFromGatewayHeaders env ctx of
                 Some p \<Rightarrow> Inr p
               | None \<Rightarrow> Inl (Status Unauthenticated ''missing authorization''))
          | val # _ \<Rightarrow>
              let v = TrimSpace val in
              if \<not> HasPrefix v ''Bearer '' then Inl (Status Unauthenticated ''invalid authorization'')
              else
                let tok = TrimSpace (TrimPrefix v ''Bearer '') in
                if tok = '''' then Inl (Status Unauthenticated ''invalid authorization'')
                else (case az_VerifyToken env tok of
                  Inl _ \<Rightarrow> Inl (Status Unauthenticated ''invalid token'')
                | Inr p \<Rightarrow> Inr p)))"

text \<open>
  A handler receives the sequence number of the context, 0 when there is none; a payload with
  number 0 leaves the context as it is.
\<close>

definition UnaryAuthzInterceptor ::
    "'i authz_env \<Rightarrow> (string \<times> string) list \<Rightarrow> call_ctx \<Rightarrow> string \<Rightarrow>
     (64 word \<Rightarrow> ('d, 'p, 'a) go) \<Rightarrow> ('d, 'p, 'a) go" where
  "UnaryAuthzInterceptor env suffixToRequiredPerm ctx fullMethod handler =
     (case required_perm suffixToRequiredPerm fullMethod of
        None \<Rightarrow> handler 0
      | Some requiredPerm \<Rightarrow>
          (case authenticate env ctx of
             Inl e \<Rightarrow> throwE e
           | Inr payload \<Rightarrow>
               if requiredPerm \<noteq> '''' \<and> requiredPerm \<notin> set (tp_Permissions payload)
               then throwE (Status PermissionDenied ''forbidden'')
               else handler (tp_LSN payload)))"

text \<open>\<open>GatewayAuthHeaderForwarder\<close>: the header matchers, over the gateway library's default one.\<close>

definition EqualFold :: "string \<Rightarrow> string \<Rightarrow> bool" where
  "EqualFold s t \<longleftrightarrow> ToLower s = ToLower t"

definition forward_incoming :: "(string \<Rightarrow> string option) \<Rightarrow> string \<Rightarrow> string option" where
  "forward_incoming DefaultHeaderMatcher key =
     (if EqualFold key ''Authorization'' then Some ''authorization'' else DefaultHeaderMatcher key)"

definition forward_outgoing :: "(string \<Rightarrow> string option) \<Rightarrow> string \<Rightarrow> string option" where
  "forward_outgoing DefaultHeaderMatcher key =
     (if EqualFold key ''www-authenticate'' then Some ''WWW-Authenticate'' else DefaultHeaderMatcher key)"

section \<open>Facts\<close>

text \<open>
  Whom a request is from, said without the interceptor: the holder of a verified bearer token, with
  the payload of the token, or, without an authorization value, a user whom the gateway asserts over
  a connection with its own SPIFFE identity, with exactly the roles, permissions and sequence number
  of the gateway's headers.
\<close>

definition header_of :: "(string \<Rightarrow> string list) \<Rightarrow> string \<Rightarrow> string" where
  "header_of md k = (case md k of [] \<Rightarrow> '''' | v # _ \<Rightarrow> v)"

definition bearer_of :: "'i authz_env \<Rightarrow> call_ctx \<Rightarrow> TokenPayload \<Rightarrow> bool" where
  "bearer_of env ctx p \<longleftrightarrow>
     (\<exists>md v vs tok. cc_metadata ctx = Some md \<and> md ''authorization'' = v # vs \<and>
        TrimSpace v = ''Bearer '' @ tok \<and> TrimSpace tok \<noteq> '''' \<and> az_VerifyToken env (TrimSpace tok) = Inr p)"

definition asserted_by_gateway :: "'i authz_env \<Rightarrow> call_ctx \<Rightarrow> TokenPayload \<Rightarrow> bool" where
  "asserted_by_gateway env ctx p \<longleftrightarrow>
     (\<exists>md i. cc_metadata ctx = Some md \<and> md ''authorization'' = [] \<and>
        peerSpiffeIDFromContext (az_FromURI env) ctx = Some i \<and>
        az_FromString env (gatewaySpiffeIDFromEnv (az_GatewayEnv env)) = Some i \<and>
        TrimSpace (header_of md ''x-fincore-subject'') \<noteq> '''' \<and>
        p = \<lparr>tp_UserID = TrimSpace (header_of md ''x-fincore-subject''),
             tp_Roles = splitCSV (header_of md ''x-fincore-roles''),
             tp_Permissions = splitCSV (header_of md ''x-fincore-permissions''),
             tp_LSN = (case ParseUint (header_of md ''x-fincore-lsn'') of None \<Rightarrow> 0 | Some v \<Rightarrow> v),
             tp_IssuedAt = 0, tp_ExpiredAt = 0\<rparr>)"

definition identified :: "'i authz_env \<Rightarrow> call_ctx \<Rightarrow> TokenPayload \<Rightarrow> bool" where
  "identified env ctx p \<longleftrightarrow> bearer_of env ctx p \<or> asserted_by_gateway env ctx p"

lemma ToLower_headers: "ToLower ''authorization'' = ''authorization''"
  "ToLower ''Authorization'' = ''authorization''"
  "ToLower ''x-fincore-subject'' = ''x-fincore-subject''"
  "ToLower ''X-Fincore-Subject'' = ''x-fincore-subject''"
  "ToLower ''x-fincore-roles'' = ''x-fincore-roles''"
  "ToLower ''X-Fincore-Roles'' = ''x-fincore-roles''"
  "ToLower ''x-fincore-permissions'' = ''x-fincore-permissions''"
  "ToLower ''X-Fincore-Permissions'' = ''x-fincore-permissions''"
  "ToLower ''x-fincore-lsn'' = ''x-fincore-lsn''"
  "ToLower ''X-Fincore-LSN'' = ''x-fincore-lsn''"
  by code_simp+

lemma firstMDValue_header:
  "ToLower k = h \<Longrightarrow> ToLower k' = h \<Longrightarrow> firstMDValue md [k, k'] = header_of md h"
  by (simp add: MD_Get_def header_of_def split: list.splits)

text \<open>What the gateway's headers are read as.\<close>

lemma payloadFromGatewayHeaders_iff:
  assumes "cc_metadata ctx = Some md" and "md ''authorization'' = []"
  shows "payloadFromGatewayHeaders env ctx = Some p \<longleftrightarrow> asserted_by_gateway env ctx p"
proof -
  have headers: "firstMDValue md [''x-fincore-subject'', ''X-Fincore-Subject''] = header_of md ''x-fincore-subject''"
    "firstMDValue md [''x-fincore-roles'', ''X-Fincore-Roles''] = header_of md ''x-fincore-roles''"
    "firstMDValue md [''x-fincore-permissions'', ''X-Fincore-Permissions''] = header_of md ''x-fincore-permissions''"
    "firstMDValue md [''x-fincore-lsn'', ''X-Fincore-LSN''] = header_of md ''x-fincore-lsn''"
    by (rule firstMDValue_header; simp only: ToLower_headers)+
  have empty: "ParseUint '''' = None" by (simp add: ParseUint_def)
  show ?thesis
    unfolding payloadFromGatewayHeaders_def asserted_by_gateway_def assms(1) option.case Let_def headers
    by (cases "peerSpiffeIDFromContext (az_FromURI env) ctx";
        cases "az_FromString env (gatewaySpiffeIDFromEnv (az_GatewayEnv env))";
        cases "header_of md ''x-fincore-lsn'' = ''''"; cases "ParseUint (header_of md ''x-fincore-lsn'')")
      (auto simp: assms(2) empty)
qed

lemma TrimPrefix_append: "HasPrefix s p \<Longrightarrow> s = p @ TrimPrefix s p"
  using append_take_drop_id [of "length p" s] by (simp add: HasPrefix_def TrimPrefix_def)

lemma authenticate_Inl: "authenticate env ctx = Inl e \<Longrightarrow> \<exists>msg. e = Status Unauthenticated msg"
  by (auto simp: authenticate_def Let_def split: option.splits list.splits if_splits sum.splits)

lemma authenticate_iff: "authenticate env ctx = Inr p \<longleftrightarrow> identified env ctx p"
proof (cases "cc_metadata ctx")
  case None
  then show ?thesis by (simp add: authenticate_def identified_def bearer_of_def asserted_by_gateway_def)
next
  case (Some md)
  show ?thesis
  proof (cases "md ''authorization''")
    case Nil
    have "authenticate env ctx = Inr p \<longleftrightarrow> payloadFromGatewayHeaders env ctx = Some p"
      using Some Nil by (auto simp: authenticate_def MD_Get_def ToLower_headers split: option.splits)
    then show ?thesis
      using Some Nil by (simp add: payloadFromGatewayHeaders_iff identified_def bearer_of_def)
  next
    case (Cons v vs)
    let ?v = "TrimSpace v"
    have auth: "authenticate env ctx = Inr p \<longleftrightarrow>
        HasPrefix ?v ''Bearer '' \<and> TrimSpace (TrimPrefix ?v ''Bearer '') \<noteq> '''' \<and>
        az_VerifyToken env (TrimSpace (TrimPrefix ?v ''Bearer '')) = Inr p"
      using Some Cons
      by (auto simp: authenticate_def MD_Get_def ToLower_headers Let_def split: if_splits sum.splits)
    have "HasPrefix ?v ''Bearer '' \<and> P (TrimPrefix ?v ''Bearer '') \<longleftrightarrow> (\<exists>tok. ?v = ''Bearer '' @ tok \<and> P tok)" for P
      using TrimPrefix_append [of ?v "''Bearer ''"] by (auto simp: HasPrefix_def TrimPrefix_def)
    from this [of "\<lambda>t. TrimSpace t \<noteq> '''' \<and> az_VerifyToken env (TrimSpace t) = Inr p"] show ?thesis
      unfolding auth using Some Cons by (simp add: identified_def bearer_of_def asserted_by_gateway_def)
  qed
qed

lemma HasSuffix_append: "HasSuffix s p \<longleftrightarrow> (\<exists>q. s = q @ p)"
proof
  assume "HasSuffix s p"
  then have "rev s = rev p @ drop (length p) (rev s)"
    using append_take_drop_id [of "length p" "rev s"] by (simp add: HasSuffix_def HasPrefix_def)
  then have "s = rev (drop (length p) (rev s)) @ p" by (metis rev_append rev_rev_ident)
  then show "\<exists>q. s = q @ p" ..
qed (auto simp: HasSuffix_def HasPrefix_def)

text \<open>Two suffixes of one method: one of them is a suffix of the other.\<close>

lemma HasSuffix_linear: "HasSuffix m s \<Longrightarrow> HasSuffix m t \<Longrightarrow> HasSuffix s t \<or> HasSuffix t s"
  by (auto simp: HasSuffix_append append_eq_append_conv2)

lemma required_perm_None: "required_perm table m = None \<longleftrightarrow> (\<forall>sp\<in>set table. \<not> HasSuffix m (fst sp))"
  by (induction table) auto

lemma required_perm_Some: "required_perm table m = Some p \<Longrightarrow> \<exists>s. (s, p) \<in> set table \<and> HasSuffix m s"
  by (induction table) (auto split: if_splits)

text \<open>No suffix of the table is a suffix of another one.\<close>

definition unambiguous :: "(string \<times> string) list \<Rightarrow> bool" where
  "unambiguous table \<longleftrightarrow>
     (\<forall>sp\<in>set table. \<forall>tq\<in>set table. HasSuffix (fst sp) (fst tq) \<longrightarrow> sp = tq)"

lemma required_perm_order:
  assumes "unambiguous table" and "set table' = set table"
  shows "required_perm table' m = required_perm table m"
proof (cases "required_perm table m")
  case None
  then have "required_perm table' m = None" by (simp add: required_perm_None assms(2))
  then show ?thesis using None by simp
next
  case (Some p)
  then obtain s where s: "(s, p) \<in> set table" "HasSuffix m s" using required_perm_Some by blast
  then obtain p' where p': "required_perm table' m = Some p'"
    using assms(2) by (cases "required_perm table' m") (auto simp: required_perm_None)
  then obtain s' where s': "(s', p') \<in> set table" "HasSuffix m s'"
    using required_perm_Some assms(2) by blast
  have "(s, p) = (s', p')"
    using HasSuffix_linear [OF s(2) s'(2)] assms(1) s(1) s'(1)
    unfolding unambiguous_def by (metis fst_conv)
  then show ?thesis using Some p' by simp
qed

section \<open>Properties\<close>

text \<open>
  C12. The interceptor's decision, exactly: for a method of its table it answers \<open>Unauthenticated\<close> and
  changes nothing if and only if the request identifies nobody; otherwise the request identifies one
  payload (that of a verified bearer token, or the subject, roles, permissions and sequence number the
  gateway asserts over a connection with its own SPIFFE identity), and the handler runs, with the
  sequence number of this payload, if it has the permission that the table asks for, and else the
  answer is \<open>PermissionDenied\<close> and nothing changes.
\<close>

theorem authz_admits:
  assumes "required_perm table fullMethod = Some perm"
    and "UnaryAuthzInterceptor env table ctx fullMethod handler w = (r, w')"
  shows "if \<exists>p. identified env ctx p
    then \<exists>!p. identified env ctx p \<and>
      (if perm = '''' \<or> perm \<in> set (tp_Permissions p) then handler (tp_LSN p) w = (r, w')
       else r = Inl (Status PermissionDenied ''forbidden'') \<and> w' = w)
    else (\<exists>msg. r = Inl (Status Unauthenticated msg) \<and> w' = w)"
proof (cases "authenticate env ctx")
  case (Inl e)
  moreover have "\<nexists>p. identified env ctx p" using Inl by (simp flip: authenticate_iff)
  ultimately show ?thesis
    using assms authenticate_Inl [OF Inl] by (auto simp: UnaryAuthzInterceptor_def throwE_def)
next
  case (Inr p)
  then have who: "identified env ctx q \<longleftrightarrow> q = p" for q by (auto simp flip: authenticate_iff)
  show ?thesis
    using assms Inr by (auto simp: who UnaryAuthzInterceptor_def throwE_def split: if_splits)
qed

text \<open>The tables of the ledger and account servers (their \<open>main.go\<close>).\<close>

definition ledger_perms :: "(string \<times> string) list" where
  "ledger_perms = [(''/PostEntry'', ''ledger:write''), (''/GetBalance'', ''ledger:read'')]"

definition account_perms :: "(string \<times> string) list" where
  "account_perms = [(''/OpenAccount'', ''account:write''), (''/Deposit'', ''account:write''),
     (''/Withdraw'', ''account:write''), (''/GetAccount'', ''account:read'')]"

definition sample_authz :: "string authz_env" where
  "sample_authz = \<lparr>az_VerifyToken = (\<lambda>t. if t = ''tok'' then
       Inr \<lparr>tp_UserID = ''u'', tp_Roles = [], tp_Permissions = [''ledger:write''], tp_LSN = 7, tp_IssuedAt = 1,
            tp_ExpiredAt = 2\<rparr> else Inl (ErrorString ''invalid token'')),
     az_FromURI = Some, az_FromString = Some, az_GatewayEnv = ''''\<rparr>"

definition sample_call :: call_ctx where
  "sample_call = \<lparr>cc_metadata = Some ((\<lambda>_. [])(''authorization'' := ['' Bearer tok ''])), cc_peer = None\<rparr>"

lemma sample_authz_run:
  "UnaryAuthzInterceptor sample_authz ledger_perms sample_call ''/ledger.v1.LedgerService/PostEntry'' handler =
     handler 7"
proof -
  have "required_perm ledger_perms ''/ledger.v1.LedgerService/PostEntry'' = Some ''ledger:write''" by code_simp
  moreover have "authenticate sample_authz sample_call =
      Inr \<lparr>tp_UserID = ''u'', tp_Roles = [], tp_Permissions = [''ledger:write''], tp_LSN = 7, tp_IssuedAt = 1,
            tp_ExpiredAt = 2\<rparr>" by code_simp
  ultimately show ?thesis by (simp add: UnaryAuthzInterceptor_def)
qed

text \<open>A call that the gateway makes for a user without the permission.\<close>

definition sample_asserted :: call_ctx where
  "sample_asserted = \<lparr>cc_metadata = Some ((\<lambda>_. [])(''x-fincore-subject'' := [''u''],
       ''x-fincore-permissions'' := [''ledger:read''])),
     cc_peer = Some (Some \<lparr>tls_Version = 772,
       tls_PeerCertificates = [Some [Some ''spiffe://fincore.local/ns/default/sa/api-gateway'']]\<rparr>)\<rparr>"

lemma sample_asserted_run:
  "UnaryAuthzInterceptor sample_authz ledger_perms sample_asserted ''/ledger.v1.LedgerService/PostEntry'' handler =
     throwE (Status PermissionDenied ''forbidden'')"
proof -
  have "required_perm ledger_perms ''/ledger.v1.LedgerService/PostEntry'' = Some ''ledger:write''" by code_simp
  moreover have "authenticate sample_authz sample_asserted =
      Inr \<lparr>tp_UserID = ''u'', tp_Roles = [], tp_Permissions = [''ledger:read''], tp_LSN = 0, tp_IssuedAt = 0,
            tp_ExpiredAt = 0\<rparr>" by code_simp
  ultimately show ?thesis by (simp add: UnaryAuthzInterceptor_def)
qed

theorem authz_admits_witness:
  "(\<exists>!p. identified sample_authz sample_call p \<and> ''ledger:write'' \<in> set (tp_Permissions p)) \<and>
   (\<exists>!p. identified sample_authz sample_asserted p \<and> ''ledger:write'' \<notin> set (tp_Permissions p))"
proof -
  fix w :: "(unit, unit) world"
  have perm: "required_perm ledger_perms ''/ledger.v1.LedgerService/PostEntry'' = Some ''ledger:write''" by code_simp
  note run = sample_authz_run [of "\<lambda>_. returnE ()", THEN fun_cong, of w, unfolded returnE_def]
  note refused = sample_asserted_run [of "\<lambda>_. returnE ()", THEN fun_cong, of w, unfolded throwE_def]
  show ?thesis
    using authz_admits [OF perm run] authz_admits [OF perm refused] by (auto simp: returnE_def split: if_splits)
qed

text \<open>
  Go visits the permission table in a random order. When no suffix of the table is a suffix of
  another one, as in the tables of the services, the decision does not depend on that order.
\<close>

theorem authz_order_irrelevant:
  assumes "unambiguous table" and "set table' = set table"
  shows "UnaryAuthzInterceptor env table' = UnaryAuthzInterceptor env table"
  using required_perm_order [OF assms] by (simp add: fun_eq_iff UnaryAuthzInterceptor_def)

theorem authz_order_irrelevant_witness:
  "UnaryAuthzInterceptor sample_authz (rev account_perms) = UnaryAuthzInterceptor sample_authz account_perms"
  by (rule authz_order_irrelevant) (simp_all, code_simp)

end
