(* ===== verification/AccountServer.thy ===== *)
theory AccountServer
  imports Account LedgerServer Authz
begin

text \<open>
  The account service's gRPC side: its client of the ledger
  (\<open>src/services/account-service/infrastructure/grpc/ledger_client.go\<close>) and its server
  (\<open>infrastructure/grpc/server.go\<close>). The peer of an account world is the world of the ledger
  service. A call goes over the network as \<open>rpc\<close> of the method the ledger serves.
\<close>

section \<open>The ledger client\<close>

type_synonym 'q post_method = "PostEntryRequest option \<Rightarrow> (ledger_db, 'q, id) go"
type_synonym 'q balance_method = "string option option \<Rightarrow> (ledger_db, 'q, MoneyMsg option) go"

definition LedgerClient_PostEntry ::
    "transport \<Rightarrow> 'q post_method \<Rightarrow> ((ledger_db, 'q) world) ledger_post" where
  "LedgerClient_PostEntry t served idempotencyKey accountID typ amount narration =
     (let call = (\<lambda>et. rpc t (served (Some \<lparr>per_IdempotencyKey = idempotencyKey,
            per_Account = Some accountID, per_EntryType = et,
            per_Amount = Some \<lparr>mm_Currency = currency amount, mm_AmountKobo = amountKobo amount\<rparr>,
            per_Narration = narration\<rparr>)))
      in if typ = LedgerEntryTypeDeposit then call ENTRY_TYPE_DEPOSIT
         else if typ = LedgerEntryTypeWithdrawal then call ENTRY_TYPE_WITHDRAWAL
         else (\<lambda>p. (Inl (ErrorString ''unsupported entry type''), p)))"

definition LedgerClient_GetBalance ::
    "transport \<Rightarrow> 'q balance_method \<Rightarrow> id \<Rightarrow> (ledger_db, 'q) world \<Rightarrow>
     (go_error + Money) \<times> (ledger_db, 'q) world" where
  "LedgerClient_GetBalance t served accountID p =
     (case rpc t (served (Some (Some accountID))) p of
        (Inl err, p') \<Rightarrow> (Inl err, p')
      | (Inr bal, p') \<Rightarrow>
          (case bal of
             None \<Rightarrow> (Money_New 0 NGN, p')
           | Some m \<Rightarrow> (Money_New (mm_AmountKobo m) (mm_Currency m), p')))"

section \<open>The server\<close>

record OpenAccountRequest =
  oar_CustomerId :: string
  oar_IdempotencyKey :: string

text \<open>\<open>DepositRequest\<close> and \<open>WithdrawRequest\<close> have the same fields.\<close>

record MoneyRequest =
  mr_AccountId :: string
  mr_Amount :: "MoneyMsg option"
  mr_IdempotencyKey :: string
  mr_Narration :: string

record GetAccountResponse =
  gar_AccountId :: string
  gar_CustomerId :: string
  gar_Status :: string
  gar_AvailableBalance :: MoneyMsg

definition AccountServer_OpenAccount :: "OpenAccountRequest \<Rightarrow> (account_db, 'p, id) go" where
  "AccountServer_OpenAccount req =
     (if oar_CustomerId req = '''' then throwE (ErrorString ''customer_id required'')
      else
        bindE (OpenAccountHandler_Handle
          \<lparr>oa_CustomerID = oar_CustomerId req, oa_IdempotencyKey = oar_IdempotencyKey req\<rparr>) (\<lambda>res.
        returnE (fst res)))"

definition AccountServer_Deposit :: "'p ledger_post \<Rightarrow> MoneyRequest \<Rightarrow> (account_db, 'p, id) go" where
  "AccountServer_Deposit post req =
     (case mr_Amount req of
        None \<Rightarrow> throwE (ErrorString ''amount required'')
      | Some m \<Rightarrow>
          bindE (liftE (Money_New (mm_AmountKobo m) (mm_Currency m))) (\<lambda>amt.
          bindE (DepositMoneyHandler_Handle post
            \<lparr>mc_AccountID = mr_AccountId req, mc_Amount = amt, mc_IdempotencyKey = mr_IdempotencyKey req,
             mc_Narration = mr_Narration req\<rparr>) (\<lambda>res.
          returnE (snd res))))"

definition AccountServer_Withdraw :: "'p ledger_post \<Rightarrow> MoneyRequest \<Rightarrow> (account_db, 'p, id) go" where
  "AccountServer_Withdraw post req =
     (case mr_Amount req of
        None \<Rightarrow> throwE (ErrorString ''amount required'')
      | Some m \<Rightarrow>
          bindE (liftE (Money_New (mm_AmountKobo m) (mm_Currency m))) (\<lambda>amt.
          bindE (WithdrawMoneyHandler_Handle post
            \<lparr>mc_AccountID = mr_AccountId req, mc_Amount = amt, mc_IdempotencyKey = mr_IdempotencyKey req,
             mc_Narration = mr_Narration req\<rparr>) (\<lambda>res.
          returnE (snd res))))"

definition AccountServer_GetAccount ::
    "(id \<Rightarrow> 'p \<Rightarrow> (go_error + Money) \<times> 'p) \<Rightarrow> string \<Rightarrow> (account_db, 'p, GetAccountResponse) go" where
  "AccountServer_GetAccount getBalance accountId =
     (if accountId = '''' then throwE (ErrorString ''account_id required'')
      else
        bindE (withTx rollback
          (bindE (AccountProjection_GetByID accountId) (\<lambda>p.
           case p of
             None \<Rightarrow> throwE (ErrorString ''account not found'')
           | Some p \<Rightarrow> returnE (ap_CustomerID p, ap_Status p)))) (\<lambda>(customerID, status).
        bindE (callPeer (getBalance accountId)) (\<lambda>bal.
        returnE \<lparr>gar_AccountId = accountId, gar_CustomerId = customerID, gar_Status = status,
          gar_AvailableBalance = \<lparr>mm_Currency = currency bal, mm_AmountKobo = amountKobo bal\<rparr>\<rparr>)))"

section \<open>The ledger as the account service sees it\<close>

text \<open>
  A client that tries the same command again and again, each time over a network that may
  lose the call or the answer.
\<close>

primrec money_attempts ::
    "(transport \<Rightarrow> (account_db, 'p, id \<times> id) go) \<Rightarrow> transport list \<Rightarrow> (account_db, 'p) world \<Rightarrow>
     (go_error + id \<times> id) list \<times> (account_db, 'p) world" where
  "money_attempts handle [] w = ([], w)"
| "money_attempts handle (t # ts) w =
     (let (r, w1) = handle t w; (rs, w2) = money_attempts handle ts w1 in (r # rs, w2))"

text \<open>
  One posting under an idempotency key, seen through the balances and the keys of a ledger: nothing
  happens, or the amount is booked on the account and the key is bound, and the latter only when
  the key was unknown.
\<close>

definition books :: "('p \<Rightarrow> id \<Rightarrow> int) \<Rightarrow> ('p \<Rightarrow> string \<Rightarrow> id option) \<Rightarrow> string \<Rightarrow> id \<Rightarrow> int \<Rightarrow> 'p \<Rightarrow> 'p \<Rightarrow> bool" where
  "books bal keys k a amt p p' \<longleftrightarrow> bal p' = bal p \<and> keys p' = keys p \<or>
     keys p k = None \<and> (\<exists>i. keys p' = (keys p)(k \<mapsto> i)) \<and> bal p' = (bal p)(a := bal p a + amt)"

lemma books_refl [simp]: "books bal keys k a amt p p"
  by (simp add: books_def)

lemma books_known: "books bal keys k a amt p p' \<Longrightarrow> keys p k = Some i \<Longrightarrow> bal p' = bal p \<and> keys p' = keys p"
  by (auto simp: books_def)

lemma books_trans:
  assumes "books bal keys k a amt p q" and "books bal keys k a amt q r"
  shows "books bal keys k a amt p r"
proof (cases "keys q k")
  case None
  then have "bal q = bal p \<and> keys q = keys p" using assms(1) by (auto simp: books_def)
  then show ?thesis using assms(2) by (simp add: books_def)
next
  case (Some i)
  then have "bal r = bal q \<and> keys r = keys q" using assms(2) by (rule books_known [rotated])
  then show ?thesis using assms(1) by (simp add: books_def)
qed

definition ledger_amount :: "string \<Rightarrow> Money \<Rightarrow> int" where
  "ledger_amount etype m = (if etype = LedgerEntryTypeWithdrawal then - sint (amountKobo m) else sint (amountKobo m))"

lemma ledger_amount_simps [simp]:
  "ledger_amount LedgerEntryTypeWithdrawal m = - sint (amountKobo m)"
  "ledger_amount LedgerEntryTypeDeposit m = sint (amountKobo m)"
  by (simp_all add: ledger_amount_def LedgerEntryTypeDeposit_def LedgerEntryTypeWithdrawal_def)

text \<open>
  The contract of the ledger port. A call books at most once per key; one that returns an entry
  leaves the key bound to that entry. An error says nothing about whether the amount was booked.
\<close>

locale ledger_port =
  fixes post :: "transport \<Rightarrow> 'p ledger_post"
    and bal :: "'p \<Rightarrow> id \<Rightarrow> int" and keys :: "'p \<Rightarrow> string \<Rightarrow> id option"
    and valid :: "'p \<Rightarrow> bool"
  assumes port_valid: "valid p \<Longrightarrow> post t k a etype m nar p = (r, p') \<Longrightarrow> valid p'"
    and port_effect: "valid p \<Longrightarrow> post t k a etype m nar p = (r, p') \<Longrightarrow>
      books bal keys k a (ledger_amount etype m) p p'"
    and port_key: "valid p \<Longrightarrow> post t k a etype m nar p = (Inr i, p') \<Longrightarrow> keys p' k = Some i"
begin

lemma handle_effect:
  assumes "valid (peer w)" and "account_inv (db w)"
    and run: "money_handle (post t) etype mk cmd w = (r, w')"
    and "\<And>i m e t x. Account_apply (mk i m e t) x = x"
  shows "valid (peer w') \<and> account_inv (db w') \<and>
     books bal keys (mc_IdempotencyKey cmd) (mc_AccountID cmd) (ledger_amount etype (mc_Amount cmd)) (peer w) (peer w') \<and>
     (\<forall>x eid. r = Inr (x, eid) \<longrightarrow> keys (peer w') (mc_IdempotencyKey cmd) = Some eid)"
proof -
  let ?call = "post t (mc_IdempotencyKey cmd) (mc_AccountID cmd) etype (mc_Amount cmd) (mc_Narration cmd) (peer w)"
  have inv: "account_inv (db w')" by (rule account_inv_money_handle [OF assms(2) run assms(4)])
  show ?thesis
  proof (cases r)
    case (Inl e)
    then consider "peer w' = peer w" | "?call = (fst ?call, peer w')"
      using money_handle_error(2) [OF run [unfolded Inl]] by (metis prod.collapse)
    then show ?thesis
    proof cases
      case 1
      then show ?thesis using inv assms(1) Inl by simp
    next
      case 2
      show ?thesis using inv port_valid [OF assms(1) 2] port_effect [OF assms(1) 2] Inl by simp
    qed
  next
    case (Inr x)
    then obtain eid where call: "?call = (Inr eid, peer w')" and x: "x = (mc_AccountID cmd, eid)"
      using money_handle_success [OF assms(2)] run by blast
    show ?thesis
      using inv port_valid [OF assms(1) call] port_effect [OF assms(1) call] port_key [OF assms(1) call] Inr x
      by simp
  qed
qed

text \<open>
  Any number of attempts books the amount at most once, and exactly once when one of them
  succeeded; all successes name the same entry.
\<close>

lemma attempts_effect:
  assumes mk: "\<And>i m e t x. Account_apply (mk i m e t) x = x"
  shows "valid (peer w) \<Longrightarrow> account_inv (db w) \<Longrightarrow>
     money_attempts (\<lambda>t. money_handle (post t) etype mk cmd) ts w = (rs, w') \<Longrightarrow>
     valid (peer w') \<and> account_inv (db w') \<and>
     books bal keys (mc_IdempotencyKey cmd) (mc_AccountID cmd) (ledger_amount etype (mc_Amount cmd)) (peer w) (peer w') \<and>
     (\<forall>x eid. Inr (x, eid) \<in> set rs \<longrightarrow> keys (peer w') (mc_IdempotencyKey cmd) = Some eid)"
proof (induction ts arbitrary: w rs)
  case (Cons t ts)
  obtain r w1 rs1 where r: "money_handle (post t) etype mk cmd w = (r, w1)"
    and rs1: "money_attempts (\<lambda>t. money_handle (post t) etype mk cmd) ts w1 = (rs1, w')" and rs: "rs = r # rs1"
    using Cons.prems(3) by (auto split: prod.splits)
  note step = handle_effect [OF Cons.prems(1,2) r mk]
  then have "valid (peer w1)" "account_inv (db w1)" by blast+
  note rest = Cons.IH [OF this rs1]
  have "r = Inr (x, eid) \<Longrightarrow> keys (peer w') (mc_IdempotencyKey cmd) = Some eid" for x eid
    using step rest books_known [of bal keys "mc_IdempotencyKey cmd" _ _ "peer w1" "peer w'"] by metis
  then show ?case using step rest books_trans by (auto simp: rs)
qed simp

end

section \<open>The client over the ledger's server provides it\<close>

lemma LedgerClient_PostEntry_eq:
  assumes "TrimSpace a \<noteq> ''''" and "currency m \<noteq> ''''"
    and "etype = LedgerEntryTypeDeposit \<or> etype = LedgerEntryTypeWithdrawal"
  shows "LedgerClient_PostEntry t Server_PostEntry k a etype m nar =
     rpc t (PostEntryHandler_Handle \<lparr>pe_IdempotencyKey = k, pe_AccountID = a,
       pe_Type = (if etype = LedgerEntryTypeWithdrawal then EntryTypeWithdrawal else EntryTypeDeposit),
       pe_Amount = m, pe_Narration = nar, pe_OccurredAtUTC = 0\<rparr>)"
  using assms
  by (cases m; elim disjE)
     (simp_all add: LedgerClient_PostEntry_def LedgerEntryTypeDeposit_def LedgerEntryTypeWithdrawal_def
       Server_PostEntry_handle [where withdrawal = False, simplified]
       Server_PostEntry_handle [where withdrawal = True, simplified])

text \<open>Otherwise the call fails and changes nothing.\<close>

lemma LedgerClient_PostEntry_invalid:
  assumes "\<not> (TrimSpace a \<noteq> '''' \<and> currency m \<noteq> '''' \<and>
      (etype = LedgerEntryTypeDeposit \<or> etype = LedgerEntryTypeWithdrawal))"
  shows "\<exists>e. LedgerClient_PostEntry t Server_PostEntry k a etype m nar p = (Inl e, p)"
  using assms
  by (cases t) (auto simp: LedgerClient_PostEntry_def Server_PostEntry_def Money_New_def throwE_def
      bindE_def liftE_def)

lemma posting_effect:
  assumes "ledger_inv (db p)" and "PostEntryHandler_Handle cmd p = (r, p')"
  shows "ledger_inv (db p')" and
    "books (\<lambda>p. balance (db p) 1) (\<lambda>p. ledger_idempotency (db p)) (pe_IdempotencyKey cmd) (pe_AccountID cmd)
       (signed_amount cmd) p p'"
    and "r = Inr i \<Longrightarrow> ledger_idempotency (db p') (pe_IdempotencyKey cmd) = Some i"
proof -
  show "ledger_inv (db p')" by (rule ledger.post_valid [OF assms])
  show "books (\<lambda>p. balance (db p) 1) (\<lambda>p. ledger_idempotency (db p)) (pe_IdempotencyKey cmd) (pe_AccountID cmd)
       (signed_amount cmd) p p'"
    unfolding books_def
    using ledger.post_error ledger.post_known ledger.post_new [OF assms(1)] assms(2)
    by (cases r; cases "ledger_idempotency (db p) (pe_IdempotencyKey cmd)") blast+
  show "r = Inr i \<Longrightarrow> ledger_idempotency (db p') (pe_IdempotencyKey cmd) = Some i"
    using ledger.post_known ledger.post_new [OF assms(1)] assms(2)
    by (cases "ledger_idempotency (db p) (pe_IdempotencyKey cmd)") fastforce+
qed

lemma remote_posting:
  assumes "ledger_inv (db p)" and "rpc t (PostEntryHandler_Handle cmd) p = (r, p')"
  shows "p' = p \<and> (\<exists>e. r = Inl e) \<or>
     (\<exists>q. PostEntryHandler_Handle cmd p = (q, p') \<and> (\<forall>i. r = Inr i \<longrightarrow> q = Inr i))"
  using assms(2)
  by (cases t; cases "PostEntryHandler_Handle cmd p") (auto split: sum.splits)

interpretation remote: ledger_port "\<lambda>t. LedgerClient_PostEntry t Server_PostEntry"
  "\<lambda>p. balance (db p) 1" "\<lambda>p. ledger_idempotency (db p)" "\<lambda>p. ledger_inv (db p)"
proof -
  let ?cmd = "\<lambda>k a etype m nar. \<lparr>pe_IdempotencyKey = k, pe_AccountID = a,
       pe_Type = (if etype = LedgerEntryTypeWithdrawal then EntryTypeWithdrawal else EntryTypeDeposit),
       pe_Amount = m, pe_Narration = nar, pe_OccurredAtUTC = 0\<rparr>"
  have step: "p' = p \<and> (\<exists>e. r = Inl e) \<or>
      (\<exists>q. PostEntryHandler_Handle (?cmd k a etype m nar) p = (q, p') \<and> (\<forall>i. r = Inr i \<longrightarrow> q = Inr i))"
    if "ledger_inv (db p)" and "LedgerClient_PostEntry t Server_PostEntry k a etype m nar p = (r, p')"
    for t k a etype m nar r and p p' :: "(ledger_db, 'q) world"
    using remote_posting [OF that(1), of t "?cmd k a etype m nar" r p'] that(2)
      LedgerClient_PostEntry_eq [of a m etype t k nar] LedgerClient_PostEntry_invalid [of a m etype t k nar p]
    by (metis prod.inject)
  have amount: "signed_amount (?cmd k a etype m nar) = ledger_amount etype m" for k a etype m nar
    by (simp add: signed_amount_def ledger_amount_def EntryTypeDeposit_def EntryTypeWithdrawal_def)
  show "ledger_port (\<lambda>t. LedgerClient_PostEntry t Server_PostEntry) (\<lambda>p :: (ledger_db, 'q) world. balance (db p) 1)
      (\<lambda>p. ledger_idempotency (db p)) (\<lambda>p. ledger_inv (db p))"
  proof (unfold_locales, goal_cases)
    case (1 p t k a etype m nar r p')
    then show ?case using step [OF 1] posting_effect(1) by blast
  next
    case (2 p t k a etype m nar r p')
    then show ?case using step [OF 2] posting_effect(2) [OF 2(1)] amount [of k a etype m nar] by fastforce
  next
    case (3 p t k a etype m nar i p')
    then show ?case using step [OF 3] posting_effect(3) [OF 3(1)] by fastforce
  qed
qed

end
