(* ===== verification/AccountProps.thy ===== *)
theory AccountProps
  imports AccountServer
begin

text \<open>
  The properties of the account service and of the account and ledger services together: the
  account database keeps its invariant, loading through a snapshot is replaying everything,
  retried commands book once, and what the service does to the ledger when its own checks fail.
\<close>

section \<open>Runs of the service\<close>

text \<open>The commands of the service, each with what the network does to its call of the ledger.\<close>

datatype account_cmd =
    CmdOpen OpenAccount
  | CmdDeposit transport MoneyCommand
  | CmdWithdraw transport MoneyCommand

fun account_exec :: "account_cmd \<Rightarrow> (account_db, (ledger_db, 'q) world) world \<Rightarrow> (account_db, (ledger_db, 'q) world) world" where
  "account_exec (CmdOpen c) w = snd (OpenAccountHandler_Handle c w)"
| "account_exec (CmdDeposit t c) w = snd (DepositMoneyHandler_Handle (LedgerClient_PostEntry t Server_PostEntry) c w)"
| "account_exec (CmdWithdraw t c) w = snd (WithdrawMoneyHandler_Handle (LedgerClient_PostEntry t Server_PostEntry) c w)"

definition bank_inv :: "(account_db, (ledger_db, 'q) world) world \<Rightarrow> bool" where
  "bank_inv w \<longleftrightarrow> account_inv (db w) \<and> ledger_inv (db (peer w))"

lemma money_events_keep:
  "Account_apply (MoneyDeposited i m e t) x = x" "Account_apply (MoneyWithdrawn i m e t) x = x"
  by simp_all

lemma local_Open: "local_op (OpenAccountHandler_Handle c)"
  by (auto simp: OpenAccountHandler_Handle_def OpenAccount_tx_def OpenAccount_prepare_def NewAccount_def
      AccountProjection_Upsert_def Let_def intro!: local_intro split: prod.splits)

lemma env_Open: "env_op (OpenAccountHandler_Handle c)"
  by (auto simp: OpenAccountHandler_Handle_def OpenAccount_tx_def OpenAccount_prepare_def NewAccount_def
      AccountProjection_Upsert_def Let_def intro!: go_env split: prod.splits)

lemma bank_inv_exec: "bank_inv w \<Longrightarrow> bank_inv (account_exec c w)"
proof (cases c)
  case (CmdOpen oc)
  assume "bank_inv w"
  then show ?thesis
    using CmdOpen account_inv_OpenAccount [of w oc] local_opD [OF local_Open [of oc], of w]
    by (cases "OpenAccountHandler_Handle oc w") (auto simp: bank_inv_def)
next
  case (CmdDeposit t mc)
  assume "bank_inv w"
  then show ?thesis
    using CmdDeposit remote.handle_effect [of w t LedgerEntryTypeDeposit MoneyDeposited mc]
    by (cases "DepositMoneyHandler_Handle (LedgerClient_PostEntry t Server_PostEntry) mc w")
       (auto simp: bank_inv_def handlers_money)
next
  case (CmdWithdraw t mc)
  assume "bank_inv w"
  then show ?thesis
    using CmdWithdraw remote.handle_effect [of w t LedgerEntryTypeWithdrawal MoneyWithdrawn mc]
    by (cases "WithdrawMoneyHandler_Handle (LedgerClient_PostEntry t Server_PostEntry) mc w")
       (auto simp: bank_inv_def handlers_money)
qed

lemma bank_inv_run: "bank_inv w \<Longrightarrow> bank_inv (fold account_exec cs w)"
  by (induction cs arbitrary: w) (simp_all add: bank_inv_exec)

section \<open>A sample bank\<close>

definition account_empty :: account_db where
  "account_empty = \<lparr>columns = [], outbox_messages = [], event_store_events = [], event_seq = 0,
     event_store_snapshots = [], accounts_projection = Map.empty\<rparr>"

lemma account_inv_empty [simp]: "account_inv account_empty"
  by (simp add: account_inv_def account_empty_def events_wf_def stream_def contiguous_def snap_version_def
      latest_snapshot_def)

definition sample_bank :: "(account_db, (ledger_db, unit) world) world" where
  "sample_bank =
     \<lparr>db = account_empty, peer = sample_ledger, clock = (\<lambda>n. 1000 * int n + 5000),
      uuid = (\<lambda>n. replicate (Suc n) (CHR ''v'')), fault = (\<lambda>n. None), tick = 0, txtime = None\<rparr>"

lemma sample_bank_inv: "bank_inv sample_bank"
  by (simp add: bank_inv_def sample_bank_def)

text \<open>The bank with one account, and a deposit of 100 kobo to it.\<close>

definition sample_opened :: "(account_db, (ledger_db, unit) world) world" where
  "sample_opened =
     account_exec (CmdOpen \<lparr>oa_CustomerID = ''cust'', oa_IdempotencyKey = ''o1''\<rparr>) sample_bank"

definition sample_deposit :: MoneyCommand where
  "sample_deposit = \<lparr>mc_AccountID = ''vv'', mc_Amount = \<lparr>amountKobo = 100, currency = NGN\<rparr>,
     mc_IdempotencyKey = ''k1'', mc_Narration = ''''\<rparr>"

lemma sample_opened_inv: "bank_inv sample_opened"
  unfolding sample_opened_def by (rule bank_inv_exec [OF sample_bank_inv])

lemma LoadAccount_run:
  "account_inv (db w) \<Longrightarrow> healthy w \<Longrightarrow>
     LoadAccount a w = (Inr (replayed (db w) a), w\<lparr>tick := tick w + 2\<rparr>)"
  by (simp add: LoadAccount_iff)

section \<open>Properties\<close>

text \<open>
  C10. Loading an account from its latest snapshot and the events after it gives exactly the state
  that replaying all of its events from the beginning gives, for every database that satisfies the
  invariant: the read limit of 10000 events never cuts the stream short.
\<close>

theorem LoadAccount_replays:
  assumes "account_inv (db w)" and "healthy w"
  shows "LoadAccount a w = (Inr (replayed (db w) a), w\<lparr>tick := tick w + 2\<rparr>)"
  using assms by (rule LoadAccount_run)

lemma sample_opened_simps:
  "healthy sample_opened" "account_inv (db sample_opened)" "ledger_inv (db (peer sample_opened))"
proof -
  show "account_inv (db sample_opened)" "ledger_inv (db (peer sample_opened))"
    using sample_opened_inv by (simp_all add: bank_inv_def)
  show "healthy sample_opened"
    using env_op_healthy [OF env_Open, of "\<lparr>oa_CustomerID = ''cust'', oa_IdempotencyKey = ''o1''\<rparr>" sample_bank]
    by (simp add: sample_opened_def sample_bank_def healthy_def) (metis prod.collapse)
qed

theorem LoadAccount_replays_witness:
  "fst (LoadAccount ''vv'' sample_opened) = Inr \<lparr>ac_id = ''vv'', ac_customerID = ''cust'', ac_status = StatusActive,
     ac_version = 1, ac_changes = []\<rparr>"
proof -
  have "replayed (db sample_opened) ''vv'' = \<lparr>ac_id = ''vv'', ac_customerID = ''cust'', ac_status = StatusActive,
     ac_version = 1, ac_changes = []\<rparr>" by code_simp
  then show ?thesis using LoadAccount_replays [of sample_opened "''vv''"] sample_opened_simps by simp
qed

text \<open>
  C3. The two services keep both databases consistent: from a state that satisfies the invariants,
  every sequence of commands to the account service, whatever the network does to each call of the
  ledger and whichever statements fail, leaves an account database whose projection of every
  account is the replay of its events, and a ledger in which every balance is the sum of the
  postings in the log and not negative.
\<close>

theorem bank_run_consistent:
  assumes "account_inv (db w)" and "ledger_inv (db (peer w))"
  shows "account_inv (db (fold account_exec cs w)) \<and> ledger_inv (db (peer (fold account_exec cs w))) \<and>
     accounts_projection (db (fold account_exec cs w)) a =
       (if stream (db (fold account_exec cs w)) a = [] then None
        else Some (projection_of a (replayed (db (fold account_exec cs w)) a))) \<and>
     balance (db (peer (fold account_exec cs w))) 1 a =
       log_balance (event_store_events (db (peer (fold account_exec cs w)))) a \<and>
     0 \<le> balance (db (peer (fold account_exec cs w))) 1 a"
  using bank_inv_run [of w cs] assms account_invD(6) [of "db (fold account_exec cs w)" a]
    ledger_invD(2,3) [of "db (peer (fold account_exec cs w))" a]
  unfolding bank_inv_def by blast

theorem bank_run_consistent_witness:
  "accounts_projection (db (fold account_exec [] sample_opened)) ''vv'' =
       Some \<lparr>ap_AccountID = ''vv'', ap_CustomerID = ''cust'', ap_Status = StatusActive, ap_Version = 1\<rparr> \<and>
   0 \<le> balance (db (peer (fold account_exec [CmdDeposit ReplyLost sample_deposit, CmdDeposit Delivered sample_deposit]
     sample_opened))) 1 ''vv''"
proof -
  have "stream (db sample_opened) ''vv'' \<noteq> [] \<and> projection_of ''vv'' (replayed (db sample_opened) ''vv'') =
     \<lparr>ap_AccountID = ''vv'', ap_CustomerID = ''cust'', ap_Status = StatusActive, ap_Version = 1\<rparr>" by code_simp
  then have "accounts_projection (db (fold account_exec [] sample_opened)) ''vv'' =
       Some \<lparr>ap_AccountID = ''vv'', ap_CustomerID = ''cust'', ap_Status = StatusActive, ap_Version = 1\<rparr>"
    using bank_run_consistent [OF sample_opened_simps(2,3), of "[]" "''vv''"] by simp
  then show ?thesis
    using bank_run_consistent [OF sample_opened_simps(2,3),
        of "[CmdDeposit ReplyLost sample_deposit, CmdDeposit Delivered sample_deposit]" "''vv''"] by blast
qed

text \<open>Two attempts at the sample deposit, both answered.\<close>

definition sample_retried :: "(go_error + id \<times> id) list \<times> (account_db, (ledger_db, unit) world) world" where
  "sample_retried = money_attempts (\<lambda>t. DepositMoneyHandler_Handle (LedgerClient_PostEntry t Server_PostEntry)
     sample_deposit) [Delivered, Delivered] sample_opened"

lemma sample_retried_run:
  "case sample_retried of (rs, w) \<Rightarrow>
     rs = [Inr (''vv'', ''uuuuu''), Inr (''vv'', ''uuuuu'')] \<and>
     map ev_Type (stream (db w) ''vv'') =
       [''account.opened.v1'', ''account.money_deposited.v1'', ''account.money_deposited.v1''] \<and>
     length (event_store_events (db (peer w))) = 1"
  by code_simp

text \<open>
  C4. Retrying a deposit is safe for the ledger: however often the same deposit is sent to the
  account service, with calls or answers lost on the way to the ledger and statements of either
  database failing, the ledger books the amount at most once and on no other account, exactly once
  when one attempt succeeded, and all successful attempts return the same entry.
\<close>

theorem deposit_retries_book_once:
  assumes "account_inv (db w)" and "ledger_inv (db (peer w))"
    and "money_attempts (\<lambda>t. DepositMoneyHandler_Handle (LedgerClient_PostEntry t Server_PostEntry) cmd) ts w = (rs, w')"
    and "ledger_idempotency (db (peer w)) (mc_IdempotencyKey cmd) = None"
  shows "balance (db (peer w')) 1 = balance (db (peer w)) 1 \<and> (\<forall>x. Inr x \<notin> set rs) \<or>
     balance (db (peer w')) 1 = (balance (db (peer w)) 1)(mc_AccountID cmd :=
       balance (db (peer w)) 1 (mc_AccountID cmd) + sint (amountKobo (mc_Amount cmd))) \<and>
     (\<forall>x y i j. Inr (x, i) \<in> set rs \<longrightarrow> Inr (y, j) \<in> set rs \<longrightarrow> i = j)"
proof -
  note e = remote.attempts_effect [OF money_events_keep(1) assms(2,1) assms(3) [unfolded handlers_money]]
  have key: "ledger_idempotency (db (peer w')) (mc_IdempotencyKey cmd) = Some i" if "Inr (x, i) \<in> set rs" for x i
    using e that by blast
  have same: "\<forall>x y i j. Inr (x, i) \<in> set rs \<longrightarrow> Inr (y, j) \<in> set rs \<longrightarrow> i = j"
    by (intro allI impI) (drule key, drule key, simp)
  consider "balance (db (peer w')) 1 = balance (db (peer w)) 1"
      "ledger_idempotency (db (peer w')) = ledger_idempotency (db (peer w))"
    | "balance (db (peer w')) 1 = (balance (db (peer w)) 1)(mc_AccountID cmd :=
       balance (db (peer w)) 1 (mc_AccountID cmd) + sint (amountKobo (mc_Amount cmd)))"
    using e unfolding books_def ledger_amount_simps by blast
  then show ?thesis
  proof cases
    case 1
    then have "Inr x \<notin> set rs" for x using key [of "fst x" "snd x"] assms(4) by auto
    then show ?thesis using 1 by blast
  next
    case 2
    then show ?thesis using same by blast
  qed
qed

theorem deposit_retries_book_once_witness:
  "balance (db (peer (snd sample_retried))) 1 ''vv'' = 100"
proof -
  have "Inr (''vv'', ''uuuuu'') \<in> set (fst sample_retried)"
    using sample_retried_run by (simp add: split_beta)
  moreover have "ledger_idempotency (db (peer sample_opened)) ''k1'' = None"
    "balance (db (peer sample_opened)) 1 ''vv'' = 0" by code_simp+
  ultimately show ?thesis
    using deposit_retries_book_once [OF sample_opened_simps(2,3), of sample_deposit
        "[Delivered, Delivered]" "fst sample_retried" "snd sample_retried"]
    by (auto simp: sample_deposit_def sample_retried_def)
qed

text \<open>
  Retrying a deposit is not safe for the account: the second attempt with the same key is
  answered by the ledger from its idempotency table, but the account service records a second
  deposit event. After two attempts the ledger has one posting and the account two deposits.
\<close>

theorem deposit_retry_duplicates_event:
  "fst sample_retried = [Inr (''vv'', ''uuuuu''), Inr (''vv'', ''uuuuu'')] \<and>
   map ev_Type (stream (db (snd sample_retried)) ''vv'') =
     [''account.opened.v1'', ''account.money_deposited.v1'', ''account.money_deposited.v1''] \<and>
   length (event_store_events (db (peer (snd sample_retried)))) = 1"
  using sample_retried_run by (simp add: split_beta)

text \<open>
  C32. The service moves money before it checks the account. When the account does not exist or is
  not active and the ledger accepts the posting, the deposit fails with \<open>ErrAccountNotActive\<close>,
  the account database is as before, and the ledger keeps the posting: there is no compensation.
\<close>

theorem deposit_books_before_checking:
  assumes "account_inv (db w)" and "healthy w"
    and "ac_status (replayed (db w) (mc_AccountID cmd)) \<noteq> StatusActive"
    and "mc_AccountID cmd \<noteq> ''''" and "mc_IdempotencyKey cmd \<noteq> ''''"
    and "ValidateNGNAmountPositive (mc_Amount cmd) = None"
    and "post (mc_IdempotencyKey cmd) (mc_AccountID cmd) LedgerEntryTypeDeposit (mc_Amount cmd)
           (mc_Narration cmd) (peer w) = (Inr eid, p')"
  shows "\<exists>w'. DepositMoneyHandler_Handle post cmd w = (Inl ErrAccountNotActive, w') \<and>
     peer w' = p' \<and> db w' = db w"
proof -
  have "money_event_tx MoneyDeposited cmd eid
      (w\<lparr>peer := p', tick := Suc (tick w), txtime := Some (clock w (tick w))\<rparr>) =
      (Inl ErrAccountNotActive, w\<lparr>peer := p', tick := tick w + 3, txtime := Some (clock w (tick w))\<rparr>)"
    using assms(1-3) by (simp add: money_event_tx_def bindE_def LoadAccount_run throwE_def)
  then show ?thesis
    using assms(2,4-7)
    by (simp add: DepositMoneyHandler_Handle_def bindE_def callPeer_def withTx_def rollback_def Let_def)
qed

definition sample_stray :: MoneyCommand where
  "sample_stray = sample_deposit\<lparr>mc_AccountID := ''nobody''\<rparr>"

theorem deposit_books_before_checking_witness:
  "\<exists>w'. DepositMoneyHandler_Handle (LedgerClient_PostEntry Delivered Server_PostEntry) sample_stray sample_bank =
      (Inl ErrAccountNotActive, w') \<and> balance (db (peer w')) 1 ''nobody'' = 100"
proof -
  let ?post = "LedgerClient_PostEntry Delivered Server_PostEntry (mc_IdempotencyKey sample_stray)
    (mc_AccountID sample_stray) LedgerEntryTypeDeposit (mc_Amount sample_stray) (mc_Narration sample_stray)
    (peer sample_bank)"
  have post: "fst ?post = Inr ''uuuuu''" "balance (db (snd ?post)) 1 ''nobody'' = 100" by code_simp+
  have side: "ac_status (replayed (db sample_bank) (mc_AccountID sample_stray)) \<noteq> StatusActive"
    "mc_AccountID sample_stray \<noteq> ''''" "mc_IdempotencyKey sample_stray \<noteq> ''''"
    "ValidateNGNAmountPositive (mc_Amount sample_stray) = None" by code_simp+
  have "account_inv (db sample_bank)" "healthy sample_bank"
    by (simp_all add: sample_bank_def healthy_def)
  from deposit_books_before_checking [OF this side, of "LedgerClient_PostEntry Delivered Server_PostEntry"
      "''uuuuu''" "snd ?post"] post
  show ?thesis by (metis prod.collapse)
qed

text \<open>
  The ledger's method behind its interceptor. The account service's client attaches no metadata of
  its own, so a call of it has neither \<open>authorization\<close> nor \<open>x-fincore-subject\<close>.
\<close>

definition ledger_PostEntry_method :: "'i authz_env \<Rightarrow> call_ctx \<Rightarrow> 'q post_method" where
  "ledger_PostEntry_method env ctx req =
     UnaryAuthzInterceptor env ledger_perms ctx ''/ledger.v1.LedgerService/PostEntry'' (\<lambda>lsn. Server_PostEntry req)"

lemma ledger_method_rejects:
  assumes "cc_metadata ctx = Some md" and "md ''authorization'' = []" and "md ''x-fincore-subject'' = []"
  shows "ledger_PostEntry_method env ctx req p = (Inl (Status Unauthenticated ''missing authorization''), p)"
proof -
  have "required_perm ledger_perms ''/ledger.v1.LedgerService/PostEntry'' = Some ''ledger:write''" by code_simp
  moreover have "TrimSpace '''' = ''''" by code_simp
  then have "authenticate env ctx = Inl (Status Unauthenticated ''missing authorization'')"
    using assms
    by (simp add: authenticate_def payloadFromGatewayHeaders_def MD_Get_def ToLower_headers Let_def)
  ultimately show ?thesis by (simp add: ledger_PostEntry_method_def UnaryAuthzInterceptor_def throwE_def)
qed

text \<open>
  The account service cannot post behind the ledger's interceptor: its client forwards no
  credentials, so the ledger answers \<open>Unauthenticated\<close>, every deposit and withdrawal fails, and
  neither database changes.
\<close>

theorem account_service_unauthenticated:
  assumes "cc_metadata ctx = Some md" and "md ''authorization'' = []" and "md ''x-fincore-subject'' = []"
    and "handler \<in> {DepositMoneyHandler_Handle, WithdrawMoneyHandler_Handle}"
  shows "\<exists>e. handler (LedgerClient_PostEntry t (ledger_PostEntry_method env ctx)) cmd w = (Inl e, w)"
proof -
  have call: "\<exists>e. LedgerClient_PostEntry t (ledger_PostEntry_method env ctx) k a etype m nar p = (Inl e, p)"
    for k a etype m nar p
    by (cases t) (auto simp: LedgerClient_PostEntry_def ledger_method_rejects [OF assms(1-3)] Let_def)
  have "\<exists>e. money_handle (LedgerClient_PostEntry t (ledger_PostEntry_method env ctx)) etype mk cmd w = (Inl e, w)"
    for etype mk
    using call [of "mc_IdempotencyKey cmd" "mc_AccountID cmd" etype "mc_Amount cmd" "mc_Narration cmd" "peer w"]
    by (auto simp: money_handle_def throwE_def bindE_def callPeer_def split: option.splits)
  then show ?thesis using assms(4) by (auto simp: handlers_money)
qed

theorem account_service_unauthenticated_witness:
  "\<exists>e. DepositMoneyHandler_Handle (LedgerClient_PostEntry Delivered
      (ledger_PostEntry_method sample_authz \<lparr>cc_metadata = Some (\<lambda>_. []), cc_peer = None\<rparr>))
      sample_deposit sample_opened = (Inl e, sample_opened)"
  by (rule account_service_unauthenticated [where md = "\<lambda>_. []"]) simp_all

text \<open>
  \<open>GetAccount\<close> tells the truth of both services: for an existing account, with no faults, it
  answers with the customer and the status that the account's events replay to, and with the
  balance that is the sum of the account's postings in the ledger's log.
\<close>

theorem GetAccount_answers:
  assumes "account_inv (db w)" and "ledger_inv (db (peer w))" and "healthy w" and "healthy (peer w)"
    and "stream (db w) a \<noteq> []" and "TrimSpace a \<noteq> ''''"
  shows "\<exists>b w'. AccountServer_GetAccount (LedgerClient_GetBalance Delivered (Server_GetBalance 0 evs)) a w =
      (Inr \<lparr>gar_AccountId = a, gar_CustomerId = ac_customerID (replayed (db w) a),
         gar_Status = ac_status (replayed (db w) a),
         gar_AvailableBalance = \<lparr>mm_Currency = ''NGN'', mm_AmountKobo = b\<rparr>\<rparr>, w') \<and>
     sint b = log_balance (event_store_events (db (peer w))) a"
proof -
  have a: "a \<noteq> ''''" using assms(6) by (metis TrimSpace_Nil)
  have "accounts_projection (db w) a = Some (projection_of a (replayed (db w) a))"
    using account_invD(6) [OF assms(1), of a] assms(5) by simp
  moreover have "LedgerClient_GetBalance Delivered (Server_GetBalance 0 evs) a (peer w) =
      (Inr \<lparr>amountKobo = balance_row (db (peer w)) 1 a, currency = NGN\<rparr>, (peer w)\<lparr>tick := Suc (tick (peer w))\<rparr>)"
    using assms(4,6)
    by (simp add: LedgerClient_GetBalance_def Server_GetBalance_def BalanceQuery_GetBalanceKobo_def bindE_def
        returnE_def sql_def sql_now_def Let_def Money_New_def balance_row_def NGN_def)
  moreover have "sint (balance_row (db (peer w)) 1 a) = log_balance (event_store_events (db (peer w))) a"
    using ledger_invD(2) [OF assms(2), of a] by (simp add: balance_def)
  ultimately show ?thesis
    using a assms(3)
    by (simp add: AccountServer_GetAccount_def bindE_def withTx_def AccountProjection_GetByID_def sql_def sql_now_def
        Let_def returnE_def callPeer_def projection_of_def NGN_def)
qed

theorem GetAccount_answers_witness:
  "\<exists>b w'. AccountServer_GetAccount (LedgerClient_GetBalance Delivered (Server_GetBalance 0 [])) ''vv'' sample_opened =
      (Inr \<lparr>gar_AccountId = ''vv'', gar_CustomerId = ''cust'', gar_Status = StatusActive,
         gar_AvailableBalance = \<lparr>mm_Currency = ''NGN'', mm_AmountKobo = b\<rparr>\<rparr>, w')"
proof -
  have "peer sample_opened = sample_ledger"
    using local_opD [OF local_Open, of "\<lparr>oa_CustomerID = ''cust'', oa_IdempotencyKey = ''o1''\<rparr>" sample_bank]
    by (simp add: sample_opened_def) (metis prod.collapse sample_bank_def world.select_convs(2))
  then have "healthy (peer sample_opened)" by simp
  moreover have "stream (db sample_opened) ''vv'' \<noteq> []" "TrimSpace ''vv'' \<noteq> ''''"
    "ac_customerID (replayed (db sample_opened) ''vv'') = ''cust''"
    "ac_status (replayed (db sample_opened) ''vv'') = StatusActive" by code_simp+
  ultimately show ?thesis
    using GetAccount_answers [of sample_opened "''vv''" "[]"] sample_opened_simps by simp blast
qed

end
