(* ===== verification/PaymentDomain.thy ===== *)
theory PaymentDomain
  imports Money EventStore GoStrings
begin

text \<open>
  \<open>src/services/payment-service/domain/payment.go\<close>: the payment aggregate, its events and its
  life cycle, and \<open>UnmarshalPaymentEvent\<close> of \<open>application/commands/load_payment.go\<close>. The events
  that the code passes as \<open>any\<close> are the four event types, so the branches for other types of
  \<open>Apply\<close> cannot be taken.
\<close>

section \<open>Payments\<close>

type_synonym PaymentStatus = string

definition StatusInitiated :: PaymentStatus where
  "StatusInitiated = ''initiated''"

definition StatusAuthorized :: PaymentStatus where
  "StatusAuthorized = ''authorized''"

definition StatusSettled :: PaymentStatus where
  "StatusSettled = ''settled''"

definition StatusFailed :: PaymentStatus where
  "StatusFailed = ''failed''"

datatype payment_event =
    PaymentInitiated (pv_PaymentID: id) (pv_FromAccountID: id) (pv_ToAccountID: id) (pv_Amount: Money)
      (pv_Narration: string) (pv_OccurredAt: time)
  | PaymentAuthorized (pv_PaymentID: id) (pv_OccurredAt: time)
  | PaymentSettled (pv_PaymentID: id) (pv_OccurredAt: time)
  | PaymentFailed (pv_PaymentID: id) (pv_Reason: string) (pv_OccurredAt: time)

fun payment_EventType :: "payment_event \<Rightarrow> string" where
  "payment_EventType (PaymentInitiated _ _ _ _ _ _) = ''payment.initiated.v1''"
| "payment_EventType (PaymentAuthorized _ _) = ''payment.authorized.v1''"
| "payment_EventType (PaymentSettled _ _) = ''payment.settled.v1''"
| "payment_EventType (PaymentFailed _ _ _) = ''payment.failed.v1''"

record Payment =
  py_id :: id
  py_fromAccountID :: id
  py_toAccountID :: id
  py_amount :: Money
  py_narration :: string
  py_status :: PaymentStatus
  py_version :: int
  py_changes :: "payment_event list"

definition Payment_zero :: Payment where
  "Payment_zero = \<lparr>py_id = '''', py_fromAccountID = '''', py_toAccountID = '''', py_amount = Money_zero,
     py_narration = '''', py_status = '''', py_version = 0, py_changes = []\<rparr>"

fun Payment_Apply :: "payment_event \<Rightarrow> Payment \<Rightarrow> Payment" where
  "Payment_Apply (PaymentInitiated i f t m n _) p =
     p\<lparr>py_id := i, py_fromAccountID := f, py_toAccountID := t, py_amount := m, py_narration := n,
       py_status := StatusInitiated, py_version := py_version p + 1\<rparr>"
| "Payment_Apply (PaymentAuthorized _ _) p = p\<lparr>py_status := StatusAuthorized, py_version := py_version p + 1\<rparr>"
| "Payment_Apply (PaymentSettled _ _) p = p\<lparr>py_status := StatusSettled, py_version := py_version p + 1\<rparr>"
| "Payment_Apply (PaymentFailed _ _ _) p = p\<lparr>py_status := StatusFailed, py_version := py_version p + 1\<rparr>"

definition Payment_raise :: "payment_event \<Rightarrow> Payment \<Rightarrow> Payment" where
  "Payment_raise e p = (let p' = Payment_Apply e p in p'\<lparr>py_changes := py_changes p' @ [e]\<rparr>)"

definition Payment_PullChanges :: "Payment \<Rightarrow> payment_event list \<times> Payment" where
  "Payment_PullChanges p = (py_changes p, p\<lparr>py_changes := []\<rparr>)"

definition payment_validateAmount :: "Money \<Rightarrow> go_error option" where
  "payment_validateAmount m =
     (if currency m \<noteq> NGN then Some (ErrorString ''unsupported currency'')
      else if sint (amountKobo m) \<le> 0 then Some (ErrorString ''amount must be positive'')
      else None)"

definition NewPayment :: "id \<Rightarrow> id \<Rightarrow> Money \<Rightarrow> string \<Rightarrow> ('d, 'p, Payment) go" where
  "NewPayment fromAccountID toAccountID amount narration =
     (if TrimSpace fromAccountID = '''' then throwE (ErrorString ''from_account_id required'')
      else if TrimSpace toAccountID = '''' then throwE (ErrorString ''to_account_id required'')
      else if fromAccountID = toAccountID
      then throwE (ErrorString ''from_account_id and to_account_id must differ'')
      else case payment_validateAmount amount of
        Some err \<Rightarrow> throwE err
      | None \<Rightarrow>
          bindE newID (\<lambda>i.
          bindE nowUTC (\<lambda>t.
          returnE (Payment_raise (PaymentInitiated i fromAccountID toAccountID amount narration t)
            (Payment_zero\<lparr>py_id := i, py_fromAccountID := fromAccountID, py_toAccountID := toAccountID,
               py_amount := amount, py_narration := narration, py_status := StatusInitiated\<rparr>)))))"

definition Payment_Authorize :: "Payment \<Rightarrow> ('d, 'p, Payment) go" where
  "Payment_Authorize p =
     (if py_status p \<noteq> StatusInitiated then throwE (ErrorString ''payment not in initiated state'')
      else bindE nowUTC (\<lambda>t. returnE (Payment_raise (PaymentAuthorized (py_id p) t) p)))"

definition Payment_Settle :: "Payment \<Rightarrow> ('d, 'p, Payment) go" where
  "Payment_Settle p =
     (if py_status p \<noteq> StatusAuthorized then throwE (ErrorString ''payment not in authorized state'')
      else bindE nowUTC (\<lambda>t. returnE (Payment_raise (PaymentSettled (py_id p) t) p)))"

definition Payment_Fail :: "string \<Rightarrow> Payment \<Rightarrow> ('d, 'p, Payment) go" where
  "Payment_Fail reason p =
     (if py_status p = StatusSettled then throwE (ErrorString ''cannot fail a settled payment'')
      else
        let reason = TrimSpace reason; reason = (if reason = '''' then ''failed'' else reason) in
        bindE nowUTC (\<lambda>t. returnE (Payment_raise (PaymentFailed (py_id p) reason t) p)))"

section \<open>JSON\<close>

fun payment_event_Marshal :: "payment_event \<Rightarrow> json" where
  "payment_event_Marshal (PaymentInitiated i f t m n at) =
     JObj [(''payment_id'', JStr i), (''from_account_id'', JStr f), (''to_account_id'', JStr t),
       (''amount'', Money_Marshal m), (''narration'', JStr n), (''occurred_at'', JTime at)]"
| "payment_event_Marshal (PaymentAuthorized i at) = JObj [(''payment_id'', JStr i), (''occurred_at'', JTime at)]"
| "payment_event_Marshal (PaymentSettled i at) = JObj [(''payment_id'', JStr i), (''occurred_at'', JTime at)]"
| "payment_event_Marshal (PaymentFailed i r at) =
     JObj [(''payment_id'', JStr i), (''reason'', JStr r), (''occurred_at'', JTime at)]"

definition PaymentInitiated_Unmarshal :: "json \<Rightarrow> go_error + payment_event" where
  "PaymentInitiated_Unmarshal j =
     bindS (dec_obj j) (\<lambda>kvs.
     bindS (dec_string (jmember kvs ''payment_id'')) (\<lambda>i.
     bindS (dec_string (jmember kvs ''from_account_id'')) (\<lambda>f.
     bindS (dec_string (jmember kvs ''to_account_id'')) (\<lambda>t.
     bindS (Money_Unmarshal (jmember kvs ''amount'')) (\<lambda>m.
     bindS (dec_string (jmember kvs ''narration'')) (\<lambda>n.
     bindS (dec_time (jmember kvs ''occurred_at'')) (\<lambda>at.
     Inr (PaymentInitiated i f t m n at))))))))"

definition dec_payment_step :: "(id \<Rightarrow> time \<Rightarrow> payment_event) \<Rightarrow> json \<Rightarrow> go_error + payment_event" where
  "dec_payment_step c j =
     bindS (dec_obj j) (\<lambda>kvs.
     bindS (dec_string (jmember kvs ''payment_id'')) (\<lambda>i.
     bindS (dec_time (jmember kvs ''occurred_at'')) (\<lambda>at. Inr (c i at))))"

definition UnmarshalPaymentEvent :: "string \<Rightarrow> json \<Rightarrow> go_error + payment_event" where
  "UnmarshalPaymentEvent etype j =
     (if etype = ''payment.initiated.v1'' then PaymentInitiated_Unmarshal j
      else if etype = ''payment.authorized.v1'' then dec_payment_step PaymentAuthorized j
      else if etype = ''payment.settled.v1'' then dec_payment_step PaymentSettled j
      else if etype = ''payment.failed.v1'' then
        bindS (dec_obj j) (\<lambda>kvs.
        bindS (dec_string (jmember kvs ''payment_id'')) (\<lambda>i.
        bindS (dec_string (jmember kvs ''reason'')) (\<lambda>r.
        bindS (dec_time (jmember kvs ''occurred_at'')) (\<lambda>at. Inr (PaymentFailed i r at)))))
      else Inl (ErrorString ''unknown event type''))"

section \<open>Facts\<close>

fun forget_payment_amount :: "payment_event \<Rightarrow> payment_event" where
  "forget_payment_amount (PaymentInitiated i f t m n at) = PaymentInitiated i f t Money_zero n at"
| "forget_payment_amount e = e"

lemma payment_event_roundtrip:
  "UnmarshalPaymentEvent (payment_EventType ev) (payment_event_Marshal ev) = Inr (forget_payment_amount ev)"
  by (cases ev)
     (simp_all add: UnmarshalPaymentEvent_def PaymentInitiated_Unmarshal_def dec_payment_step_def jmember_def
       Money_Marshal_def)

lemma Payment_Apply_frame [simp]:
  "py_changes (Payment_Apply e p) = py_changes p" "py_version (Payment_Apply e p) = py_version p + 1"
  by (cases e; simp)+

lemma Payment_Apply_changes:
  "Payment_Apply e (p\<lparr>py_changes := cs\<rparr>) = (Payment_Apply e p)\<lparr>py_changes := cs\<rparr>"
  by (cases e) simp_all

interpretation payment: event_sourced Payment_Apply Payment_zero py_version
  by unfold_locales (simp_all add: Payment_zero_def)

lemma payment_Statuses_differ [simp]:
  "StatusInitiated \<noteq> StatusAuthorized" "StatusInitiated \<noteq> StatusSettled" "StatusInitiated \<noteq> StatusFailed"
  "StatusAuthorized \<noteq> StatusInitiated" "StatusAuthorized \<noteq> StatusSettled" "StatusAuthorized \<noteq> StatusFailed"
  "StatusSettled \<noteq> StatusInitiated" "StatusSettled \<noteq> StatusAuthorized" "StatusSettled \<noteq> StatusFailed"
  "StatusFailed \<noteq> StatusInitiated" "StatusFailed \<noteq> StatusAuthorized" "StatusFailed \<noteq> StatusSettled"
  "StatusInitiated \<noteq> ''''" "StatusAuthorized \<noteq> ''''" "StatusSettled \<noteq> ''''" "StatusFailed \<noteq> ''''"
  by (simp_all add: StatusInitiated_def StatusAuthorized_def StatusSettled_def StatusFailed_def)

section \<open>The life cycle\<close>

text \<open>
  The histories of a payment as a state machine: initiated once, then authorized and settled in
  this order, and failed at any point before it is settled, possibly more than once.
\<close>

inductive payment_history :: "id \<Rightarrow> payment_event list \<Rightarrow> PaymentStatus \<Rightarrow> bool" for i where
  ph_initiated: "payment_history i [PaymentInitiated i f t m n at] StatusInitiated"
| ph_authorized: "payment_history i es StatusInitiated \<Longrightarrow>
    payment_history i (es @ [PaymentAuthorized i at]) StatusAuthorized"
| ph_settled: "payment_history i es StatusAuthorized \<Longrightarrow>
    payment_history i (es @ [PaymentSettled i at]) StatusSettled"
| ph_failed: "payment_history i es s \<Longrightarrow> s \<noteq> StatusSettled \<Longrightarrow>
    payment_history i (es @ [PaymentFailed i r at]) StatusFailed"

inductive_cases payment_history_settledE: "payment_history i es StatusSettled"
inductive_cases payment_history_authorizedE: "payment_history i es StatusAuthorized"
inductive_cases payment_history_initiatedE: "payment_history i es StatusInitiated"

lemma payment_history_status:
  "payment_history i es s \<Longrightarrow> py_status (fold Payment_Apply es Payment_zero) = s \<and>
     py_id (fold Payment_Apply es Payment_zero) = i \<and>
     s \<in> {StatusInitiated, StatusAuthorized, StatusSettled, StatusFailed}"
  by (induction rule: payment_history.induct) simp_all

text \<open>A settled payment has been initiated, authorized and settled, and nothing else.\<close>

lemma payment_history_settled:
  "payment_history i es StatusSettled \<Longrightarrow>
     \<exists>f t m n a1 a2 a3. es = [PaymentInitiated i f t m n a1, PaymentAuthorized i a2, PaymentSettled i a3]"
  by (erule payment_history_settledE; (erule payment_history_authorizedE)?; (erule payment_history_initiatedE)?)
     simp_all

text \<open>The payments that the domain operations can produce.\<close>

inductive payment_run :: "Payment \<Rightarrow> bool" where
  pr_new: "NewPayment f t m n (w :: (unit, unit) world) = (Inr p, w') \<Longrightarrow> payment_run p"
| pr_authorize: "payment_run p \<Longrightarrow> Payment_Authorize p (w :: (unit, unit) world) = (Inr p', w') \<Longrightarrow> payment_run p'"
| pr_settle: "payment_run p \<Longrightarrow> Payment_Settle p (w :: (unit, unit) world) = (Inr p', w') \<Longrightarrow> payment_run p'"
| pr_fail: "payment_run p \<Longrightarrow> Payment_Fail r p (w :: (unit, unit) world) = (Inr p', w') \<Longrightarrow> payment_run p'"

definition payment_rebuilt :: "Payment \<Rightarrow> bool" where
  "payment_rebuilt p \<longleftrightarrow> fold Payment_Apply (py_changes p) Payment_zero = p\<lparr>py_changes := []\<rparr>"

lemma payment_rebuilt_raise: "payment_rebuilt p \<Longrightarrow> payment_rebuilt (Payment_raise e p)"
  by (simp add: payment_rebuilt_def Payment_raise_def Let_def Payment_Apply_changes)

lemma payment_run_inv:
  "payment_run p \<Longrightarrow> payment_rebuilt p \<and> payment_history (py_id p) (py_changes p) (py_status p)"
proof (induction rule: payment_run.induct)
  case (pr_new f t m n w p w')
  then show ?case
    by (auto simp: NewPayment_def go_inv payment_rebuilt_def Payment_raise_def Payment_zero_def ph_initiated
        split: if_splits option.splits)
next
  case (pr_authorize p w p' w')
  then show ?case
    by (auto simp: Payment_Authorize_def go_inv payment_rebuilt_raise split: if_splits)
       (auto simp: Payment_raise_def intro: ph_authorized)
next
  case (pr_settle p w p' w')
  then show ?case
    by (auto simp: Payment_Settle_def go_inv payment_rebuilt_raise split: if_splits)
       (auto simp: Payment_raise_def intro: ph_settled)
next
  case (pr_fail p r w p' w')
  then show ?case
    by (auto simp: Payment_Fail_def go_inv payment_rebuilt_raise Let_def split: if_splits)
       (auto simp: Payment_raise_def intro: ph_failed)
qed

section \<open>Properties\<close>

text \<open>
  C15. The life cycle of a payment: whatever operations produced it, its events form a history of
  the state machine above, replaying them gives back its state, and its version counts them. A
  settled payment went through initiated and authorized exactly once, was never failed, and no
  operation succeeds on it any more.
\<close>

theorem payment_lifecycle:
  assumes "payment_run p"
  shows "payment_history (py_id p) (py_changes p) (py_status p) \<and>
     fold Payment_Apply (py_changes p) Payment_zero = p\<lparr>py_changes := []\<rparr> \<and>
     py_version p = int (length (py_changes p)) \<and>
     (py_status p = StatusSettled \<longrightarrow>
        map payment_EventType (py_changes p) =
          [''payment.initiated.v1'', ''payment.authorized.v1'', ''payment.settled.v1''] \<and>
        (\<exists>e1 e2 e3. fst (Payment_Authorize p (w :: (unit, unit) world)) = Inl e1 \<and>
           fst (Payment_Settle p w) = Inl e2 \<and> fst (Payment_Fail r p w) = Inl e3))"
proof -
  have r: "fold Payment_Apply (py_changes p) Payment_zero = p\<lparr>py_changes := []\<rparr>"
    and h: "payment_history (py_id p) (py_changes p) (py_status p)"
    using payment_run_inv [OF assms] by (simp_all add: payment_rebuilt_def)
  have "py_version p = py_version (fold Payment_Apply (py_changes p) Payment_zero)" by (simp add: r)
  then have "py_version p = int (length (py_changes p))" by (simp only: payment.version_replay)
  moreover have "map payment_EventType (py_changes p) =
      [''payment.initiated.v1'', ''payment.authorized.v1'', ''payment.settled.v1'']" if "py_status p = StatusSettled"
    using payment_history_settled [of "py_id p" "py_changes p"] h that by auto
  ultimately show ?thesis
    using r h by (simp add: Payment_Authorize_def Payment_Settle_def Payment_Fail_def throwE_def)
qed

theorem payment_lifecycle_witness:
  "\<exists>p. payment_run p \<and> py_status p = StatusSettled \<and> py_version p = 3"
proof -
  let ?w = "\<lparr>db = (), peer = (), clock = (\<lambda>n. 1), uuid = (\<lambda>n. ''p1''), fault = (\<lambda>n. None), tick = 0,
    txtime = None\<rparr> :: (unit, unit) world"
  let ?m = "\<lparr>amountKobo = 100, currency = NGN\<rparr>"
  let ?p1 = "Payment_raise (PaymentInitiated ''p1'' ''a'' ''b'' ?m '''' 1)
    (Payment_zero\<lparr>py_id := ''p1'', py_fromAccountID := ''a'', py_toAccountID := ''b'', py_amount := ?m,
       py_narration := '''', py_status := StatusInitiated\<rparr>)"
  let ?p2 = "Payment_raise (PaymentAuthorized ''p1'' 1) ?p1"
  let ?p3 = "Payment_raise (PaymentSettled ''p1'' 1) ?p2"
  have trim: "TrimSpace ''a'' = ''a''" "TrimSpace ''b'' = ''b''" by code_simp+
  have amount: "payment_validateAmount ?m = None"
    using sint_of_int64 [of 100] by (simp add: payment_validateAmount_def in_int64_def)
  have new: "NewPayment ''a'' ''b'' ?m '''' ?w = (Inr ?p1, ?w\<lparr>tick := 2\<rparr>)"
    by (simp add: NewPayment_def trim amount go_run numeral_2_eq_2)
  have auth: "Payment_Authorize ?p1 ?w = (Inr ?p2, ?w\<lparr>tick := 1\<rparr>)"
    by (simp add: Payment_Authorize_def Payment_raise_def Let_def go_run)
  have settle: "Payment_Settle ?p2 ?w = (Inr ?p3, ?w\<lparr>tick := 1\<rparr>)"
    by (simp add: Payment_Settle_def Payment_raise_def Let_def go_run)
  have run: "payment_run ?p3" by (rule pr_settle [OF pr_authorize [OF pr_new [OF new] auth] settle])
  have "py_status ?p3 = StatusSettled" by (simp add: Payment_raise_def Let_def)
  moreover have "py_version ?p3 = int (length (py_changes ?p3))"
    by (rule payment_lifecycle [OF run, THEN conjunct2, THEN conjunct2, THEN conjunct1])
  then have "py_version ?p3 = 3" by (simp add: Payment_raise_def Let_def Payment_zero_def)
  ultimately show ?thesis using run by blast
qed

end
