(* ===== verification/Payment.thy ===== *)
theory Payment
  imports PaymentDomain
begin

text \<open>
  The command side of the payment service: the projection repository and the query
  (\<open>src/services/payment-service/infrastructure/postgres\<close>), loading
  (\<open>application/commands/load_payment.go\<close>), the handlers that initiate, authorize, settle and
  fail a payment (\<open>application/commands\<close>), and the client that starts the Temporal workflow
  (\<open>infrastructure/temporal/client.go\<close>). The event table of this service has no sequence column;
  the number in the model is only the position of the row.
\<close>

section \<open>The database\<close>

record PaymentProjection =
  pp_PaymentID :: string
  pp_FromAccountID :: string
  pp_ToAccountID :: string
  pp_Currency :: string
  pp_AmountKobo :: int64
  pp_Narration :: string
  pp_Status :: string
  pp_TemporalWorkflowID :: string
  pp_TemporalRunID :: string
  pp_Version :: int

record payment_db = event_db +
  payments_projection :: "id \<Rightarrow> PaymentProjection option"

definition PaymentProjection_Upsert :: "PaymentProjection \<Rightarrow> (payment_db, 'p, unit) go" where
  "PaymentProjection_Upsert p = sql (\<lambda>d.
     Inr ((), d\<lparr>payments_projection := (payments_projection d)(pp_PaymentID p \<mapsto> p)\<rparr>))"

definition PaymentProjection_GetByID :: "id \<Rightarrow> (payment_db, 'p, PaymentProjection option) go" where
  "PaymentProjection_GetByID paymentID = sql (\<lambda>d. Inr (payments_projection d paymentID, d))"

text \<open>\<open>PaymentQuery.GetByID\<close> is the same statement on the pool.\<close>

definition PaymentQuery_GetByID :: "id \<Rightarrow> (payment_db, 'p, PaymentProjection option) go" where
  "PaymentQuery_GetByID paymentID = sql (\<lambda>d. Inr (payments_projection d paymentID, d))"

section \<open>Loading\<close>

primrec apply_stored :: "Event list \<Rightarrow> Payment \<Rightarrow> go_error + Payment" where
  "apply_stored [] p = Inr p"
| "apply_stored (se # evs) p =
     bindS (UnmarshalPaymentEvent (ev_Type se) (ev_Data se)) (\<lambda>ev. apply_stored evs (Payment_Apply ev p))"

definition LoadPayment :: "id \<Rightarrow> (payment_db, 'p, Payment) go" where
  "LoadPayment paymentID =
     bindE (Store_Read paymentID 0 10000) (\<lambda>evs. liftE (apply_stored evs Payment_zero))"

section \<open>Events and messages\<close>

definition paymentEventsTopicV1 :: string where
  "paymentEventsTopicV1 = ''banking.payments.v1''"

definition paymentEventEnvelope :: "string \<Rightarrow> id \<Rightarrow> string \<Rightarrow> int \<Rightarrow> time \<Rightarrow> json \<Rightarrow> json" where
  "paymentEventEnvelope eventType aggregateID aggregateType version occurredAt data =
     JObj [(''event_type'', JStr eventType), (''aggregate_id'', JStr aggregateID),
       (''aggregate_type'', JStr aggregateType), (''version'', JInt version),
       (''occurred_at_utc'', JTime occurredAt), (''data'', JBytes data)]"

definition payment_message :: "id \<Rightarrow> time \<Rightarrow> id \<Rightarrow> payment_event \<Rightarrow> int \<Rightarrow> Message" where
  "payment_message mid created paymentID ev ver =
     \<lparr>msg_ID = mid, msg_Topic = paymentEventsTopicV1, msg_Key = paymentID,
      msg_Value = paymentEventEnvelope (payment_EventType ev) paymentID ''payment'' ver (pv_OccurredAt ev)
        (payment_event_Marshal ev),
      msg_Headers = [(''event_type'', payment_EventType ev), (''aggregate_id'', paymentID),
        (''aggregate_type'', ''payment''), (''schema'', ''json-envelope.v1'')],
      msg_CreatedAt = created, msg_PublishedAt = None\<rparr>"

definition payment_store_event :: "id \<Rightarrow> id \<Rightarrow> payment_event \<Rightarrow> int \<Rightarrow> Event" where
  "payment_store_event evid paymentID ev ver =
     \<lparr>ev_ID = evid, ev_AggregateID = paymentID, ev_AggregateType = ''payment'', ev_Version = ver,
      ev_Type = payment_EventType ev, ev_OccurredAt = pv_OccurredAt ev, ev_Data = payment_event_Marshal ev,
      ev_Metadata = None\<rparr>"

section \<open>Initiating\<close>

record InitiatePayment =
  ip_FromAccountID :: id
  ip_ToAccountID :: id
  ip_Amount :: Money
  ip_Narration :: string
  ip_IdempotencyKey :: string

record TransferWorkflowInput =
  tw_PaymentID :: string
  tw_FromAccountID :: string
  tw_ToAccountID :: string
  tw_Currency :: string
  tw_AmountKobo :: int64
  tw_Narration :: string
  tw_IdempotencyKey :: string

text \<open>
  The Temporal SDK's \<open>ExecuteWorkflow\<close> is a parameter: workflow identifier, task queue, workflow
  name and input to the identifiers of the run. A \<open>*temporal.Client\<close> may be nil; its method then
  dereferences a nil pointer.
\<close>

type_synonym 'p execute_workflow =
  "string \<Rightarrow> string \<Rightarrow> string \<Rightarrow> TransferWorkflowInput \<Rightarrow> 'p \<Rightarrow> (go_error + string \<times> string) \<times> 'p"

record 'p temporal_Client =
  tc_ExecuteWorkflow :: "'p execute_workflow"
  tc_taskQueue :: string

definition TransferWorkflowName :: string where
  "TransferWorkflowName = ''payment.transfer.v1''"

definition StartTransferWorkflow ::
    "'p temporal_Client option \<Rightarrow> TransferWorkflowInput \<Rightarrow> (payment_db, 'p, string \<times> string) go" where
  "StartTransferWorkflow t input =
     (case t of
        None \<Rightarrow> throwE (Panic ''nil pointer dereference'')
      | Some c \<Rightarrow>
          callPeer (tc_ExecuteWorkflow c (''payment-transfer-'' @ tw_PaymentID input) (tc_taskQueue c)
            TransferWorkflowName input))"

definition Initiate_prepare :: "Payment \<Rightarrow> int \<times> payment_event \<Rightarrow> (payment_db, 'p, Event) go" where
  "Initiate_prepare p = (\<lambda>(i, ev).
     bindE newID (\<lambda>evid.
     bindE newID (\<lambda>mid.
     bindE nowUTC (\<lambda>created.
     bindE (wrapE ''enqueue outbox'' (Enqueue (payment_message mid created (py_id p) ev (i + 1)))) (\<lambda>_.
     returnE (payment_store_event evid (py_id p) ev (i + 1)))))))"

definition Initiate_tx :: "InitiatePayment \<Rightarrow> (payment_db, 'p, Payment \<times> PaymentProjection) go" where
  "Initiate_tx cmd =
     bindE (NewPayment (ip_FromAccountID cmd) (ip_ToAccountID cmd) (ip_Amount cmd) (ip_Narration cmd)) (\<lambda>p0.
     let (events, p) = Payment_PullChanges p0 in
     if \<exists>ev\<in>set events. \<not> is_PaymentInitiated ev then throwE (ErrorString ''unsupported event'')
     else
       bindE (mapE (Initiate_prepare p) (zip [0..int (length events) - 1] events)) (\<lambda>toAppend.
       bindE (wrapE ''append events'' (Store_Append toAppend)) (\<lambda>_.
       let createdProjection =
         \<lparr>pp_PaymentID = py_id p, pp_FromAccountID = ip_FromAccountID cmd, pp_ToAccountID = ip_ToAccountID cmd,
          pp_Currency = currency (ip_Amount cmd), pp_AmountKobo = amountKobo (ip_Amount cmd),
          pp_Narration = ip_Narration cmd, pp_Status = py_status p, pp_TemporalWorkflowID = '''',
          pp_TemporalRunID = '''', pp_Version = py_version p\<rparr> in
       bindE (PaymentProjection_Upsert createdProjection) (\<lambda>_.
       returnE (p, createdProjection)))))"

definition Initiate_correlate :: "id \<Rightarrow> string \<Rightarrow> string \<Rightarrow> (payment_db, 'p, unit) go" where
  "Initiate_correlate paymentID wid rid =
     bindE (PaymentProjection_GetByID paymentID) (\<lambda>r.
     case r of
       None \<Rightarrow> throwE (ErrorString ''payment not found'')
     | Some cur \<Rightarrow> PaymentProjection_Upsert (cur\<lparr>pp_TemporalWorkflowID := wid, pp_TemporalRunID := rid\<rparr>))"

text \<open>
  \<open>InitiatePaymentHandler.Handle\<close>; the interface value \<open>h.temporal\<close> is \<open>None\<close> when it is nil and
  \<open>Some c\<close> when it holds the pointer \<open>c\<close>. The result is the payment, its version and status.
\<close>

definition InitiatePaymentHandler_Handle ::
    "'p temporal_Client option option \<Rightarrow> InitiatePayment \<Rightarrow> (payment_db, 'p, id \<times> int \<times> PaymentStatus) go" where
  "InitiatePaymentHandler_Handle temporal cmd =
     (if ip_FromAccountID cmd = '''' then throwE (ErrorString ''from_account_id required'')
      else if ip_ToAccountID cmd = '''' then throwE (ErrorString ''to_account_id required'')
      else if ip_IdempotencyKey cmd = '''' then throwE (ErrorString ''idempotency_key required'')
      else if ip_FromAccountID cmd = ip_ToAccountID cmd
      then throwE (ErrorString ''from_account_id and to_account_id must differ'')
      else if currency (ip_Amount cmd) \<noteq> NGN then throwE (ErrorString ''unsupported currency'')
      else if sint (amountKobo (ip_Amount cmd)) \<le> 0 then throwE (ErrorString ''amount must be positive'')
      else
        bindE (withTx rollback (Initiate_tx cmd)) (\<lambda>(p, createdProjection).
        bindE (case temporal of
            None \<Rightarrow> returnE ()
          | Some t \<Rightarrow>
              bindE (StartTransferWorkflow t
                \<lparr>tw_PaymentID = py_id p, tw_FromAccountID = pp_FromAccountID createdProjection,
                 tw_ToAccountID = pp_ToAccountID createdProjection, tw_Currency = pp_Currency createdProjection,
                 tw_AmountKobo = pp_AmountKobo createdProjection, tw_Narration = pp_Narration createdProjection,
                 tw_IdempotencyKey = ip_IdempotencyKey cmd\<rparr>) (\<lambda>(wid, rid).
              withTx rollback (Initiate_correlate (py_id p) wid rid))) (\<lambda>_.
        returnE (py_id p, py_version p, py_status p))))"

section \<open>Authorizing, settling, failing\<close>

text \<open>
  The three handlers share their transaction up to the domain operation and the type of the
  event it must have raised.
\<close>

definition lifecycle_store :: "id \<Rightarrow> Payment \<Rightarrow> payment_event \<Rightarrow> (payment_db, 'p, id \<times> int \<times> PaymentStatus) go" where
  "lifecycle_store paymentID p ev =
     (let ver = py_version p in
      bindE newID (\<lambda>evid.
      bindE (wrapE ''append events'' (Store_Append [payment_store_event evid paymentID ev ver])) (\<lambda>_.
      bindE (PaymentProjection_GetByID paymentID) (\<lambda>r.
      case r of
        None \<Rightarrow> throwE (ErrorString ''payment not found'')
      | Some cur \<Rightarrow>
          bindE (PaymentProjection_Upsert (cur\<lparr>pp_Status := py_status p, pp_Version := ver\<rparr>)) (\<lambda>_.
          bindE newID (\<lambda>mid.
          bindE nowUTC (\<lambda>created.
          bindE (Enqueue (payment_message mid created paymentID ev ver)) (\<lambda>_.
          returnE (paymentID, ver, py_status p))))))))) "

definition lifecycle_tx ::
    "(Payment \<Rightarrow> (payment_db, 'p, Payment) go) \<Rightarrow> (payment_event \<Rightarrow> bool) \<Rightarrow> id \<Rightarrow>
     (payment_db, 'p, id \<times> int \<times> PaymentStatus) go" where
  "lifecycle_tx operation expected paymentID =
     bindE (LoadPayment paymentID) (\<lambda>p0.
     bindE (operation p0) (\<lambda>p1.
     let (changes, p) = Payment_PullChanges p1 in
     if length changes \<noteq> 1 then throwE (ErrorString ''unexpected number of changes'')
     else if \<not> expected (hd changes) then throwE (ErrorString ''unexpected event'')
     else lifecycle_store paymentID p (hd changes)))"

definition AuthorizePaymentHandler_Handle ::
    "id \<Rightarrow> string \<Rightarrow> (payment_db, 'p, id \<times> int \<times> PaymentStatus) go" where
  "AuthorizePaymentHandler_Handle paymentID idempotencyKey =
     (if paymentID = '''' then throwE (ErrorString ''payment_id required'')
      else if idempotencyKey = '''' then throwE (ErrorString ''idempotency_key required'')
      else withTx rollback (lifecycle_tx Payment_Authorize is_PaymentAuthorized paymentID))"

definition SettlePaymentHandler_Handle ::
    "id \<Rightarrow> string \<Rightarrow> (payment_db, 'p, id \<times> int \<times> PaymentStatus) go" where
  "SettlePaymentHandler_Handle paymentID idempotencyKey =
     (if paymentID = '''' then throwE (ErrorString ''payment_id required'')
      else if idempotencyKey = '''' then throwE (ErrorString ''idempotency_key required'')
      else withTx rollback (lifecycle_tx Payment_Settle is_PaymentSettled paymentID))"

definition FailPaymentHandler_Handle ::
    "id \<Rightarrow> string \<Rightarrow> string \<Rightarrow> (payment_db, 'p, id \<times> int \<times> PaymentStatus) go" where
  "FailPaymentHandler_Handle paymentID idempotencyKey reason =
     (if paymentID = '''' then throwE (ErrorString ''payment_id required'')
      else if idempotencyKey = '''' then throwE (ErrorString ''idempotency_key required'')
      else withTx rollback (lifecycle_tx (Payment_Fail (TrimSpace reason)) is_PaymentFailed paymentID))"

section \<open>The invariant\<close>

definition payment_decoded :: "Event list \<Rightarrow> payment_event list" where
  "payment_decoded es = map (\<lambda>e. projr (UnmarshalPaymentEvent (ev_Type e) (ev_Data e))) es"

text \<open>The state of a payment according to its events.\<close>

definition payment_replay :: "Event list \<Rightarrow> Payment" where
  "payment_replay es = fold Payment_Apply (payment_decoded es) Payment_zero"

definition payment_event_ok :: "Event \<Rightarrow> bool" where
  "payment_event_ok e \<longleftrightarrow> ev_AggregateType e = ''payment'' \<and>
     (case UnmarshalPaymentEvent (ev_Type e) (ev_Data e) of Inl _ \<Rightarrow> False | Inr _ \<Rightarrow> True)"

definition projects :: "PaymentProjection \<Rightarrow> id \<Rightarrow> Payment \<Rightarrow> bool" where
  "projects r i p \<longleftrightarrow> pp_PaymentID r = i \<and> pp_Status r = py_status p \<and> pp_Version r = py_version p \<and>
     pp_FromAccountID r = py_fromAccountID p \<and> pp_ToAccountID r = py_toAccountID p \<and>
     pp_Narration r = py_narration p"

text \<open>
  The invariant: a well-formed store of decodable events with versions \<open>1, ..., n\<close> per payment;
  the events of every payment are a history of the state machine; and the projection has a row
  for exactly the payments with events, with the state that they replay to. The amount is in
  the projection only, the events do not carry it.
\<close>

definition payment_inv :: "payment_db \<Rightarrow> bool" where
  "payment_inv d \<longleftrightarrow>
     events_wf d \<and> (\<forall>a. contiguous (stream d a)) \<and>
     (\<forall>(s, e) \<in> set (event_store_events d). payment_event_ok e) \<and>
     (\<forall>a. stream d a \<noteq> [] \<longrightarrow>
        payment_history a (payment_decoded (stream d a)) (py_status (payment_replay (stream d a)))) \<and>
     (\<forall>a. case payments_projection d a of
        None \<Rightarrow> stream d a = []
      | Some r \<Rightarrow> stream d a \<noteq> [] \<and> projects r a (payment_replay (stream d a)))"

lemma payment_invD:
  assumes "payment_inv d"
  shows "events_wf d" and "contiguous (stream d a)" and "e \<in> set (stream d a) \<Longrightarrow> payment_event_ok e"
    and "stream d a \<noteq> [] \<Longrightarrow>
      payment_history a (payment_decoded (stream d a)) (py_status (payment_replay (stream d a)))"
    and "payments_projection d a = None \<longleftrightarrow> stream d a = []"
    and "payments_projection d a = Some r \<Longrightarrow> projects r a (payment_replay (stream d a))"
proof -
  have "case payments_projection d a of
        None \<Rightarrow> stream d a = []
      | Some r \<Rightarrow> stream d a \<noteq> [] \<and> projects r a (payment_replay (stream d a))"
    using assms by (simp add: payment_inv_def)
  then show "payments_projection d a = None \<longleftrightarrow> stream d a = []"
    and "payments_projection d a = Some r \<Longrightarrow> projects r a (payment_replay (stream d a))"
    by (auto split: option.splits)
qed (use assms in \<open>auto simp: payment_inv_def set_stream\<close>)

lemma apply_stored_ok:
  "\<forall>e\<in>set es. payment_event_ok e \<Longrightarrow> apply_stored es p = Inr (fold Payment_Apply (payment_decoded es) p)"
  by (induction es arbitrary: p) (auto simp: payment_decoded_def payment_event_ok_def split: sum.splits)

text \<open>Loading replays the first 10000 events of the payment.\<close>

lemma LoadPayment_iff:
  assumes inv: "payment_inv (db w)"
  shows "LoadPayment a w = (Inr p, w') \<longleftrightarrow> fault w (tick w) = None \<and>
     p = payment_replay (take 10000 (stream (db w) a)) \<and> w' = w\<lparr>tick := Suc (tick w)\<rparr>"
proof -
  have "filter (\<lambda>e. 0 < ev_Version e) (stream (db w) a) = drop (nat 0) (stream (db w) a)"
    by (rule contiguous_tail [OF payment_invD(2) [OF inv]]) simp
  then have "select_stream a 0 (default_limit 10000) (db w) = take 10000 (stream (db w) a)"
    by (simp add: select_stream_eq default_limit_def)
  moreover have "apply_stored (take 10000 (stream (db w) a)) Payment_zero =
      Inr (payment_replay (take 10000 (stream (db w) a)))"
    using payment_invD(3) [OF inv] by (auto simp: payment_replay_def dest!: in_set_takeD intro!: apply_stored_ok)
  ultimately show ?thesis by (auto simp: LoadPayment_def Store_Read_def go_inv)
qed

lemma payment_replay_version: "py_version (payment_replay es) = int (length es)"
  by (simp add: payment_replay_def payment.version_replay payment_decoded_def)

lemma payment_decoded_snoc:
  "payment_decoded (es @ [stored (payment_store_event evid a ev ver)]) =
     payment_decoded es @ [forget_payment_amount ev]"
  by (simp add: payment_decoded_def payment_store_event_def payment_event_roundtrip)

lemma payment_event_ok_stored: "payment_event_ok (stored (payment_store_event evid a ev ver))"
  by (simp add: payment_event_ok_def payment_store_event_def payment_event_roundtrip)

lemma payment_append_stream:
  assumes inv: "payment_inv d"
    and app: "can_append (payment_store_event evid a ev (int (length (stream d a)) + 1)) d"
    and d': "event_store_events d' = event_store_events (append_db (payment_store_event evid a ev
          (int (length (stream d a)) + 1)) d)"
  shows "stream d' x = (if x = a
     then stream d a @ [stored (payment_store_event evid a ev (int (length (stream d a)) + 1))] else stream d x)"
proof -
  let ?e = "payment_store_event evid a ev (int (length (stream d a)) + 1)"
  have "insert_event ?e d = Inr ((), append_db ?e d)" using app by (simp add: insert_event_iff)
  then show ?thesis
    using es.append_next [of d ?e "()" "append_db ?e d" x] payment_invD(2) [OF inv] d'
    by (auto simp: stream_def payment_store_event_def)
qed

text \<open>Storing the next event of a payment together with its projection keeps the invariant.\<close>

lemma payment_inv_append:
  assumes inv: "payment_inv d"
    and app: "can_append (payment_store_event evid a ev (int (length (stream d a)) + 1)) d"
    and hist: "payment_history a (payment_decoded (stream d a) @ [forget_payment_amount ev])
        (py_status (Payment_Apply (forget_payment_amount ev) (payment_replay (stream d a))))"
    and proj: "projects r a (Payment_Apply (forget_payment_amount ev) (payment_replay (stream d a)))"
    and d': "event_store_events d' = event_store_events (append_db (payment_store_event evid a ev
          (int (length (stream d a)) + 1)) d)"
      "event_seq d' = event_seq (append_db (payment_store_event evid a ev (int (length (stream d a)) + 1)) d)"
      "payments_projection d' = (payments_projection d)(a \<mapsto> r)"
  shows "payment_inv d'"
proof -
  let ?e = "payment_store_event evid a ev (int (length (stream d a)) + 1)"
  have agg: "ev_AggregateID ?e = a" "ev_Version ?e = int (length (stream d a)) + 1"
    by (simp_all add: payment_store_event_def)
  note st = payment_append_stream [OF inv app d'(1)]
  have rep: "payment_replay (stream d' x) =
      (if x = a then Payment_Apply (forget_payment_amount ev) (payment_replay (stream d a))
       else payment_replay (stream d x))" for x
    by (simp add: st payment_replay_def payment_decoded_snoc)
  have "events_wf (append_db ?e d)"
    using insert_event_wf [OF payment_invD(1) [OF inv]] app by (metis insert_event_iff)
  then have "events_wf d'" using d' by (simp add: events_wf_def)
  moreover have "contiguous (stream d' x)" for x
    using payment_invD(2) [OF inv] contiguous_snoc [of "stream d a" "stored ?e"] agg by (simp add: st)
  moreover have "\<forall>(s, e) \<in> set (event_store_events d'). payment_event_ok e"
    using inv d'(1) by (auto simp: payment_inv_def append_db_def payment_event_ok_stored)
  moreover have "payment_history x (payment_decoded (stream d' x)) (py_status (payment_replay (stream d' x)))"
    if "stream d' x \<noteq> []" for x
    using that hist payment_invD(4) [OF inv, of x]
    by (simp add: rep) (simp add: st payment_decoded_snoc split: if_splits)
  moreover have "case payments_projection d' x of
        None \<Rightarrow> stream d' x = []
      | Some r \<Rightarrow> stream d' x \<noteq> [] \<and> projects r x (payment_replay (stream d' x))" for x
    using proj payment_invD(5,6) [OF inv, of x]
    by (auto simp: rep d'(3) split: option.splits) (simp_all add: st)
  ultimately show ?thesis unfolding payment_inv_def by blast
qed

section \<open>What the handlers do to the database\<close>

lemma payment_repo_inv [go_inv]:
  "PaymentProjection_Upsert p w = (Inr u, w') \<longleftrightarrow> fault w (tick w) = None \<and>
     w' = w\<lparr>tick := Suc (tick w),
       db := (db w)\<lparr>payments_projection := (payments_projection (db w))(pp_PaymentID p \<mapsto> p)\<rparr>\<rparr>"
  "PaymentProjection_GetByID a w = (Inr r, w') \<longleftrightarrow> fault w (tick w) = None \<and>
     r = payments_projection (db w) a \<and> w' = w\<lparr>tick := Suc (tick w)\<rparr>"
  by (auto simp: PaymentProjection_Upsert_def PaymentProjection_GetByID_def go_inv)

lemma payment_append_simps [simp]:
  "payments_projection (append_db e (d :: payment_db)) = payments_projection d"
  by (simp add: append_db_def)

lemma lifecycle_store_success:
  assumes "lifecycle_store a p ev w = (Inr r, w')"
  shows "\<exists>evid cur row. can_append (payment_store_event evid a ev (py_version p)) (db w) \<and>
     payments_projection (db w) a = Some cur \<and> r = (a, py_version p, py_status p) \<and> peer w' = peer w \<and>
     db w' = (append_db (payment_store_event evid a ev (py_version p)) (db w))
       \<lparr>payments_projection := (payments_projection (db w))(pp_PaymentID cur \<mapsto>
          cur\<lparr>pp_Status := py_status p, pp_Version := py_version p\<rparr>),
        outbox_messages := outbox_messages (append_db (payment_store_event evid a ev (py_version p)) (db w)) @ [row]\<rparr>"
proof -
  let ?ver = "py_version p"
  obtain evid w2 cur w3 w4 mid created w5 where
    app: "Store_Append [payment_store_event evid a ev ?ver] (w\<lparr>tick := Suc (tick w)\<rparr>) = (Inr (), w2)" and
    get: "PaymentProjection_GetByID a w2 = (Inr (Some cur), w3)" and
    ups: "PaymentProjection_Upsert (cur\<lparr>pp_Status := py_status p, pp_Version := ?ver\<rparr>) w3 = (Inr (), w4)" and
    enq: "Enqueue (payment_message mid created a ev ?ver) w5 = (Inr (), w')" and
    w5: "db w5 = db w4" "peer w5 = peer w4" and r: "r = (a, ?ver, py_status p)"
    using assms unfolding lifecycle_store_def Let_def
    by (auto simp: bindE_inv wrapE_inv newID_inv nowUTC_inv returnE_inv throwE_def split: option.splits)
  have w2: "can_append (payment_store_event evid a ev ?ver) (db w)" "peer w2 = peer w"
    "db w2 = append_db (payment_store_event evid a ev ?ver) (db w)"
    using app by (simp_all add: go_inv)
  have w3: "payments_projection (db w) a = Some cur" "db w3 = db w2" "peer w3 = peer w2"
    using get by (simp_all add: go_inv w2)
  have w4: "db w4 = (db w2)\<lparr>payments_projection := (payments_projection (db w))(pp_PaymentID cur \<mapsto>
      cur\<lparr>pp_Status := py_status p, pp_Version := ?ver\<rparr>)\<rparr>" "peer w4 = peer w2"
    using ups by (simp_all add: go_inv w3 w2)
  have "db w' = (append_db (payment_store_event evid a ev ?ver) (db w))
       \<lparr>payments_projection := (payments_projection (db w))(pp_PaymentID cur \<mapsto>
          cur\<lparr>pp_Status := py_status p, pp_Version := ?ver\<rparr>),
        outbox_messages := outbox_messages (append_db (payment_store_event evid a ev ?ver) (db w)) @
          [outbox_row_of (payment_message mid created a ev ?ver) (sql_clock w5)]\<rparr>" "peer w' = peer w"
    using enq by (simp_all add: go_inv w5 w4 w2)
  then show ?thesis using w2(1) w3(1) r by blast
qed

text \<open>The domain operations raise one event, which continues the payment's history.\<close>

definition lifecycle_op :: "(Payment \<Rightarrow> (payment_db, 'p, Payment) go) \<Rightarrow> bool" where
  "lifecycle_op operation \<longleftrightarrow>
     (\<forall>p w p' w'. operation p w = (Inr p', w') \<longrightarrow> db w' = db w \<and> peer w' = peer w \<and>
        (\<exists>ev. p' = Payment_raise ev p \<and> \<not> is_PaymentInitiated ev \<and>
           (\<forall>es. payment_history (py_id p) es (py_status p) \<longrightarrow>
              payment_history (py_id p) (es @ [ev]) (py_status (Payment_Apply ev p)))))"

lemma lifecycle_ops:
  "lifecycle_op Payment_Authorize" "lifecycle_op Payment_Settle" "lifecycle_op (Payment_Fail r)"
proof -
  show "lifecycle_op Payment_Authorize"
    unfolding lifecycle_op_def Payment_Authorize_def
    by (auto simp: go_inv intro!: exI [of _ "PaymentAuthorized _ _"] ph_authorized split: if_splits)
  show "lifecycle_op Payment_Settle"
    unfolding lifecycle_op_def Payment_Settle_def
    by (auto simp: go_inv intro!: exI [of _ "PaymentSettled _ _"] ph_settled split: if_splits)
  show "lifecycle_op (Payment_Fail r)"
    unfolding lifecycle_op_def Payment_Fail_def Let_def
    by (auto simp: go_inv intro!: exI [of _ "PaymentFailed _ _ _"] split: if_splits) (blast intro: ph_failed)+
qed

lemma lifecycle_opD:
  assumes "lifecycle_op operation" and "operation p w = (Inr p', w')"
  obtains ev where "p' = Payment_raise ev p" "\<not> is_PaymentInitiated ev" "db w' = db w" "peer w' = peer w"
    "\<And>es. payment_history (py_id p) es (py_status p) \<Longrightarrow>
      payment_history (py_id p) (es @ [ev]) (py_status (Payment_Apply ev p))"
  using assms unfolding lifecycle_op_def by blast

lemma payment_replay_changes: "py_changes (payment_replay es) = []"
proof -
  have "py_changes (fold Payment_Apply xs p) = py_changes p" for xs p
    by (induction xs arbitrary: p) simp_all
  then show ?thesis by (simp add: payment_replay_def Payment_zero_def)
qed

lemma py_no_changes: "py_changes p = [] \<Longrightarrow> p\<lparr>py_changes := []\<rparr> = p"
  by (cases p) simp

lemma forget_non_initiated [simp]: "\<not> is_PaymentInitiated ev \<Longrightarrow> forget_payment_amount ev = ev"
  by (cases ev) simp_all

lemma Payment_Apply_projects:
  "\<not> is_PaymentInitiated ev \<Longrightarrow> projects r a p \<Longrightarrow>
     projects (r\<lparr>pp_Status := py_status (Payment_Apply ev p), pp_Version := py_version p + 1\<rparr>) a (Payment_Apply ev p)"
  by (cases ev) (simp_all add: projects_def)

lemma lifecycle_tx_steps:
  assumes inv: "payment_inv (db w)" and oper: "lifecycle_op operation"
    and run: "lifecycle_tx operation expected a w = (Inr r, w')"
    and p0: "p0 = payment_replay (take 10000 (stream (db w) a))"
  obtains ev v where "expected ev" "\<not> is_PaymentInitiated ev" "db v = db w" "peer v = peer w"
    "\<And>es. payment_history (py_id p0) es (py_status p0) \<Longrightarrow>
      payment_history (py_id p0) (es @ [ev]) (py_status (Payment_Apply ev p0))"
    "lifecycle_store a (Payment_Apply ev p0) ev v = (Inr r, w')"
proof -
  obtain p1 v where op: "operation p0 (w\<lparr>tick := Suc (tick w)\<rparr>) = (Inr p1, v)"
    and rest: "(let (changes, p) = Payment_PullChanges p1 in
       if length changes \<noteq> 1 then throwE (ErrorString ''unexpected number of changes'')
       else if \<not> expected (hd changes) then throwE (ErrorString ''unexpected event'')
       else lifecycle_store a p (hd changes)) v = (Inr r, w')"
    using run by (auto simp: lifecycle_tx_def bindE_inv LoadPayment_iff [OF inv] p0)
  obtain ev where p1: "p1 = Payment_raise ev p0" and ni: "\<not> is_PaymentInitiated ev"
    and v: "db v = db w" "peer v = peer w"
    and hist: "\<And>es. payment_history (py_id p0) es (py_status p0) \<Longrightarrow>
      payment_history (py_id p0) (es @ [ev]) (py_status (Payment_Apply ev p0))"
    using lifecycle_opD [OF oper op] by auto
  have "Payment_PullChanges p1 = ([ev], Payment_Apply ev p0)"
    by (simp add: p1 p0 Payment_PullChanges_def Payment_raise_def Let_def payment_replay_changes py_no_changes)
  then have "expected ev" "lifecycle_store a (Payment_Apply ev p0) ev v = (Inr r, w')"
    using rest by (auto simp: throwE_def split: if_splits)
  then show ?thesis using that ni v hist by blast
qed

text \<open>
  A transition that succeeds has seen all events of the payment: were there more than 10000, the
  version it computes would be taken.
\<close>

lemma version_not_truncated:
  assumes "payment_inv d" and "can_append (payment_store_event evid a ev (int (min 10000 (length (stream d a))) + 1)) d"
  shows "length (stream d a) \<le> 10000"
proof (rule ccontr)
  assume "\<not> length (stream d a) \<le> 10000"
  then have "int (min 10000 (length (stream d a))) + 1 \<in> ev_Version ` set (stream d a)"
    using contiguous_versions [OF payment_invD(2) [OF assms(1), of a]] by simp
  then show False using assms(2) by (auto simp: can_append_def payment_store_event_def set_stream)
qed

lemma lifecycle_tx_success:
  assumes inv: "payment_inv (db w)" and oper: "lifecycle_op operation"
    and run: "lifecycle_tx operation expected a w = (Inr r, w')"
  shows "payment_inv (db w') \<and> peer w' = peer w \<and> stream (db w) a \<noteq> [] \<and>
    (\<exists>ev x. expected ev \<and> stream (db w') a = stream (db w) a @ [x] \<and>
       payment_decoded (stream (db w') a) = payment_decoded (stream (db w) a) @ [ev] \<and>
       r = (a, int (length (stream (db w) a)) + 1, py_status (payment_replay (stream (db w') a))) \<and>
       (\<forall>b. b \<noteq> a \<longrightarrow> stream (db w') b = stream (db w) b \<and>
          payments_projection (db w') b = payments_projection (db w) b))"
proof -
  let ?es = "stream (db w) a" let ?p0 = "payment_replay (take 10000 ?es)"
  let ?ver = "int (min 10000 (length ?es)) + 1"
  obtain ev v where exp: "expected ev" and ni: "\<not> is_PaymentInitiated ev" and v: "db v = db w" "peer v = peer w"
    and hist: "\<And>es. payment_history (py_id ?p0) es (py_status ?p0) \<Longrightarrow>
      payment_history (py_id ?p0) (es @ [ev]) (py_status (Payment_Apply ev ?p0))"
    and store: "lifecycle_store a (Payment_Apply ev ?p0) ev v = (Inr r, w')"
    using lifecycle_tx_steps [OF inv oper run refl] by blast
  let ?p = "Payment_Apply ev ?p0"
  have ver: "py_version ?p = ?ver" by (simp add: payment_replay_version)
  obtain evid cur row where app: "can_append (payment_store_event evid a ev ?ver) (db w)"
    and cur: "payments_projection (db w) a = Some cur" and r: "r = (a, ?ver, py_status ?p)"
    and w': "peer w' = peer w" "db w' = (append_db (payment_store_event evid a ev ?ver) (db w))
       \<lparr>payments_projection := (payments_projection (db w))(pp_PaymentID cur \<mapsto>
          cur\<lparr>pp_Status := py_status ?p, pp_Version := ?ver\<rparr>),
        outbox_messages := outbox_messages (append_db (payment_store_event evid a ev ?ver) (db w)) @ [row]\<rparr>"
    using lifecycle_store_success [OF store] unfolding ver v by blast
  have ne: "?es \<noteq> []" using payment_invD(5) [OF inv, of a] cur by simp
  have "length ?es \<le> 10000" by (rule version_not_truncated [OF inv app])
  then have all: "take 10000 ?es = ?es" and len: "?ver = int (length ?es) + 1" by simp_all
  have h: "payment_history a (payment_decoded ?es) (py_status (payment_replay ?es))"
    by (rule payment_invD(4) [OF inv ne])
  then have i: "py_id (payment_replay ?es) = a"
    using payment_history_status by (simp add: payment_replay_def)
  note app = app [unfolded len] and dw = w'(2) [unfolded len all]
  have pr: "projects cur a (payment_replay ?es)" by (rule payment_invD(6) [OF inv cur])
  then have cid: "pp_PaymentID cur = a" by (simp add: projects_def)
  have st: "stream (db w') x = (if x = a
     then ?es @ [stored (payment_store_event evid a ev (int (length ?es) + 1))] else stream (db w) x)" for x
    by (rule payment_append_stream [OF inv app]) (simp add: dw)
  have "payment_inv (db w')"
  proof (rule payment_inv_append [OF inv app])
    show "payment_history a (payment_decoded ?es @ [forget_payment_amount ev])
        (py_status (Payment_Apply (forget_payment_amount ev) (payment_replay ?es)))"
      using hist [unfolded all i, OF h] ni by simp
    show "projects (cur\<lparr>pp_Status := py_status (Payment_Apply ev (payment_replay ?es)),
        pp_Version := int (length ?es) + 1\<rparr>) a (Payment_Apply (forget_payment_amount ev) (payment_replay ?es))"
      using Payment_Apply_projects [OF ni pr] ni by (simp add: payment_replay_version)
  qed (simp_all add: dw cid)
  moreover have "payment_decoded (stream (db w') a) = payment_decoded ?es @ [ev]"
    using ni by (simp add: st payment_decoded_snoc)
  moreover from this have "py_status (payment_replay (stream (db w') a)) = py_status ?p"
    by (simp add: payment_replay_def all)
  moreover have "payments_projection (db w') b = payments_projection (db w) b" if "b \<noteq> a" for b
    using that by (simp add: dw cid)
  ultimately show ?thesis
    using exp ne w'(1) r len st by auto
qed

section \<open>The handlers keep the invariant\<close>

lemma seq_mono_payment [seq_mono_intro]:
  "seq_mono (PaymentProjection_Upsert r)" "seq_mono (PaymentProjection_GetByID a)" "seq_mono (LoadPayment a)"
  "seq_mono (lifecycle_store a p ev)" "seq_mono (Initiate_prepare p q)" "seq_mono (NewPayment f t m n)"
  "seq_mono (Initiate_tx cmd)" "seq_mono (Initiate_correlate a wid rid)"
  "seq_mono (Payment_Authorize p)" "seq_mono (Payment_Settle p)" "seq_mono (Payment_Fail reason p)"
  by (auto simp: PaymentProjection_Upsert_def PaymentProjection_GetByID_def LoadPayment_def lifecycle_store_def
      Initiate_prepare_def NewPayment_def Initiate_tx_def Initiate_correlate_def Payment_Authorize_def
      Payment_Settle_def Payment_Fail_def Let_def
      intro!: seq_mono_intro split: option.splits prod.splits)

lemma seq_mono_lifecycle [seq_mono_intro]:
  "(\<And>p. seq_mono (operation p)) \<Longrightarrow> seq_mono (lifecycle_tx operation expected a)"
  by (auto simp: lifecycle_tx_def Let_def intro!: seq_mono_intro split: prod.splits)

lemma local_payment [local_intro]:
  "local_op (PaymentProjection_Upsert r)" "local_op (PaymentProjection_GetByID a)" "local_op (LoadPayment a)"
  "local_op (lifecycle_store a p ev)" "local_op (Initiate_prepare p q)" "local_op (NewPayment f t m n)"
  "local_op (Initiate_tx cmd)" "local_op (Initiate_correlate a wid rid)"
  "local_op (Payment_Authorize p)" "local_op (Payment_Settle p)" "local_op (Payment_Fail reason p)"
  by (auto simp: PaymentProjection_Upsert_def PaymentProjection_GetByID_def LoadPayment_def lifecycle_store_def
      Initiate_prepare_def NewPayment_def Initiate_tx_def Initiate_correlate_def Payment_Authorize_def
      Payment_Settle_def Payment_Fail_def Let_def
      intro!: local_intro split: option.splits prod.splits)

lemma local_lifecycle [local_intro]:
  "(\<And>p. local_op (operation p)) \<Longrightarrow> local_op (lifecycle_tx operation expected a)"
  by (auto simp: lifecycle_tx_def Let_def intro!: local_intro split: prod.splits)

lemma payment_inv_seq: "payment_inv d \<Longrightarrow> seq_le (event_seq d) n \<Longrightarrow> payment_inv (d\<lparr>event_seq := n\<rparr>)"
proof -
  assume a: "payment_inv d" "seq_le (event_seq d) n"
  have e: "stream (d\<lparr>event_seq := n\<rparr>) = stream d" by (rule ext) (simp add: stream_def)
  show ?thesis using a events_wf_seq [of d n] unfolding payment_inv_def e by simp
qed

text \<open>A transaction that fails leaves the tables alone.\<close>

lemma payment_tx_error:
  assumes "payment_inv (db w)" and "seq_mono body" and "withTx rollback body w = (Inl e, w')"
  shows "payment_inv (db w')" and "stream (db w') = stream (db w)"
    and "payments_projection (db w') = payments_projection (db w)" and "outbox_messages (db w') = outbox_messages (db w)"
proof -
  obtain n where n: "seq_le (event_seq (db w)) n" and d: "db w' = (db w)\<lparr>event_seq := n\<rparr>"
    using withTx_rollback_error [OF assms(2,3)] by blast
  show "payment_inv (db w')" using payment_inv_seq [OF assms(1) n] d by simp
  show "stream (db w') = stream (db w)" by (rule ext) (simp add: d stream_def)
qed (use withTx_rollback_error [OF assms(2,3)] in auto)

lemma lifecycle_handler:
  assumes "payment_inv (db w)" and "lifecycle_op operation" and "\<And>p. seq_mono (operation p)"
    and "withTx rollback (lifecycle_tx operation expected a) w = (r, w')"
  shows "payment_inv (db w') \<and>
    (case r of
       Inl e \<Rightarrow> stream (db w') = stream (db w) \<and> payments_projection (db w') = payments_projection (db w)
     | Inr x \<Rightarrow> stream (db w) a \<noteq> [] \<and>
        (\<exists>ev y. expected ev \<and> stream (db w') a = stream (db w) a @ [y] \<and>
           payment_decoded (stream (db w') a) = payment_decoded (stream (db w) a) @ [ev] \<and>
           x = (a, int (length (stream (db w) a)) + 1, py_status (payment_replay (stream (db w') a))) \<and>
           (\<forall>b. b \<noteq> a \<longrightarrow> stream (db w') b = stream (db w) b \<and>
              payments_projection (db w') b = payments_projection (db w) b)))"
proof (cases r)
  case (Inl e)
  then show ?thesis
    using payment_tx_error [OF assms(1) seq_mono_lifecycle [OF assms(3)]] assms(4) by fastforce
next
  case (Inr x)
  then obtain v where tx: "lifecycle_tx operation expected a (w\<lparr>tick := Suc (tick w), txtime := Some (clock w (tick w))\<rparr>)
      = (Inr x, v)" and w': "db w' = db v"
    using assms(4) by (auto simp: go_inv)
  show ?thesis using lifecycle_tx_success [OF _ assms(2) tx] assms(1) w' Inr by auto
qed

text \<open>Initiating.\<close>

lemma NewPayment_inv:
  "NewPayment f t m n w = (Inr p, w') \<longleftrightarrow>
     TrimSpace f \<noteq> '''' \<and> TrimSpace t \<noteq> '''' \<and> f \<noteq> t \<and> payment_validateAmount m = None \<and>
     p = \<lparr>py_id = uuid w (tick w), py_fromAccountID = f, py_toAccountID = t, py_amount = m, py_narration = n,
          py_status = StatusInitiated, py_version = 1,
          py_changes = [PaymentInitiated (uuid w (tick w)) f t m n (clock w (Suc (tick w)))]\<rparr> \<and>
     w' = w\<lparr>tick := Suc (Suc (tick w))\<rparr>"
  by (auto simp: NewPayment_def go_inv Payment_raise_def Payment_zero_def split: option.splits)

lemma Initiate_prepare_inv [go_inv]:
  "Initiate_prepare p (i, ev) w = (Inr e, w') \<longleftrightarrow>
     fault w (tick w + 3) = None \<and> uuid w (tick w + 1) \<notin> msg_ID ` set (outbox_messages (db w)) \<and>
     e = payment_store_event (uuid w (tick w)) (py_id p) ev (i + 1) \<and>
     w' = w\<lparr>tick := tick w + 4, db := (db w)\<lparr>outbox_messages := outbox_messages (db w) @
       [outbox_row_of (payment_message (uuid w (tick w + 1)) (clock w (tick w + 2)) (py_id p) ev (i + 1))
          (sql_clock (w\<lparr>tick := tick w + 3\<rparr>))]\<rparr>\<rparr>"
  by (auto simp: Initiate_prepare_def go_inv numeral_eq_Suc payment_message_def Let_def)

definition initial_projection :: "id \<Rightarrow> InitiatePayment \<Rightarrow> PaymentProjection" where
  "initial_projection i cmd =
     \<lparr>pp_PaymentID = i, pp_FromAccountID = ip_FromAccountID cmd, pp_ToAccountID = ip_ToAccountID cmd,
      pp_Currency = currency (ip_Amount cmd), pp_AmountKobo = amountKobo (ip_Amount cmd),
      pp_Narration = ip_Narration cmd, pp_Status = StatusInitiated, pp_TemporalWorkflowID = '''',
      pp_TemporalRunID = '''', pp_Version = 1\<rparr>"

lemma can_append_payment_outbox [simp]: "can_append e (d\<lparr>outbox_messages := m\<rparr>) = can_append e d"
  by (simp add: can_append_def)

lemma append_db_payment_outbox:
  "append_db e (d\<lparr>outbox_messages := m\<rparr>) = (append_db e d)\<lparr>outbox_messages := m\<rparr>"
  by (simp add: append_db_def)

lemma Initiate_tx_success:
  assumes "Initiate_tx cmd w = (Inr (p, r), w')"
  shows "\<exists>at evid row. let i = py_id p; e = payment_store_event evid i (PaymentInitiated i (ip_FromAccountID cmd)
         (ip_ToAccountID cmd) (ip_Amount cmd) (ip_Narration cmd) at) 1 in
     can_append e (db w) \<and> r = initial_projection i cmd \<and> py_version p = 1 \<and> py_status p = StatusInitiated \<and>
     ip_FromAccountID cmd \<noteq> ip_ToAccountID cmd \<and>
     db w' = (append_db e (db w))\<lparr>payments_projection := (payments_projection (db w))(i \<mapsto> r),
       outbox_messages := outbox_messages (db w) @ [row]\<rparr> \<and> peer w' = peer w"
proof -
  define i at where "i = uuid w (tick w)" and "at = clock w (Suc (tick w))"
  define ev where "ev = PaymentInitiated i (ip_FromAccountID cmd) (ip_ToAccountID cmd) (ip_Amount cmd) (ip_Narration cmd) at"
  define v p' where "v = w\<lparr>tick := Suc (Suc (tick w))\<rparr>" and "p' = \<lparr>py_id = i, py_fromAccountID = ip_FromAccountID cmd,
    py_toAccountID = ip_ToAccountID cmd, py_amount = ip_Amount cmd, py_narration = ip_Narration cmd,
    py_status = StatusInitiated, py_version = 1, py_changes = []\<rparr>"
  obtain p0 where new: "NewPayment (ip_FromAccountID cmd) (ip_ToAccountID cmd) (ip_Amount cmd) (ip_Narration cmd) w =
      (Inr p0, v)"
    using assms by (auto simp: Initiate_tx_def bindE_inv NewPayment_inv v_def)
  then have pull: "Payment_PullChanges p0 = ([ev], p')" and ne: "ip_FromAccountID cmd \<noteq> ip_ToAccountID cmd"
    by (simp_all add: NewPayment_inv Payment_PullChanges_def ev_def p'_def i_def at_def)
  have proj: "initial_projection i cmd = \<lparr>pp_PaymentID = py_id p', pp_FromAccountID = ip_FromAccountID cmd,
      pp_ToAccountID = ip_ToAccountID cmd, pp_Currency = currency (ip_Amount cmd),
      pp_AmountKobo = amountKobo (ip_Amount cmd), pp_Narration = ip_Narration cmd, pp_Status = py_status p',
      pp_TemporalWorkflowID = [], pp_TemporalRunID = [], pp_Version = py_version p'\<rparr>"
    by (simp add: initial_projection_def p'_def)
  have "is_PaymentInitiated ev" by (simp add: ev_def)
  then obtain evs w2 w3 where r: "p = p'" "r = initial_projection i cmd" and
    prep: "mapE (Initiate_prepare p') (zip [0..int (length [ev]) - 1] [ev]) v = (Inr evs, w2)" and
    app: "Store_Append evs w2 = (Inr (), w3)" and
    ups: "PaymentProjection_Upsert (initial_projection i cmd) w3 = (Inr (), w')"
    using assms unfolding Initiate_tx_def bindE_run(1) [of "NewPayment (ip_FromAccountID cmd) (ip_ToAccountID cmd)
      (ip_Amount cmd) (ip_Narration cmd)" w _ v, OF new] pull
    by (auto simp: Let_def bindE_inv wrapE_inv returnE_inv proj)
  obtain evid mid created now where "evs = [payment_store_event evid i ev 1]"
    and w2: "db w2 = (db w)\<lparr>outbox_messages := outbox_messages (db w) @
       [outbox_row_of (payment_message mid created i ev 1) now]\<rparr>" "peer w2 = peer w"
    using prep by (auto simp: go_inv v_def p'_def)
  then have "can_append (payment_store_event evid i ev 1) (db w)" and
    "db w' = (append_db (payment_store_event evid i ev 1) (db w))
       \<lparr>payments_projection := (payments_projection (db w))(i \<mapsto> initial_projection i cmd),
        outbox_messages := outbox_messages (db w) @ [outbox_row_of (payment_message mid created i ev 1) now]\<rparr>"
    "peer w' = peer w"
    using app ups by (auto simp: go_inv w2 append_db_payment_outbox initial_projection_def)
  then show ?thesis using r ne unfolding Let_def ev_def p'_def by force
qed

lemma payment_inv_initiate:
  assumes inv: "payment_inv d" and e: "e = payment_store_event evid i (PaymentInitiated i (ip_FromAccountID cmd)
         (ip_ToAccountID cmd) (ip_Amount cmd) (ip_Narration cmd) at) 1" and app: "can_append e d"
    and d': "d' = (append_db e d)\<lparr>payments_projection := (payments_projection d)(i \<mapsto> initial_projection i cmd),
       outbox_messages := m\<rparr>"
  shows "payment_inv d'" and "stream d i = []"
    and "stream d' x = (if x = i then [stored e] else stream d x)"
proof -
  show empty: "stream d i = []"
  proof (rule ccontr)
    assume "stream d i \<noteq> []"
    then have "1 \<in> ev_Version ` set (stream d i)"
      using contiguous_versions [OF payment_invD(2) [OF inv, of i]] by (simp add: Suc_leI)
    then show False using app by (auto simp: e can_append_def payment_store_event_def set_stream)
  qed
  let ?ev = "PaymentInitiated i (ip_FromAccountID cmd) (ip_ToAccountID cmd) (ip_Amount cmd) (ip_Narration cmd) at"
  have app': "can_append (payment_store_event evid i ?ev (int (length (stream d i)) + 1)) d"
    using app by (simp add: e empty)
  show "payment_inv d'"
    by (rule payment_inv_append [OF inv app', where r = "initial_projection i cmd"])
       (simp_all add: d' e empty payment_replay_def payment_decoded_def ph_initiated projects_def
         initial_projection_def Payment_zero_def)
  show "stream d' x = (if x = i then [stored e] else stream d x)"
    using payment_append_stream [OF inv app', of d' x] by (simp add: d' e empty)
qed

lemma correlate_success:
  assumes inv: "payment_inv (db w)" and run: "Initiate_correlate a wid rid w = (Inr u, w')"
  shows "payment_inv (db w') \<and> stream (db w') = stream (db w)"
proof -
  obtain cur where cur: "payments_projection (db w) a = Some cur"
    and w': "db w' = (db w)\<lparr>payments_projection := (payments_projection (db w))(pp_PaymentID cur \<mapsto>
      cur\<lparr>pp_TemporalWorkflowID := wid, pp_TemporalRunID := rid\<rparr>)\<rparr>"
    using run by (auto simp: Initiate_correlate_def go_inv throwE_def split: option.splits)
  have st: "stream (db w') = stream (db w)" by (rule ext) (simp add: w' stream_def)
  have pr: "projects cur a (payment_replay (stream (db w) a))" by (rule payment_invD(6) [OF inv cur])
  have p: "payments_projection (db w') x = (if x = a then
      Some (cur\<lparr>pp_TemporalWorkflowID := wid, pp_TemporalRunID := rid\<rparr>) else payments_projection (db w) x)" for x
    using pr [unfolded projects_def, THEN conjunct1] by (simp add: w')
  have old: "case payments_projection (db w) x of
        None \<Rightarrow> stream (db w) x = []
      | Some r \<Rightarrow> stream (db w) x \<noteq> [] \<and> projects r x (payment_replay (stream (db w) x))" for x
    using inv by (simp add: payment_inv_def)
  have "projects (cur\<lparr>pp_TemporalWorkflowID := wid, pp_TemporalRunID := rid\<rparr>) a (payment_replay (stream (db w) a))"
    using pr by (simp add: projects_def)
  then have "case payments_projection (db w') x of
        None \<Rightarrow> stream (db w) x = []
      | Some r \<Rightarrow> stream (db w) x \<noteq> [] \<and> projects r x (payment_replay (stream (db w) x))" for x
    using old [of x] cur by (cases "x = a") (simp_all add: p)
  then have "payment_inv (db w')"
    using inv unfolding payment_inv_def st by (simp add: w' events_wf_def)
  then show ?thesis using st by simp
qed

lemma StartTransferWorkflow_db: "StartTransferWorkflow t input w = (r, w') \<Longrightarrow> db w' = db w"
  by (auto simp: StartTransferWorkflow_def throwE_def callPeer_def split: option.splits prod.splits)

lemma correlate_handler:
  assumes inv: "payment_inv (db (v :: (payment_db, 'p) world))"
    and run: "(case temporal of None \<Rightarrow> returnE () | Some t \<Rightarrow>
        bindE (StartTransferWorkflow t input) (\<lambda>(wid, rid).
        withTx rollback (Initiate_correlate a wid rid))) v = (u, w')"
  shows "payment_inv (db w') \<and> stream (db w') = stream (db v)"
proof -
  have tx: "payment_inv (db x') \<and> stream (db x') = stream (db x)"
    if px: "payment_inv (db x)" and pq: "withTx rollback (Initiate_correlate a wid rid) x = (q, x')" for x x' :: "(payment_db, 'p) world" and wid rid q
  proof (cases q)
    case (Inl e)
    then show ?thesis using payment_tx_error [OF px seq_mono_payment(8)] pq by blast
  next
    case (Inr y)
    then obtain x1 where c: "Initiate_correlate a wid rid (x\<lparr>tick := Suc (tick x), txtime := Some (clock x (tick x))\<rparr>)
        = (Inr y, x1)" and "db x' = db x1"
      using pq by (auto simp: go_inv)
    then show ?thesis using correlate_success [OF _ c] px by simp
  qed
  show ?thesis
  proof (cases temporal)
    case None
    then show ?thesis using run inv by (simp add: returnE_def)
  next
    case (Some t)
    obtain q x where q: "StartTransferWorkflow t input v = (q, x)" by fastforce
    then have "payment_inv (db x)" "stream (db x) = stream (db v)"
      using inv StartTransferWorkflow_db [OF q] by simp_all
    then show ?thesis
      using run Some q tx [of x] by (auto simp: bindE_def split: sum.splits prod.splits)
  qed
qed

text \<open>
  \<open>Handle\<close> of the initiation: the first transaction, then the workflow and the second
  transaction, which touch neither the events nor the state of any payment.
\<close>

lemma InitiateHandler_effect:
  assumes inv: "payment_inv (db w)" and run: "InitiatePaymentHandler_Handle temporal cmd w = (r, w')"
  shows "payment_inv (db w') \<and> (\<forall>a. stream (db w) a \<noteq> [] \<longrightarrow> stream (db w') a = stream (db w) a)"
proof -
  let ?tx = "withTx rollback (Initiate_tx cmd) w"
  let ?rest = "\<lambda>(p, pr). case temporal of
            None \<Rightarrow> returnE ()
          | Some t \<Rightarrow>
              bindE (StartTransferWorkflow t
                \<lparr>tw_PaymentID = py_id p, tw_FromAccountID = pp_FromAccountID pr,
                 tw_ToAccountID = pp_ToAccountID pr, tw_Currency = pp_Currency pr,
                 tw_AmountKobo = pp_AmountKobo pr, tw_Narration = pp_Narration pr,
                 tw_IdempotencyKey = ip_IdempotencyKey cmd\<rparr>) (\<lambda>(wid, rid).
              withTx rollback (Initiate_correlate (py_id p) wid rid))"
  have "w' = w \<or> (\<exists>e. ?tx = (Inl e, w')) \<or> (\<exists>p pr v u. ?tx = (Inr (p, pr), v) \<and> ?rest (p, pr) v = (u, w'))"
    using run
    by (auto simp: InitiatePaymentHandler_Handle_def throwE_def bindE_def returnE_def
        split: if_splits prod.splits sum.splits option.splits)
  moreover have "payment_inv (db w') \<and> stream (db w') = stream (db w)" if "?tx = (Inl e, w')" for e
    using payment_tx_error [OF inv seq_mono_payment(7) that] by simp
  moreover have "payment_inv (db w') \<and> (\<forall>a. stream (db w) a \<noteq> [] \<longrightarrow> stream (db w') a = stream (db w) a)"
    if t1: "?tx = (Inr (p, pr), v)" and t2: "?rest (p, pr) v = (u, w')" for p pr v u
  proof -
    obtain v0 where "Initiate_tx cmd (w\<lparr>tick := Suc (tick w), txtime := Some (clock w (tick w))\<rparr>) = (Inr (p, pr), v0)"
      and v: "db v = db v0" using t1 by (auto simp: go_inv)
    from Initiate_tx_success [OF this(1)] v
    have 1: "payment_inv (db v)" "\<forall>a. stream (db w) a \<noteq> [] \<longrightarrow> stream (db v) a = stream (db w) a"
      using payment_inv_initiate [OF inv refl] by (auto simp: Let_def)
    have "payment_inv (db w') \<and> stream (db w') = stream (db v)"
      using correlate_handler [OF 1(1), where temporal = temporal and a = "py_id p"] t2 by simp
    then show ?thesis using 1(2) by simp
  qed
  ultimately show ?thesis using inv by auto
qed

end
