(* ===== verification/PaymentProps.thy ===== *)
theory PaymentProps
  imports Payment
begin

text \<open>
  The properties of the payment service's command side: the database invariant over all runs of
  commands, that a settled payment stays as it is, and what initiating does on a retry and
  without a Temporal client.
\<close>

section \<open>Runs of the service\<close>

datatype payment_cmd =
    PInitiate InitiatePayment
  | PAuthorize id string
  | PSettle id string
  | PFail id string string

fun payment_exec :: "'p temporal_Client option option \<Rightarrow> payment_cmd \<Rightarrow> (payment_db, 'p) world \<Rightarrow> (payment_db, 'p) world" where
  "payment_exec t (PInitiate cmd) w = snd (InitiatePaymentHandler_Handle t cmd w)"
| "payment_exec t (PAuthorize i k) w = snd (AuthorizePaymentHandler_Handle i k w)"
| "payment_exec t (PSettle i k) w = snd (SettlePaymentHandler_Handle i k w)"
| "payment_exec t (PFail i k r) w = snd (FailPaymentHandler_Handle i k r w)"

text \<open>What a transition does to every payment: nothing, or it adds one event to an existing one.\<close>

lemma lifecycle_effect:
  assumes "payment_inv (db w)" and "lifecycle_op operation" and "\<And>p. seq_mono (operation p)"
    and run: "withTx rollback (lifecycle_tx operation expected a) w = (r, w')"
  shows "payment_inv (db w') \<and> (\<forall>b. stream (db w') b = stream (db w) b \<or>
     (\<exists>ev. payment_decoded (stream (db w') b) = payment_decoded (stream (db w) b) @ [ev] \<and> stream (db w') b \<noteq> []))"
proof (cases r)
  case (Inl e)
  then show ?thesis using lifecycle_handler [OF assms] by simp
next
  case (Inr x)
  have "stream (db w') b = stream (db w) b \<or>
     (\<exists>ev. payment_decoded (stream (db w') b) = payment_decoded (stream (db w) b) @ [ev] \<and> stream (db w') b \<noteq> [])" for b
    using lifecycle_handler [OF assms] Inr by (cases "b = a") auto
  then show ?thesis using lifecycle_handler [OF assms] by simp
qed

lemma payment_exec_effect:
  assumes inv: "payment_inv (db w)"
  shows "payment_inv (db (payment_exec t c w)) \<and> (\<forall>b. stream (db w) b \<noteq> [] \<longrightarrow>
     stream (db (payment_exec t c w)) b = stream (db w) b \<or>
     (\<exists>ev. payment_decoded (stream (db (payment_exec t c w)) b) = payment_decoded (stream (db w) b) @ [ev] \<and>
        stream (db (payment_exec t c w)) b \<noteq> []))"
proof (cases c)
  case (PInitiate cmd)
  then show ?thesis
    using InitiateHandler_effect [OF inv, of t cmd] by (cases "InitiatePaymentHandler_Handle t cmd w") auto
next
  case (PAuthorize i k)
  then show ?thesis
    using inv lifecycle_effect [OF inv lifecycle_ops(1) seq_mono_payment(9), of is_PaymentAuthorized i]
    by (cases "AuthorizePaymentHandler_Handle i k w")
       (auto simp: AuthorizePaymentHandler_Handle_def throwE_def split: if_splits)
next
  case (PSettle i k)
  then show ?thesis
    using inv lifecycle_effect [OF inv lifecycle_ops(2) seq_mono_payment(10), of is_PaymentSettled i]
    by (cases "SettlePaymentHandler_Handle i k w")
       (auto simp: SettlePaymentHandler_Handle_def throwE_def split: if_splits)
next
  case (PFail i k r)
  then show ?thesis
    using inv lifecycle_effect [OF inv lifecycle_ops(3) seq_mono_payment(11), of "TrimSpace r" is_PaymentFailed i]
    by (cases "FailPaymentHandler_Handle i k r w")
       (auto simp: FailPaymentHandler_Handle_def throwE_def split: if_splits)
qed

lemma payment_inv_run: "payment_inv (db w) \<Longrightarrow> payment_inv (db (fold (payment_exec t) cs w))"
  by (induction cs arbitrary: w) (simp_all add: payment_exec_effect)

text \<open>No event can follow a settlement.\<close>

lemma no_history_after_settled:
  "payment_history i (es @ [ev]) s \<Longrightarrow> \<not> payment_history i es StatusSettled"
proof
  assume a: "payment_history i (es @ [ev]) s" "payment_history i es StatusSettled"
  have st: "py_status (fold Payment_Apply es Payment_zero) = StatusSettled"
    using payment_history_status [OF a(2)] by simp
  have "es \<noteq> []" using a(2) by (auto elim: payment_history.cases)
  with a(1) st show False
    by (cases rule: payment_history.cases) (auto dest!: payment_history_status)
qed

lemma payment_exec_settled:
  assumes inv: "payment_inv (db w)" and "stream (db w) b \<noteq> []"
    and settled: "py_status (payment_replay (stream (db w) b)) = StatusSettled"
  shows "stream (db (payment_exec t c w)) b = stream (db w) b"
proof (rule ccontr)
  let ?d' = "db (payment_exec t c w)"
  assume "stream ?d' b \<noteq> stream (db w) b"
  then obtain ev where "payment_decoded (stream ?d' b) = payment_decoded (stream (db w) b) @ [ev]" "stream ?d' b \<noteq> []"
    using payment_exec_effect [OF inv, of t c] assms(2) by blast
  then have "payment_history b (payment_decoded (stream (db w) b) @ [ev]) (py_status (payment_replay (stream ?d' b)))"
    using payment_invD(4) [OF payment_exec_effect [OF inv, THEN conjunct1], of t c b] by simp
  moreover have "payment_history b (payment_decoded (stream (db w) b)) StatusSettled"
    using payment_invD(4) [OF inv assms(2)] settled by simp
  ultimately show False using no_history_after_settled by blast
qed

section \<open>A sample service\<close>

definition payment_empty :: payment_db where
  "payment_empty = \<lparr>columns = [], outbox_messages = [], event_store_events = [], event_seq = 0,
     event_store_snapshots = [], payments_projection = Map.empty\<rparr>"

lemma payment_inv_empty [simp]: "payment_inv payment_empty"
  by (simp add: payment_inv_def payment_empty_def events_wf_def stream_def contiguous_def)

definition sample_payments :: "(payment_db, unit) world" where
  "sample_payments =
     \<lparr>db = payment_empty, peer = (), clock = (\<lambda>n. 1000 * int n + 5000),
      uuid = (\<lambda>n. replicate (Suc n) (CHR ''p'')), fault = (\<lambda>n. None), tick = 0, txtime = None\<rparr>"

definition sample_initiate :: InitiatePayment where
  "sample_initiate = \<lparr>ip_FromAccountID = ''a'', ip_ToAccountID = ''b'',
     ip_Amount = \<lparr>amountKobo = 100, currency = NGN\<rparr>, ip_Narration = '''', ip_IdempotencyKey = ''k''\<rparr>"

section \<open>Properties\<close>

text \<open>
  C13. The payment database stays consistent: from a database that satisfies the invariant, every
  sequence of commands, with any Temporal client and whichever statements fail, leads to a
  database in which the events of every payment are a history of its state machine and its
  projection row has the status, version and parties that the events replay to.
\<close>

theorem payment_run_consistent:
  assumes "payment_inv (db w)"
  shows "payment_inv (db (fold (payment_exec t) cs w)) \<and>
     (stream (db (fold (payment_exec t) cs w)) a \<noteq> [] \<longrightarrow>
        payment_history a (payment_decoded (stream (db (fold (payment_exec t) cs w)) a))
          (py_status (payment_replay (stream (db (fold (payment_exec t) cs w)) a))) \<and>
        (\<exists>r. payments_projection (db (fold (payment_exec t) cs w)) a = Some r \<and>
           projects r a (payment_replay (stream (db (fold (payment_exec t) cs w)) a))))"
  using payment_inv_run [OF assms, of t cs] payment_invD(4,5,6) [of "db (fold (payment_exec t) cs w)" a]
  by (metis option.exhaust)

theorem payment_run_consistent_witness:
  "\<exists>r. payments_projection (db (fold (payment_exec None) [PInitiate sample_initiate] sample_payments)) ''pp'' = Some r \<and>
     pp_Status r = StatusInitiated"
proof -
  let ?d = "db (fold (payment_exec None) [PInitiate sample_initiate] sample_payments)"
  have "stream ?d ''pp'' \<noteq> []" "py_status (payment_replay (stream ?d ''pp'')) = StatusInitiated" by code_simp+
  moreover have "payment_inv (db sample_payments)" by (simp add: sample_payments_def)
  ultimately show ?thesis
    using payment_run_consistent [of sample_payments None "[PInitiate sample_initiate]" "''pp''"]
    unfolding projects_def by metis
qed
text \<open>
  C14. Settlement is final: once a payment is settled, no sequence of commands changes its events
  any more, and these are exactly one initiation, one authorization and one settlement.
\<close>

theorem settled_is_final:
  assumes "payment_inv (db w)" and "stream (db w) a \<noteq> []"
    and "py_status (payment_replay (stream (db w) a)) = StatusSettled"
  shows "stream (db (fold (payment_exec t) cs w)) a = stream (db w) a \<and>
     map payment_EventType (payment_decoded (stream (db w) a)) =
       [''payment.initiated.v1'', ''payment.authorized.v1'', ''payment.settled.v1'']"
proof -
  have "stream (db (fold (payment_exec t) cs w)) a = stream (db w) a"
    using assms
  proof (induction cs arbitrary: w)
    case (Cons c cs)
    have "stream (db (payment_exec t c w)) a = stream (db w) a" by (rule payment_exec_settled [OF Cons.prems])
    then show ?case
      using Cons.IH [of "payment_exec t c w"] payment_exec_effect [OF Cons.prems(1), of t c] Cons.prems by simp
  qed simp
  moreover have "payment_history a (payment_decoded (stream (db w) a)) StatusSettled"
    using payment_invD(4) [OF assms(1,2)] assms(3) by simp
  ultimately show ?thesis using payment_history_settled by fastforce
qed

definition sample_settled :: "(payment_db, unit) world" where
  "sample_settled = fold (payment_exec None)
     [PInitiate sample_initiate, PAuthorize ''pp'' ''k'', PSettle ''pp'' ''k''] sample_payments"

lemma sample_settled_inv: "payment_inv (db sample_settled)"
  unfolding sample_settled_def by (rule payment_inv_run) (simp add: sample_payments_def)

theorem settled_is_final_witness:
  "stream (db (fold (payment_exec None) [PFail ''pp'' ''k'' ''no'', PAuthorize ''pp'' ''k''] sample_settled)) ''pp'' =
     stream (db sample_settled) ''pp''"
proof -
  have "case stream (db sample_settled) ''pp'' of [] \<Rightarrow> False | e # es \<Rightarrow> py_status (payment_replay (e # es)) = StatusSettled"
    by code_simp
  then have "stream (db sample_settled) ''pp'' \<noteq> []"
    "py_status (payment_replay (stream (db sample_settled) ''pp'')) = StatusSettled"
    by (auto split: list.splits)
  then show ?thesis using settled_is_final [OF sample_settled_inv] by blast
qed

text \<open>
  Without Temporal the service panics on every initiation. \<open>main\<close> passes a nil
  \<open>*temporal.Client\<close> as the interface \<open>ports.TemporalClient\<close>, which is then not nil, so the handler
  calls its method. Whenever the handler would succeed without a client, it commits the payment
  and then dereferences a nil pointer.
\<close>

theorem initiate_nil_client_panics:
  assumes "InitiatePaymentHandler_Handle None cmd w = (Inr r, w')"
  shows "InitiatePaymentHandler_Handle (Some None) cmd w = (Inl (Panic ''nil pointer dereference''), w')"
proof -
  obtain p pr where "withTx rollback (Initiate_tx cmd) w = (Inr (p, pr), w')"
    using assms by (auto simp: InitiatePaymentHandler_Handle_def go_inv throwE_def split: if_splits)
  then show ?thesis
    using assms
    by (auto simp: InitiatePaymentHandler_Handle_def bindE_def StartTransferWorkflow_def throwE_def split: if_splits)
qed

lemma sample_initiate_run:
  "case InitiatePaymentHandler_Handle None sample_initiate sample_payments of (r, w) \<Rightarrow>
     r = Inr (''pp'', 1, StatusInitiated) \<and> payments_projection (db w) ''pp'' = Some (initial_projection ''pp'' sample_initiate)"
  by code_simp

theorem initiate_nil_client_panics_witness:
  "\<exists>w. InitiatePaymentHandler_Handle (Some None) sample_initiate sample_payments =
     (Inl (Panic ''nil pointer dereference''), w) \<and> payments_projection (db w) ''pp'' \<noteq> None"
proof -
  obtain w where w: "InitiatePaymentHandler_Handle None sample_initiate sample_payments =
      (Inr (''pp'', 1, StatusInitiated), w)" "payments_projection (db w) ''pp'' \<noteq> None"
    using sample_initiate_run by (auto split: prod.splits)
  show ?thesis using initiate_nil_client_panics [OF w(1)] w(2) by blast
qed

text \<open>
  Initiating is not idempotent: the key is required but never looked up. Two requests with the
  same key and the same content create two payments.
\<close>

theorem initiate_ignores_key:
  "\<exists>i j. i \<noteq> j \<and>
     (let d = db (fold (payment_exec None) [PInitiate sample_initiate, PInitiate sample_initiate] sample_payments) in
      payments_projection d i = Some (initial_projection i sample_initiate) \<and>
      payments_projection d j = Some (initial_projection j sample_initiate))"
proof -
  have "case InitiatePaymentHandler_Handle None sample_initiate
        (snd (InitiatePaymentHandler_Handle None sample_initiate sample_payments)) of (r, w) \<Rightarrow>
      payments_projection (db w) ''pp'' = Some (initial_projection ''pp'' sample_initiate) \<and>
      payments_projection (db w) ''pppppppppppp'' = Some (initial_projection ''pppppppppppp'' sample_initiate)"
    by code_simp
  then show ?thesis unfolding Let_def
    by (intro exI [of _ "''pp''"] exI [of _ "''pppppppppppp''"]) (simp add: split_beta)
qed

section \<open>A lost update\<close>

text \<open>
  The second transaction of an initiation, with another transaction that commits between its read
  and its write: under read committed isolation, and with no lock taken by the read, nothing
  prevents this. The workflow it has just started authorizes the same payment.
\<close>

definition correlate_overlapped ::
    "(payment_db, 'p, 'x) go \<Rightarrow> id \<Rightarrow> string \<Rightarrow> string \<Rightarrow> (payment_db, 'p, unit) go" where
  "correlate_overlapped other paymentID wid rid =
     bindE (PaymentProjection_GetByID paymentID) (\<lambda>r.
     bindE other (\<lambda>_.
     case r of
       None \<Rightarrow> throwE (ErrorString ''payment not found'')
     | Some cur \<Rightarrow> PaymentProjection_Upsert (cur\<lparr>pp_TemporalWorkflowID := wid, pp_TemporalRunID := rid\<rparr>)))"

text \<open>
  Recording the workflow's identifiers can undo an authorization in the projection: there is a
  consistent database in which the second transaction of an initiation, overlapping with the
  authorization of the same payment, succeeds and leaves the projection at \<open>initiated\<close>, version 1,
  although the events say \<open>authorized\<close>, version 2.
\<close>

theorem correlation_loses_authorization:
  "\<exists>(w :: (payment_db, unit) world) a r w'. payment_inv (db w) \<and>
     correlate_overlapped (AuthorizePaymentHandler_Handle a ''k'') a ''wid'' ''rid'' w = (Inr (), w') \<and>
     payments_projection (db w') a = Some r \<and> pp_Status r = StatusInitiated \<and> pp_Version r = 1 \<and>
     py_status (payment_replay (stream (db w') a)) = StatusAuthorized \<and>
     py_version (payment_replay (stream (db w') a)) = 2"
proof -
  let ?w = "snd (InitiatePaymentHandler_Handle None sample_initiate sample_payments)"
  let ?c = "correlate_overlapped (AuthorizePaymentHandler_Handle ''pp'' ''k'') ''pp'' ''wid'' ''rid''"
  have run: "case ?c ?w of (r, w') \<Rightarrow> r = Inr () \<and>
      payments_projection (db w') ''pp'' = Some ((initial_projection ''pp'' sample_initiate)
        \<lparr>pp_TemporalWorkflowID := ''wid'', pp_TemporalRunID := ''rid''\<rparr>) \<and>
      py_status (payment_replay (stream (db w') ''pp'')) = StatusAuthorized \<and>
      py_version (payment_replay (stream (db w') ''pp'')) = 2"
    by code_simp
  have "payment_inv (db sample_payments)" by (simp add: sample_payments_def)
  then have "payment_inv (db ?w)"
    using InitiateHandler_effect [of sample_payments None sample_initiate "fst (InitiatePaymentHandler_Handle None
      sample_initiate sample_payments)" ?w] by simp
  then show ?thesis
    using run
    by (intro exI [of _ ?w] exI [of _ "''pp''"] exI [of _ "(initial_projection ''pp'' sample_initiate)
        \<lparr>pp_TemporalWorkflowID := ''wid'', pp_TemporalRunID := ''rid''\<rparr>"] exI [of _ "snd (?c ?w)"])
       (auto simp: initial_projection_def split: prod.splits)
qed

end
