(* ===== verification/PaymentServer.thy ===== *)
theory PaymentServer
  imports PaymentProps LedgerServer
begin

text \<open>
  The payment service's gRPC server
  (\<open>src/services/payment-service/infrastructure/grpc/server.go\<close>) and its outbox worker
  (\<open>application/workers/outbox_worker.go\<close>). Absent requests and messages are \<open>None\<close>, enumeration
  values their numbers. The NATS connection of the worker is the peer of its world and its
  \<open>PublishMsg\<close> a parameter.
\<close>

section \<open>The server\<close>

definition PAYMENT_STATUS_UNSPECIFIED :: int where
  "PAYMENT_STATUS_UNSPECIFIED = 0"

definition PAYMENT_STATUS_INITIATED :: int where
  "PAYMENT_STATUS_INITIATED = 1"

definition PAYMENT_STATUS_AUTHORIZED :: int where
  "PAYMENT_STATUS_AUTHORIZED = 2"

definition PAYMENT_STATUS_SETTLED :: int where
  "PAYMENT_STATUS_SETTLED = 3"

definition PAYMENT_STATUS_FAILED :: int where
  "PAYMENT_STATUS_FAILED = 4"

definition toProtoStatusString :: "string \<Rightarrow> int" where
  "toProtoStatusString s =
     (let s = TrimSpace (ToLower s) in
      if s = ''initiated'' then PAYMENT_STATUS_INITIATED
      else if s = ''authorized'' then PAYMENT_STATUS_AUTHORIZED
      else if s = ''settled'' then PAYMENT_STATUS_SETTLED
      else if s = ''failed'' then PAYMENT_STATUS_FAILED
      else PAYMENT_STATUS_UNSPECIFIED)"

record InitiatePaymentRequest =
  ipr_IdempotencyKey :: string
  ipr_FromAccountId :: string
  ipr_ToAccountId :: string
  ipr_Amount :: "MoneyMsg option"
  ipr_Narration :: string

definition PaymentServer_InitiatePayment ::
    "'p temporal_Client option option \<Rightarrow> InitiatePaymentRequest option \<Rightarrow> (payment_db, 'p, id \<times> int) go" where
  "PaymentServer_InitiatePayment temporal request =
     (case request of
        None \<Rightarrow> throwE (ErrorString ''request required'')
      | Some req \<Rightarrow>
          if TrimSpace (ipr_IdempotencyKey req) = '''' then throwE (ErrorString ''idempotency_key required'')
          else if TrimSpace (ipr_FromAccountId req) = '''' then throwE (ErrorString ''from_account_id required'')
          else if TrimSpace (ipr_ToAccountId req) = '''' then throwE (ErrorString ''to_account_id required'')
          else (case ipr_Amount req of
            None \<Rightarrow> throwE (ErrorString ''amount required'')
          | Some m \<Rightarrow>
              bindE (liftE (Money_New (mm_AmountKobo m) (mm_Currency m))) (\<lambda>amt.
              bindE (InitiatePaymentHandler_Handle temporal
                \<lparr>ip_FromAccountID = ipr_FromAccountId req, ip_ToAccountID = ipr_ToAccountId req, ip_Amount = amt,
                 ip_Narration = ipr_Narration req, ip_IdempotencyKey = ipr_IdempotencyKey req\<rparr>)
                (\<lambda>(pid, ver, status). returnE (pid, toProtoStatusString status)))))"

text \<open>\<open>AuthorizePayment\<close>, \<open>SettlePayment\<close> and \<open>FailPayment\<close>: payment, key and reason.\<close>

definition PaymentServer_AuthorizePayment :: "(string \<times> string) option \<Rightarrow> (payment_db, 'p, id \<times> int) go" where
  "PaymentServer_AuthorizePayment request =
     (case request of
        None \<Rightarrow> throwE (ErrorString ''request required'')
      | Some (paymentId, idempotencyKey) \<Rightarrow>
          if TrimSpace paymentId = '''' then throwE (ErrorString ''payment_id required'')
          else if TrimSpace idempotencyKey = '''' then throwE (ErrorString ''idempotency_key required'')
          else bindE (AuthorizePaymentHandler_Handle paymentId idempotencyKey)
            (\<lambda>(pid, ver, status). returnE (pid, toProtoStatusString status)))"

definition PaymentServer_SettlePayment :: "(string \<times> string) option \<Rightarrow> (payment_db, 'p, id \<times> int) go" where
  "PaymentServer_SettlePayment request =
     (case request of
        None \<Rightarrow> throwE (ErrorString ''request required'')
      | Some (paymentId, idempotencyKey) \<Rightarrow>
          if TrimSpace paymentId = '''' then throwE (ErrorString ''payment_id required'')
          else if TrimSpace idempotencyKey = '''' then throwE (ErrorString ''idempotency_key required'')
          else bindE (SettlePaymentHandler_Handle paymentId idempotencyKey)
            (\<lambda>(pid, ver, status). returnE (pid, toProtoStatusString status)))"

definition PaymentServer_FailPayment :: "(string \<times> string \<times> string) option \<Rightarrow> (payment_db, 'p, id \<times> int) go" where
  "PaymentServer_FailPayment request =
     (case request of
        None \<Rightarrow> throwE (ErrorString ''request required'')
      | Some (paymentId, idempotencyKey, reason) \<Rightarrow>
          if TrimSpace paymentId = '''' then throwE (ErrorString ''payment_id required'')
          else if TrimSpace idempotencyKey = '''' then throwE (ErrorString ''idempotency_key required'')
          else bindE (FailPaymentHandler_Handle paymentId idempotencyKey reason)
            (\<lambda>(pid, ver, status). returnE (pid, toProtoStatusString status)))"

record PaymentMsg =
  pm_PaymentId :: string
  pm_FromAccountId :: string
  pm_ToAccountId :: string
  pm_Amount :: MoneyMsg
  pm_Narration :: string
  pm_Status :: int
  pm_Version :: int

definition PaymentServer_GetPayment :: "string option \<Rightarrow> (payment_db, 'p, PaymentMsg) go" where
  "PaymentServer_GetPayment request =
     (case request of
        None \<Rightarrow> throwE (ErrorString ''request required'')
      | Some paymentId \<Rightarrow>
          let pid = TrimSpace paymentId in
          if pid = '''' then throwE (ErrorString ''payment_id required'')
          else bindE (PaymentQuery_GetByID pid) (\<lambda>r.
            case r of
              None \<Rightarrow> throwE (ErrorString ''payment not found'')
            | Some p \<Rightarrow> returnE
                \<lparr>pm_PaymentId = pp_PaymentID p, pm_FromAccountId = pp_FromAccountID p,
                 pm_ToAccountId = pp_ToAccountID p,
                 pm_Amount = \<lparr>mm_Currency = pp_Currency p, mm_AmountKobo = pp_AmountKobo p\<rparr>,
                 pm_Narration = pp_Narration p,
                 pm_Status =
                   (if pp_Status p = StatusInitiated then PAYMENT_STATUS_INITIATED
                    else if pp_Status p = StatusAuthorized then PAYMENT_STATUS_AUTHORIZED
                    else if pp_Status p = StatusSettled then PAYMENT_STATUS_SETTLED
                    else if pp_Status p = StatusFailed then PAYMENT_STATUS_FAILED
                    else PAYMENT_STATUS_UNSPECIFIED),
                 pm_Version = pp_Version p\<rparr>))"

section \<open>The outbox worker\<close>

record OutboxWorker =
  ow_interval :: duration
  ow_batchSize :: int

definition NewOutboxWorker :: OutboxWorker where
  "NewOutboxWorker = \<lparr>ow_interval = 500 * millisecond, ow_batchSize = 50\<rparr>"

text \<open>\<open>nc.PublishMsg\<close>: subject, data and headers.\<close>

type_synonym 'b publish_msg = "string \<Rightarrow> json \<Rightarrow> (string \<times> string) list \<Rightarrow> 'b \<Rightarrow> (go_error + unit) \<times> 'b"

text \<open>The loop over the batch: a message that cannot be published is skipped.\<close>

primrec worker_publish :: "'b publish_msg \<Rightarrow> Message list \<Rightarrow> ('x outbox_db_scheme, 'b, string list) go" where
  "worker_publish publish [] = returnE []"
| "worker_publish publish (msg # msgs) =
     bindE (tryE (callPeer (publish (msg_Topic msg) (msg_Value msg) (msg_Headers msg)))) (\<lambda>r.
     bindE (worker_publish publish msgs) (\<lambda>processedIDs.
     returnE (case r of Inl err \<Rightarrow> processedIDs | Inr _ \<Rightarrow> msg_ID msg # processedIDs)))"

definition processBatch :: "OutboxWorker \<Rightarrow> 'b publish_msg \<Rightarrow> nat option \<Rightarrow> ('x outbox_db_scheme, 'b, unit) go" where
  "processBatch wk publish lost =
     bindE (wrapE ''get pending'' (GetPending lost (ow_batchSize wk))) (\<lambda>msgs.
     if msgs = [] then returnE ()
     else
       bindE (worker_publish publish msgs) (\<lambda>processedIDs.
       if length processedIDs > 0 then wrapE ''mark processed'' (MarkProcessed processedIDs)
       else returnE ()))"

text \<open>\<open>Start\<close> for \<open>n\<close> ticks, with what each batch loses on the way: an error is logged.\<close>

primrec OutboxWorker_Start ::
    "OutboxWorker \<Rightarrow> 'b publish_msg \<Rightarrow> (nat \<Rightarrow> nat option) \<Rightarrow> nat \<Rightarrow> ('x outbox_db_scheme, 'b, unit) go" where
  "OutboxWorker_Start wk publish lost 0 = returnE ()"
| "OutboxWorker_Start wk publish lost (Suc n) =
     bindE (tryE (processBatch wk publish (lost n))) (\<lambda>_. OutboxWorker_Start wk publish lost n)"

section \<open>Facts about the server\<close>

text \<open>The status the query reports is the one the commands report, for every status a payment has.\<close>

lemma proto_status [simp]:
  "toProtoStatusString StatusInitiated = PAYMENT_STATUS_INITIATED"
  "toProtoStatusString StatusAuthorized = PAYMENT_STATUS_AUTHORIZED"
  "toProtoStatusString StatusSettled = PAYMENT_STATUS_SETTLED"
  "toProtoStatusString StatusFailed = PAYMENT_STATUS_FAILED"
  by code_simp+

lemma payment_history_statuses:
  "payment_history i es s \<Longrightarrow> s \<in> {StatusInitiated, StatusAuthorized, StatusSettled, StatusFailed}"
  by (erule payment_history.cases) auto

section \<open>Facts about the worker\<close>

text \<open>The rows of the table with the given ones marked as processed.\<close>

definition mark_rows :: "time \<Rightarrow> string set \<Rightarrow> outbox_row list \<Rightarrow> outbox_row list" where
  "mark_rows now ids rs =
     map (\<lambda>r. if msg_ID r \<in> ids then r\<lparr>row_processed_at := Some (pg_time now)\<rparr> else r) rs"

lemma mark_rows_ids [simp]: "map msg_ID (mark_rows now ids rs) = map msg_ID rs"
  by (simp add: mark_rows_def)

lemma nth_mark_rows:
  "i < length rs \<Longrightarrow> row_processed_at (rs ! i) = None \<Longrightarrow>
     row_processed_at (mark_rows now ids rs ! i) \<noteq> None \<longleftrightarrow> msg_ID (rs ! i) \<in> ids"
  by (simp add: mark_rows_def)

lemma MarkProcessed_effect:
  "MarkProcessed ids w = (r, w') \<Longrightarrow> peer w' = peer w \<and>
     (db w' = db w \<or> (\<exists>now. db w' = (db w)\<lparr>outbox_messages := mark_rows now (set ids) (outbox_messages (db w))\<rparr>))"
  by (auto simp: MarkProcessed_def sql_now_def Let_def mark_rows_def split: option.splits sum.splits if_splits)

lemma MarkProcessed_success:
  "MarkProcessed ids w = (r, w') \<Longrightarrow> r = Inr () \<Longrightarrow>
     \<exists>now. db w' = (db w)\<lparr>outbox_messages := mark_rows now (set ids) (outbox_messages (db w))\<rparr>"
  by (auto simp: MarkProcessed_def sql_now_def Let_def mark_rows_def split: option.splits sum.splits if_splits)

text \<open>The calls of \<open>PublishMsg\<close> for a batch, with their results, and the state of the connection after them.\<close>

primrec publish_calls :: "'b publish_msg \<Rightarrow> Message list \<Rightarrow> 'b \<Rightarrow> (Message \<times> (go_error + unit)) list \<times> 'b" where
  "publish_calls publish [] b = ([], b)"
| "publish_calls publish (m # ms) b =
     (let (r, b) = publish (msg_Topic m) (msg_Value m) (msg_Headers m) b; (cs, b) = publish_calls publish ms b
      in ((m, r) # cs, b))"

definition accepted :: "'b publish_msg \<Rightarrow> Message list \<Rightarrow> 'b \<Rightarrow> string set" where
  "accepted publish ms b = {msg_ID m |m. (m, Inr ()) \<in> set (fst (publish_calls publish ms b))}"

lemma publish_calls_messages: "map fst (fst (publish_calls publish ms b)) = ms"
  by (induction ms arbitrary: b) (simp_all add: split_beta)

lemma accepted_row:
  assumes "distinct (map msg_ID rs)" and "set ms \<subseteq> scan_message ` set (filter P rs)" and "i < length rs"
  shows "msg_ID (rs ! i) \<in> accepted publish ms b \<longleftrightarrow>
    (scan_message (rs ! i), Inr ()) \<in> set (fst (publish_calls publish ms b))"
proof
  assume "msg_ID (rs ! i) \<in> accepted publish ms b"
  then obtain m where m: "msg_ID m = msg_ID (rs ! i)" "(m, Inr ()) \<in> set (fst (publish_calls publish ms b))"
    by (auto simp: accepted_def)
  then have "m \<in> set ms" using publish_calls_messages [of publish ms b] by (metis fst_conv list.set_map image_eqI)
  then obtain x where x: "x \<in> set rs" "m = scan_message x" using assms(2) by auto
  then have "x = rs ! i" using m(1) assms(3) by (intro distinct_ids_row [OF assms(1)]) (simp_all add: scan_message_def)
  then show "(scan_message (rs ! i), Inr ()) \<in> set (fst (publish_calls publish ms b))" using m(2) x(2) by simp
next
  have "msg_ID (scan_message (rs ! i)) = msg_ID (rs ! i)" by (simp add: scan_message_def)
  then show "msg_ID (rs ! i) \<in> accepted publish ms b"
    if "(scan_message (rs ! i), Inr ()) \<in> set (fst (publish_calls publish ms b))"
    using that unfolding accepted_def by (metis (mono_tags, lifting) mem_Collect_eq)
qed

text \<open>Publishing a batch: no row changes, and the messages it counts are those accepted.\<close>

lemma worker_publish_effect:
  "\<exists>ids. worker_publish publish ms w = (Inr ids, w\<lparr>peer := snd (publish_calls publish ms (peer w))\<rparr>) \<and>
     set ids = accepted publish ms (peer w)"
proof (induction ms arbitrary: w)
  case Nil
  then show ?case by (simp add: go_run accepted_def)
next
  case (Cons m ms)
  obtain r b where p: "publish (msg_Topic m) (msg_Value m) (msg_Headers m) (peer w) = (r, b)"
    by (cases "publish (msg_Topic m) (msg_Value m) (msg_Headers m) (peer w)")
  obtain ids where ids: "worker_publish publish ms (w\<lparr>peer := b\<rparr>) =
      (Inr ids, w\<lparr>peer := snd (publish_calls publish ms b)\<rparr>)" "set ids = accepted publish ms b"
    using Cons.IH [of "w\<lparr>peer := b\<rparr>"] by auto
  then have "worker_publish publish (m # ms) w =
      (Inr (case r of Inl err \<Rightarrow> ids | Inr _ \<Rightarrow> msg_ID m # ids), w\<lparr>peer := snd (publish_calls publish (m # ms) (peer w))\<rparr>)"
    using p by (simp add: bindE_def tryE_def callPeer_def returnE_def split_beta)
  moreover have "accepted publish (m # ms) (peer w) =
      (case r of Inl err \<Rightarrow> set ids | Inr _ \<Rightarrow> insert (msg_ID m) (set ids))"
    using p ids(2) by (cases r) (auto simp: accepted_def split_beta)
  ultimately show ?case by (cases r) auto
qed

lemma GetPending_inv [go_inv]:
  "GetPending lost n w = (Inr ms, w') \<longleftrightarrow> fault w (tick w) = None \<and> 0 \<le> n \<and>
     (''outbox_messages'', ''processed_at'') \<in> set (columns (db w)) \<and>
     ms = map scan_message (received lost (take (nat n) (sort_key msg_CreatedAt
       (filter (\<lambda>r. row_processed_at r = None) (outbox_messages (db w)))))) \<and> w' = w\<lparr>tick := Suc (tick w)\<rparr>"
  by (auto simp: GetPending_def go_inv)

lemma local_outbox [local_intro]: "local_op (GetPending lost n)" "local_op (MarkProcessed ids)"
  by (simp_all add: GetPending_def MarkProcessed_def local_intro)

lemma GetPending_db: "db (snd (GetPending lost n w)) = db w"
  by (auto simp: GetPending_def bindE_def returnE_def sql_def sql_now_def Let_def split: option.splits)

lemma GetPending_pending:
  assumes "GetPending lost n w = (Inr ms, w')" and "m \<in> set ms"
  shows "m \<in> scan_message ` set (filter (\<lambda>r. row_processed_at r = None) (outbox_messages (db w)))"
  using assms
  by (auto simp: GetPending_inv dest!: set_received [THEN subsetD] in_set_takeD)

text \<open>What a batch does to the table and to the connection, on every path.\<close>

lemma processBatch_effect:
  assumes "processBatch wk publish lost w = (r, w')"
  shows "\<exists>ms. set ms \<subseteq> scan_message ` set (filter (\<lambda>x. row_processed_at x = None) (outbox_messages (db w))) \<and>
     peer w' = snd (publish_calls publish ms (peer w)) \<and>
     (let marked = (\<exists>now. db w' = (db w)\<lparr>outbox_messages :=
            mark_rows now (accepted publish ms (peer w)) (outbox_messages (db w))\<rparr>)
      in (db w' = db w \<or> marked) \<and> (r = Inr () \<longrightarrow> marked))"
proof (cases "GetPending lost (ow_batchSize wk) w")
  case (Pair q v)
  have v: "db v = db w" "peer v = peer w"
    using GetPending_db [of lost "ow_batchSize wk" w] local_opD [OF local_outbox(1) Pair] Pair by simp_all
  have none: "\<exists>now. db w = (db w)\<lparr>outbox_messages := mark_rows now {} (outbox_messages (db w))\<rparr>"
    by (simp add: mark_rows_def)
  show ?thesis
  proof (cases q)
    case (Inl e)
    then show ?thesis
      using assms Pair v by (auto simp: processBatch_def bindE_def wrapE_def Let_def intro!: exI [of _ "[]"])
  next
    case (Inr ms)
    obtain ids where ids: "worker_publish publish ms v = (Inr ids, v\<lparr>peer := snd (publish_calls publish ms (peer w))\<rparr>)"
        "set ids = accepted publish ms (peer w)"
      using worker_publish_effect [of publish ms v] v by auto
    have sub: "set ms \<subseteq> scan_message ` set (filter (\<lambda>x. row_processed_at x = None) (outbox_messages (db w)))"
      using GetPending_pending Pair Inr by blast
    show ?thesis
    proof (cases "ms = [] \<or> ids = []")
      case True
      then have "db w' = db w" "peer w' = snd (publish_calls publish ms (peer w))" "accepted publish ms (peer w) = {}"
        using assms Pair Inr ids v
        by (auto simp: processBatch_def bindE_def wrapE_def returnE_def accepted_def split: if_splits)
      then show ?thesis using sub none by (intro exI [of _ ms]) (simp add: Let_def)
    next
      case False
      then obtain r' where m: "MarkProcessed ids (v\<lparr>peer := snd (publish_calls publish ms (peer w))\<rparr>) = (r', w')"
          and r': "r = Inr () \<longrightarrow> r' = Inr ()"
        using assms Pair Inr ids
        by (auto simp: processBatch_def bindE_def wrapE_def split: if_splits prod.splits sum.splits)
      then show ?thesis
        using MarkProcessed_effect [OF m] MarkProcessed_success [OF m] sub v ids(2)
        by (intro exI [of _ ms]) (auto simp: Let_def)
    qed
  qed
qed

section \<open>Properties\<close>

text \<open>
  C16. What the worker marks is what \<open>PublishMsg\<close> has accepted. Whatever a batch does and returns, it
  has called \<open>PublishMsg\<close> with pending messages only, it drops no row and changes no identifier, and
  a pending row is processed afterwards only if the batch called \<open>PublishMsg\<close> with the row's topic,
  value and headers and got no error; if the batch returns without an error, every such row is
  processed. Nothing is assumed of the NATS client: its \<open>PublishMsg\<close> buffers, so a result without
  error does not say that a server has the message.
\<close>

theorem outbox_worker_marks_accepted:
  assumes ids: "distinct (map msg_ID (outbox_messages (db w)))"
    and run: "processBatch wk publish lost w = (r, w')"
  shows "\<exists>ms calls. publish_calls publish ms (peer w) = (calls, peer w') \<and>
    set ms \<subseteq> scan_message ` set (filter (\<lambda>x. row_processed_at x = None) (outbox_messages (db w))) \<and>
    map msg_ID (outbox_messages (db w')) = map msg_ID (outbox_messages (db w)) \<and>
    (\<forall>i < length (outbox_messages (db w)). row_processed_at (outbox_messages (db w) ! i) = None \<longrightarrow>
       (row_processed_at (outbox_messages (db w') ! i) \<noteq> None \<longrightarrow>
          (scan_message (outbox_messages (db w) ! i), Inr ()) \<in> set calls) \<and>
       (r = Inr () \<and> (scan_message (outbox_messages (db w) ! i), Inr ()) \<in> set calls \<longrightarrow>
          row_processed_at (outbox_messages (db w') ! i) \<noteq> None))"
proof -
  let ?rs = "outbox_messages (db w)"
  obtain ms where sub: "set ms \<subseteq> scan_message ` set (filter (\<lambda>x. row_processed_at x = None) ?rs)"
    and peer: "peer w' = snd (publish_calls publish ms (peer w))"
    and dbs: "db w' = db w \<or> (\<exists>now. db w' = (db w)\<lparr>outbox_messages := mark_rows now (accepted publish ms (peer w)) ?rs\<rparr>)"
      "r = Inr () \<Longrightarrow> \<exists>now. db w' = (db w)\<lparr>outbox_messages := mark_rows now (accepted publish ms (peer w)) ?rs\<rparr>"
    using processBatch_effect [OF run] unfolding Let_def by blast
  define calls where "calls = fst (publish_calls publish ms (peer w))"
  have acc: "msg_ID (?rs ! i) \<in> accepted publish ms (peer w) \<longleftrightarrow> (scan_message (?rs ! i), Inr ()) \<in> set calls"
    if "i < length ?rs" for i
    using accepted_row [OF ids sub that] by (simp add: calls_def)
  have "map msg_ID (outbox_messages (db w')) = map msg_ID ?rs" using dbs(1) by auto
  moreover have "(row_processed_at (outbox_messages (db w') ! i) \<noteq> None \<longrightarrow> (scan_message (?rs ! i), Inr ()) \<in> set calls) \<and>
      (r = Inr () \<and> (scan_message (?rs ! i), Inr ()) \<in> set calls \<longrightarrow> row_processed_at (outbox_messages (db w') ! i) \<noteq> None)"
    if i: "i < length ?rs" and p: "row_processed_at (?rs ! i) = None" for i
  proof -
    have marked: "row_processed_at (outbox_messages (db w') ! i) \<noteq> None \<longleftrightarrow> (scan_message (?rs ! i), Inr ()) \<in> set calls"
      if "\<exists>now. db w' = (db w)\<lparr>outbox_messages := mark_rows now (accepted publish ms (peer w)) ?rs\<rparr>"
    proof -
      from that obtain now where "outbox_messages (db w') = mark_rows now (accepted publish ms (peer w)) ?rs" by auto
      then show ?thesis using nth_mark_rows [OF i p] acc [OF i] by simp
    qed
    then show ?thesis using dbs p by (metis (no_types))
  qed
  ultimately show ?thesis
    using sub peer by (intro exI [of _ ms] exI [of _ calls]) (simp add: calls_def)
qed

definition log_publish_msg :: "(string \<times> json \<times> (string \<times> string) list) list publish_msg" where
  "log_publish_msg t v h b = (Inr (), (t, v, h) # b)"

definition sample_nats :: "(string \<times> string) list \<Rightarrow> (outbox_db, (string \<times> json \<times> (string \<times> string) list) list) world" where
  "sample_nats cols = \<lparr>db = \<lparr>columns = cols, outbox_messages = [sample_row]\<rparr>, peer = [],
     clock = (\<lambda>n. 7000), uuid = (\<lambda>n. ''u''), fault = (\<lambda>n. None), tick = 0, txtime = None\<rparr>"

theorem outbox_worker_marks_accepted_witness:
  "case processBatch NewOutboxWorker log_publish_msg None (sample_nats [(''outbox_messages'', ''processed_at'')]) of
     (r, w') \<Rightarrow> row_processed_at (outbox_messages (db w') ! 0) = Some 7000 \<and>
       (\<exists>ms calls. publish_calls log_publish_msg ms [] = (calls, peer w') \<and> (scan_message sample_row, Inr ()) \<in> set calls)"
proof -
  let ?w = "sample_nats [(''outbox_messages'', ''processed_at'')]"
  let ?r = "processBatch NewOutboxWorker log_publish_msg None ?w"
  have run: "row_processed_at (outbox_messages (db (snd ?r)) ! 0) = Some 7000" by code_simp
  have rows: "outbox_messages (db ?w) = [sample_row]" "row_processed_at sample_row = None" "peer ?w = []"
    by (simp_all add: sample_nats_def sample_row_def)
  show ?thesis
    using outbox_worker_marks_accepted [of ?w NewOutboxWorker log_publish_msg None "fst ?r" "snd ?r"] run rows
    by (auto simp: split_beta)
qed

text \<open>
  On the schema of the migrations, whose outbox table has no column \<open>processed_at\<close>, the worker
  never publishes: for any number of ticks the loop keeps running, but the broker receives nothing
  and the table stays as it is.
\<close>

theorem outbox_worker_never_publishes:
  fixes w :: "('x outbox_db_scheme, 'b) world"
  assumes "(''outbox_messages'', ''processed_at'') \<notin> set (columns (db w))"
  shows "\<exists>w'. OutboxWorker_Start wk publish lost n w = (Inr (), w') \<and> db w' = db w \<and> peer w' = peer w"
  using assms
proof (induction n arbitrary: w)
  case 0
  then show ?case by (simp add: go_run)
next
  case (Suc n)
  obtain e v where g: "GetPending (lost n) (ow_batchSize wk) w = (Inl e, v)"
    using processed_at_missing(1) [OF Suc.prems, of "lost n" "ow_batchSize wk"] by (metis fst_conv surj_pair)
  have v: "db v = db w" "peer v = peer w"
    using GetPending_db [of "lost n" "ow_batchSize wk" w] local_opD [OF local_outbox(1) g] g by simp_all
  have "tryE (processBatch wk publish (lost n)) w = (Inr (Inl (Wrapped ''get pending'' e)), v)"
    using g by (simp add: tryE_def processBatch_def bindE_def wrapE_def)
  then have "OutboxWorker_Start wk publish lost (Suc n) w = OutboxWorker_Start wk publish lost n v"
    by (simp add: bindE_run)
  then show ?case using Suc.IH [of v] Suc.prems v by simp
qed

theorem outbox_worker_never_publishes_witness:
  "\<exists>w'. OutboxWorker_Start NewOutboxWorker log_publish_msg (\<lambda>_. None) 3 (sample_nats []) = (Inr (), w') \<and> peer w' = []"
  using outbox_worker_never_publishes [of "sample_nats []" NewOutboxWorker log_publish_msg "\<lambda>_. None" 3]
  by (auto simp: sample_nats_def)

text \<open>
  What \<open>GetPayment\<close> answers: in a consistent database, for an identifier that is not blank, the
  query returns the parties, the version and the status that the events of the payment replay to,
  the status under the number with which the commands report it; for an identifier with no events
  it returns an error. It changes nothing but the clock of the run.
\<close>

theorem GetPayment_answers:
  assumes inv: "payment_inv (db w)" and ok: "fault w (tick w) = None"
    and pid: "TrimSpace paymentId = pid" "pid \<noteq> ''''"
  shows "if stream (db w) pid = []
    then PaymentServer_GetPayment (Some paymentId) w =
      (Inl (ErrorString ''payment not found''), w\<lparr>tick := Suc (tick w)\<rparr>)
    else \<exists>m. PaymentServer_GetPayment (Some paymentId) w = (Inr m, w\<lparr>tick := Suc (tick w)\<rparr>) \<and>
      (let p = payment_replay (stream (db w) pid) in
       pm_PaymentId m = pid \<and> pm_FromAccountId m = py_fromAccountID p \<and> pm_ToAccountId m = py_toAccountID p \<and>
       pm_Narration m = py_narration p \<and> pm_Version m = int (length (stream (db w) pid)) \<and>
       pm_Status m = toProtoStatusString (py_status p) \<and> pm_Status m \<noteq> PAYMENT_STATUS_UNSPECIFIED)"
proof (cases "payments_projection (db w) pid")
  case None
  then have "PaymentQuery_GetByID pid w = (Inr None, w\<lparr>tick := Suc (tick w)\<rparr>)"
    using ok by (simp add: PaymentQuery_GetByID_def PaymentProjection_GetByID_def sql_def sql_now_def Let_def)
  moreover have "stream (db w) pid = []" using payment_invD(5) [OF inv] None by simp
  ultimately show ?thesis using pid by (simp add: PaymentServer_GetPayment_def Let_def bindE_def throwE_def)
next
  case (Some r)
  then have q: "PaymentQuery_GetByID pid w = (Inr (Some r), w\<lparr>tick := Suc (tick w)\<rparr>)"
    using ok by (simp add: PaymentQuery_GetByID_def PaymentProjection_GetByID_def sql_def sql_now_def Let_def)
  have ne: "stream (db w) pid \<noteq> []" using payment_invD(5) [OF inv, of pid] Some by simp
  have "projects r pid (payment_replay (stream (db w) pid))" using payment_invD(6) [OF inv Some] .
  moreover have "py_status (payment_replay (stream (db w) pid)) \<in>
      {StatusInitiated, StatusAuthorized, StatusSettled, StatusFailed}"
    using payment_history_statuses [OF payment_invD(4) [OF inv ne]] .
  ultimately show ?thesis
    using pid ne q
    by (auto simp: PaymentServer_GetPayment_def Let_def bindE_def returnE_def projects_def payment_replay_version
        PAYMENT_STATUS_UNSPECIFIED_def PAYMENT_STATUS_INITIATED_def PAYMENT_STATUS_AUTHORIZED_def
        PAYMENT_STATUS_SETTLED_def PAYMENT_STATUS_FAILED_def)
qed

theorem GetPayment_answers_witness:
  "\<exists>m. fst (PaymentServer_GetPayment (Some '' pp'')
     (snd (InitiatePaymentHandler_Handle None sample_initiate sample_payments))) = Inr m \<and>
     pm_Status m = PAYMENT_STATUS_INITIATED"
proof -
  let ?w = "snd (InitiatePaymentHandler_Handle None sample_initiate sample_payments)"
  have trim: "TrimSpace '' pp'' = ''pp''" by code_simp
  have run: "case InitiatePaymentHandler_Handle None sample_initiate sample_payments of (r, w) \<Rightarrow>
      fault w (tick w) = None \<and> (case stream (db w) ''pp'' of
        [] \<Rightarrow> False | e # es \<Rightarrow> py_status (payment_replay (e # es)) = StatusInitiated)"
    by code_simp
  have "payment_inv (db sample_payments)" by (simp add: sample_payments_def)
  then have "payment_inv (db ?w)"
    using InitiateHandler_effect [of sample_payments None sample_initiate "fst (InitiatePaymentHandler_Handle None
      sample_initiate sample_payments)" ?w] by simp
  moreover have "fault ?w (tick ?w) = None \<and> stream (db ?w) ''pp'' \<noteq> [] \<and>
      py_status (payment_replay (stream (db ?w) ''pp'')) = StatusInitiated"
    using run by (cases "stream (db ?w) ''pp''") (simp_all add: split_beta)
  ultimately show ?thesis using GetPayment_answers [of ?w, OF _ _ trim] by (auto simp: Let_def)
qed

end
