(* ===== verification/TransferFlow.thy ===== *)
theory TransferFlow
  imports PaymentServer AccountProps
begin

text \<open>
  The transfer of a payment's amount, across the payment, account and ledger services: the payment
  service's clients (\<open>infrastructure/grpc/account_client.go\<close>, \<open>ledger_client.go\<close>), the Temporal
  workflow and its activities (\<open>application/workflows/transfer_workflow.go\<close>), and the saga and
  consumer that stand in for it when Temporal is off (\<open>application/saga/transfer_saga.go\<close>,
  \<open>infrastructure/messaging/consumer.go\<close>), all under \<open>src/services/payment-service/\<close>. The peer of
  a payment world is the bank behind a network that decides about every call; the ledger the
  payment service posts to is the one behind the account service. The Temporal server is a
  parameter.
\<close>

section \<open>The clients\<close>

type_synonym 'p account_call = "id \<Rightarrow> Money \<Rightarrow> string \<Rightarrow> string \<Rightarrow> 'p \<Rightarrow> (go_error + id) \<times> 'p"
type_synonym 'p ledger_call = "id \<Rightarrow> Money \<Rightarrow> string \<Rightarrow> string \<Rightarrow> string \<Rightarrow> 'p \<Rightarrow> (go_error + id) \<times> 'p"

definition wrap_error :: "string \<Rightarrow> (go_error + 'a) \<times> 'p \<Rightarrow> (go_error + 'a) \<times> 'p" where
  "wrap_error msg rp = (case rp of (Inl err, p) \<Rightarrow> (Inl (Wrapped msg err), p) | (Inr x, p) \<Rightarrow> (Inr x, p))"

definition accountClient_Deposit ::
    "transport \<Rightarrow> (MoneyRequest \<Rightarrow> (account_db, 'l, id) go) \<Rightarrow> (account_db, 'l) world account_call" where
  "accountClient_Deposit t served accountID amount idempotencyKey narration p =
     wrap_error ''account deposit'' (rpc t (served
       \<lparr>mr_AccountId = accountID,
        mr_Amount = Some \<lparr>mm_Currency = currency amount, mm_AmountKobo = amountKobo amount\<rparr>,
        mr_IdempotencyKey = idempotencyKey, mr_Narration = narration\<rparr>) p)"

definition accountClient_Withdraw ::
    "transport \<Rightarrow> (MoneyRequest \<Rightarrow> (account_db, 'l, id) go) \<Rightarrow> (account_db, 'l) world account_call" where
  "accountClient_Withdraw t served accountID amount idempotencyKey narration p =
     wrap_error ''account withdraw'' (rpc t (served
       \<lparr>mr_AccountId = accountID,
        mr_Amount = Some \<lparr>mm_Currency = currency amount, mm_AmountKobo = amountKobo amount\<rparr>,
        mr_IdempotencyKey = idempotencyKey, mr_Narration = narration\<rparr>) p)"

definition ledgerClient_PostEntry :: "transport \<Rightarrow> 'q post_method \<Rightarrow> (ledger_db, 'q) world ledger_call" where
  "ledgerClient_PostEntry t served accountID amount entryType idempotencyKey narration p =
     (let call = (\<lambda>et. wrap_error ''ledger post entry'' (rpc t (served (Some
            \<lparr>per_IdempotencyKey = idempotencyKey, per_Account = Some accountID, per_EntryType = et,
             per_Amount = Some \<lparr>mm_Currency = currency amount, mm_AmountKobo = amountKobo amount\<rparr>,
             per_Narration = narration\<rparr>)) p))
      in if entryType = ''deposit'' then call ENTRY_TYPE_DEPOSIT
         else if entryType = ''withdrawal'' then call ENTRY_TYPE_WITHDRAWAL
         else (Inl (ErrorString (''invalid entry type: '' @ entryType)), p))"

section \<open>The activities\<close>

text \<open>
  \<open>TransferActivities\<close>: the two ports; the three handlers are those of the payment service. The
  constructors of the clients never return nil.
\<close>

record 'p TransferActivities =
  ta_Ledger_PostEntry :: "'p ledger_call"
  ta_Account_Deposit :: "'p account_call"
  ta_Account_Withdraw :: "'p account_call"

definition Activity_Withdraw :: "'p TransferActivities \<Rightarrow> TransferWorkflowInput \<Rightarrow> (payment_db, 'p, unit) go" where
  "Activity_Withdraw acts inp =
     bindE (liftE (Money_New (tw_AmountKobo inp) (tw_Currency inp))) (\<lambda>amt.
     bindE (callPeer (ta_Account_Withdraw acts (tw_FromAccountID inp) amt (''wdr-'' @ tw_PaymentID inp)
       (tw_Narration inp))) (\<lambda>_. returnE ()))"

definition Activity_LedgerPostWithdraw ::
    "'p TransferActivities \<Rightarrow> TransferWorkflowInput \<Rightarrow> (payment_db, 'p, unit) go" where
  "Activity_LedgerPostWithdraw acts inp =
     bindE (liftE (Money_New (tw_AmountKobo inp) (tw_Currency inp))) (\<lambda>amt.
     bindE (callPeer (ta_Ledger_PostEntry acts (tw_FromAccountID inp) amt ''withdrawal''
       (''ldg-wdr-'' @ tw_PaymentID inp) (tw_Narration inp))) (\<lambda>_. returnE ()))"

definition Activity_Deposit :: "'p TransferActivities \<Rightarrow> TransferWorkflowInput \<Rightarrow> (payment_db, 'p, unit) go" where
  "Activity_Deposit acts inp =
     bindE (liftE (Money_New (tw_AmountKobo inp) (tw_Currency inp))) (\<lambda>amt.
     bindE (callPeer (ta_Account_Deposit acts (tw_ToAccountID inp) amt (''dep-'' @ tw_PaymentID inp)
       (tw_Narration inp))) (\<lambda>_. returnE ()))"

definition Activity_LedgerPostDeposit ::
    "'p TransferActivities \<Rightarrow> TransferWorkflowInput \<Rightarrow> (payment_db, 'p, unit) go" where
  "Activity_LedgerPostDeposit acts inp =
     bindE (liftE (Money_New (tw_AmountKobo inp) (tw_Currency inp))) (\<lambda>amt.
     bindE (callPeer (ta_Ledger_PostEntry acts (tw_ToAccountID inp) amt ''deposit''
       (''ldg-dep-'' @ tw_PaymentID inp) (tw_Narration inp))) (\<lambda>_. returnE ()))"

definition Activity_Refund :: "'p TransferActivities \<Rightarrow> TransferWorkflowInput \<Rightarrow> (payment_db, 'p, unit) go" where
  "Activity_Refund acts inp =
     bindE (liftE (Money_New (tw_AmountKobo inp) (tw_Currency inp))) (\<lambda>amt.
     bindE (callPeer (ta_Account_Deposit acts (tw_FromAccountID inp) amt (''refund-'' @ tw_PaymentID inp)
       (tw_Narration inp))) (\<lambda>_. returnE ()))"

definition Activity_AuthorizePayment :: "TransferWorkflowInput \<Rightarrow> (payment_db, 'p, unit) go" where
  "Activity_AuthorizePayment inp =
     bindE (AuthorizePaymentHandler_Handle (tw_PaymentID inp) (''auth-'' @ tw_PaymentID inp)) (\<lambda>_. returnE ())"

definition Activity_SettlePayment :: "TransferWorkflowInput \<Rightarrow> (payment_db, 'p, unit) go" where
  "Activity_SettlePayment inp =
     bindE (SettlePaymentHandler_Handle (tw_PaymentID inp) (''settle-'' @ tw_PaymentID inp)) (\<lambda>_. returnE ())"

definition Activity_FailPayment :: "id \<Rightarrow> string \<Rightarrow> (payment_db, 'p, unit) go" where
  "Activity_FailPayment paymentID reason =
     bindE (FailPaymentHandler_Handle paymentID (''fail-'' @ paymentID) reason) (\<lambda>_. returnE ())"

text \<open>\<open>RegisterTransferWorker\<close>: the activities that take the workflow's input, by name.\<close>

definition RegisterTransferWorker ::
    "'p TransferActivities \<Rightarrow> string \<Rightarrow> (TransferWorkflowInput \<Rightarrow> (payment_db, 'p, unit) go) option" where
  "RegisterTransferWorker acts = map_of
     [(''Withdraw'', Activity_Withdraw acts), (''LedgerPostWithdraw'', Activity_LedgerPostWithdraw acts),
      (''Deposit'', Activity_Deposit acts), (''LedgerPostDeposit'', Activity_LedgerPostDeposit acts),
      (''Refund'', Activity_Refund acts), (''AuthorizePayment'', Activity_AuthorizePayment),
      (''SettlePayment'', Activity_SettlePayment)]"

section \<open>The workflow\<close>

text \<open>
  The Temporal server runs an activity for the workflow and reports its outcome. What the workflow
  relies on: the activity is run at most \<open>MaximumAttempts\<close> times, and success is reported only
  when the last run succeeded. A failure may be reported after any number of runs, whatever they
  returned: a run can complete and its completion be lost.
\<close>

type_synonym 'p activity_engine = "(payment_db, 'p, unit) go \<Rightarrow> (payment_db, 'p, unit) go"

definition MaximumAttempts :: nat where
  "MaximumAttempts = 5"

definition temporal_engine :: "'p activity_engine \<Rightarrow> bool" where
  "temporal_engine engine \<longleftrightarrow> (\<forall>m w. \<exists>n rs. n \<le> MaximumAttempts \<and>
     attempts m n w = (rs, snd (engine m w)) \<and> (fst (engine m w) = Inr () \<longrightarrow> rs \<noteq> [] \<and> last rs = Inr ()))"

definition ExecuteActivity ::
    "'p activity_engine \<Rightarrow> 'p TransferActivities \<Rightarrow> string \<Rightarrow> TransferWorkflowInput \<Rightarrow> (payment_db, 'p, unit) go" where
  "ExecuteActivity engine acts name inp =
     (case RegisterTransferWorker acts name of
        None \<Rightarrow> throwE (ErrorString ''unable to find activityType'')
      | Some f \<Rightarrow> engine (f inp))"

text \<open>A step that fails after the withdrawal: refund, mark the payment as failed, ignore both outcomes.\<close>

definition transfer_compensate ::
    "'p activity_engine \<Rightarrow> 'p TransferActivities \<Rightarrow> TransferWorkflowInput \<Rightarrow> string \<Rightarrow> go_error \<Rightarrow> (payment_db, 'p, unit) go" where
  "transfer_compensate engine acts inp stage err =
     bindE (tryE (ExecuteActivity engine acts ''Refund'' inp)) (\<lambda>_.
     bindE (tryE (engine (Activity_FailPayment (tw_PaymentID inp) (stage @ Error_text err)))) (\<lambda>_.
     throwE err))"

text \<open>The steps after the withdrawal: the activity, and what the failure is called.\<close>

primrec transfer_steps ::
    "'p activity_engine \<Rightarrow> 'p TransferActivities \<Rightarrow> TransferWorkflowInput \<Rightarrow> (string \<times> string) list \<Rightarrow>
     (payment_db, 'p, unit) go" where
  "transfer_steps engine acts inp [] = returnE ()"
| "transfer_steps engine acts inp (step # steps) =
     bindE (tryE (ExecuteActivity engine acts (fst step) inp)) (\<lambda>r.
     case r of
       Inl err \<Rightarrow> transfer_compensate engine acts inp (snd step) err
     | Inr _ \<Rightarrow> transfer_steps engine acts inp steps)"

definition TransferWorkflow ::
    "'p activity_engine \<Rightarrow> 'p TransferActivities \<Rightarrow> TransferWorkflowInput \<Rightarrow> (payment_db, 'p, unit) go" where
  "TransferWorkflow engine acts inp =
     bindE (tryE (ExecuteActivity engine acts ''Withdraw'' inp)) (\<lambda>r.
     case r of
       Inl err \<Rightarrow>
         bindE (tryE (engine (Activity_FailPayment (tw_PaymentID inp) (''withdrawal failed: '' @ Error_text err)))) (\<lambda>_.
         throwE err)
     | Inr _ \<Rightarrow> transfer_steps engine acts inp
         [(''LedgerPostWithdraw'', ''ledger withdrawal entry failed: ''), (''Deposit'', ''deposit failed: ''),
          (''LedgerPostDeposit'', ''ledger deposit entry failed: ''), (''AuthorizePayment'', ''authorize failed: ''),
          (''SettlePayment'', ''settle failed: '')])"

section \<open>The saga\<close>

definition bestEffortFailPayment :: "id \<Rightarrow> string \<Rightarrow> string \<Rightarrow> (payment_db, 'p, unit) go" where
  "bestEffortFailPayment paymentID idempotencyKey reason =
     bindE (tryE (FailPaymentHandler_Handle paymentID idempotencyKey reason)) (\<lambda>_. returnE ())"

definition bestEffortRefund ::
    "'p TransferActivities \<Rightarrow> id \<Rightarrow> Money \<Rightarrow> string \<Rightarrow> string \<Rightarrow> (payment_db, 'p, unit) go" where
  "bestEffortRefund acts accountID amount idempotencyKey narration =
     bindE (tryE (callPeer (ta_Account_Deposit acts accountID amount idempotencyKey narration))) (\<lambda>_. returnE ())"

text \<open>A step of the saga: on an error clean up, then return the error.\<close>

definition saga_step ::
    "(payment_db, 'p, 'a) go \<Rightarrow> (go_error \<Rightarrow> (payment_db, 'p, unit) go) \<Rightarrow> (payment_db, 'p, unit) go \<Rightarrow>
     (payment_db, 'p, unit) go" where
  "saga_step call cleanup next_step =
     bindE (tryE call) (\<lambda>r.
     case r of
       Inl err \<Rightarrow> bindE (cleanup err) (\<lambda>_. throwE err)
     | Inr _ \<Rightarrow> next_step)"

fun saga_transfer :: "'p TransferActivities \<Rightarrow> payment_event \<Rightarrow> (payment_db, 'p, unit) go" where
  "saga_transfer acts (PaymentInitiated pid from to amount narration occurredAt) =
     (let cleanup = (\<lambda>stage msg err.
        bindE (bestEffortRefund acts from amount (''refund-'' @ stage @ pid) narration) (\<lambda>_.
        bestEffortFailPayment pid (''fail-'' @ stage @ pid) (msg @ Error_text err)))
      in
      saga_step (callPeer (ta_Account_Withdraw acts from amount (''wdr-'' @ pid) narration))
        (\<lambda>err. bestEffortFailPayment pid (''fail-wdr-'' @ pid) (''withdrawal failed: '' @ Error_text err))
     (saga_step (callPeer (ta_Ledger_PostEntry acts from amount ''withdrawal'' (''ldg-wdr-'' @ pid) narration))
        (cleanup ''ledger-wdr-'' ''ledger withdrawal entry failed: '')
     (saga_step (callPeer (ta_Account_Deposit acts to amount (''dep-'' @ pid) narration))
        (cleanup ''dep-'' ''deposit failed: '')
     (saga_step (callPeer (ta_Ledger_PostEntry acts to amount ''deposit'' (''ldg-dep-'' @ pid) narration))
        (cleanup ''ledger-dep-'' ''ledger deposit entry failed: '')
     (saga_step (AuthorizePaymentHandler_Handle pid (''auth-'' @ pid))
        (cleanup ''auth-'' ''authorize failed: '')
     (saga_step (SettlePaymentHandler_Handle pid (''settle-'' @ pid))
        (cleanup ''settle-'' ''settle failed: '')
      (returnE ())))))))"
| "saga_transfer acts _ = returnE ()"

definition handlePaymentInitiated :: "'p TransferActivities \<Rightarrow> json \<Rightarrow> (payment_db, 'p, unit) go" where
  "handlePaymentInitiated acts payload =
     bindE (liftE (PaymentInitiated_Unmarshal payload)) (\<lambda>ev. saga_transfer acts ev)"

definition handleLedgerRecorded :: "json \<Rightarrow> (payment_db, 'p, unit) go" where
  "handleLedgerRecorded payload = returnE ()"

definition handleAccountUpdated :: "json \<Rightarrow> (payment_db, 'p, unit) go" where
  "handleAccountUpdated payload = returnE ()"

definition ProcessEvent :: "'p TransferActivities \<Rightarrow> string \<Rightarrow> json \<Rightarrow> (payment_db, 'p, unit) go" where
  "ProcessEvent acts eventType payload =
     (if eventType = ''payment.initiated.v1'' then handlePaymentInitiated acts payload
      else if eventType = ''ledger.v1.TransactionRecorded'' then handleLedgerRecorded payload
      else if eventType = ''account.v1.BalanceUpdated'' then handleAccountUpdated payload
      else returnE ())"

text \<open>
  \<open>EventConsumer.Start\<close>: the subjects it subscribes to, and what happens to a message the broker
  has on a subject: the handler takes the subject for the event type and logs an error.
\<close>

definition consumer_subjects :: "string list" where
  "consumer_subjects = [''payment.initiated.v1'']"

definition EventConsumer_receive :: "'p TransferActivities \<Rightarrow> string \<Rightarrow> json \<Rightarrow> (payment_db, 'p, unit) go" where
  "EventConsumer_receive acts subject data =
     (if subject \<in> set consumer_subjects
      then bindE (tryE (ProcessEvent acts subject data)) (\<lambda>_. returnE ())
      else returnE ())"

section \<open>The bank behind the network\<close>

type_synonym 'q bank = "(account_db, (ledger_db, 'q) world) world"

text \<open>
  Every call of the payment service meets the next decision of the network: about the call itself
  and about the call of the ledger that the account service makes to serve it.
\<close>

record 'b net =
  bank :: 'b
  network :: "nat \<Rightarrow> transport \<times> transport"
  sent :: nat

definition net_call :: "(transport \<times> transport \<Rightarrow> 'b \<Rightarrow> (go_error + 'a) \<times> 'b) \<Rightarrow> 'b net \<Rightarrow> (go_error + 'a) \<times> 'b net" where
  "net_call f n = (case f (network n (sent n)) (bank n) of (r, b) \<Rightarrow> (r, n\<lparr>bank := b, sent := Suc (sent n)\<rparr>))"

definition transfer_clients :: "'q bank net TransferActivities" where
  "transfer_clients =
     \<lparr>ta_Ledger_PostEntry = (\<lambda>accountID amount entryType key narration. net_call (\<lambda>(t, _).
        callPeer (ledgerClient_PostEntry t Server_PostEntry accountID amount entryType key narration))),
      ta_Account_Deposit = (\<lambda>accountID amount key narration. net_call (\<lambda>(t, t').
        accountClient_Deposit t (AccountServer_Deposit (LedgerClient_PostEntry t' Server_PostEntry))
          accountID amount key narration)),
      ta_Account_Withdraw = (\<lambda>accountID amount key narration. net_call (\<lambda>(t, t').
        accountClient_Withdraw t (AccountServer_Withdraw (LedgerClient_PostEntry t' Server_PostEntry))
          accountID amount key narration))\<rparr>"

end
