(* ===== verification/TransferProps.thy ===== *)
theory TransferProps
  imports TransferFlow
begin

text \<open>
  The properties of a transfer across the three services: every posting it makes is booked at most
  once, whatever the network, the databases and the Temporal server do, and what a transfer that
  completes has moved; and that the saga moves nothing.
\<close>

section \<open>Postings under several keys\<close>

text \<open>
  The postings of a transfer as key, account and signed amount. \<open>posted\<close> says that between two
  states exactly the amounts of those postings were booked whose key is bound in the second.
\<close>

type_synonym leg = "string \<times> id \<times> int"

definition legs_sum :: "(string \<Rightarrow> bool) \<Rightarrow> id \<Rightarrow> leg list \<Rightarrow> int" where
  "legs_sum bound a legs = (\<Sum>(k, x, amt)\<leftarrow>legs. if bound k \<and> x = a then amt else 0)"

definition posted :: "('p \<Rightarrow> id \<Rightarrow> int) \<Rightarrow> ('p \<Rightarrow> string \<Rightarrow> id option) \<Rightarrow> leg list \<Rightarrow> 'p \<Rightarrow> 'p \<Rightarrow> bool" where
  "posted bal keys legs p0 p \<longleftrightarrow>
     (\<forall>a. bal p a = bal p0 a + legs_sum (\<lambda>k. keys p k \<noteq> None) a legs) \<and>
     (\<forall>k. k \<notin> fst ` set legs \<longrightarrow> keys p k = keys p0 k)"

lemma legs_sum_unbound: "\<forall>k\<in>fst ` set legs. \<not> bound k \<Longrightarrow> legs_sum bound a legs = 0"
  by (induction legs) (auto simp: legs_sum_def)

lemma legs_sum_cong:
  "(\<And>k. k \<in> fst ` set legs \<Longrightarrow> bound k = bound' k) \<Longrightarrow> legs_sum bound a legs = legs_sum bound' a legs"
  by (induction legs) (auto simp: legs_sum_def)

lemma legs_sum_bind:
  "distinct (map fst legs) \<Longrightarrow> (k, x, amt) \<in> set legs \<Longrightarrow> \<not> bound k \<Longrightarrow>
     legs_sum (\<lambda>k'. k' = k \<or> bound k') a legs = legs_sum bound a legs + (if x = a then amt else 0)"
proof (induction legs)
  case (Cons l legs)
  obtain k' x' amt' where l: "l = (k', x', amt')" by (cases l)
  show ?case
  proof (cases "k' = k")
    case True
    then have "(x', amt') = (x, amt)" and k: "k \<notin> fst ` set legs"
      using Cons.prems(1,2) l by (auto simp: image_iff)
    moreover have "legs_sum (\<lambda>k'. k' = k \<or> bound k') a legs = legs_sum bound a legs"
      by (rule legs_sum_cong) (use k in auto)
    ultimately show ?thesis using True l Cons.prems(3) by (simp add: legs_sum_def)
  next
    case False
    then have "(k, x, amt) \<in> set legs" using Cons.prems(2) l by simp
    then have "legs_sum (\<lambda>k'. k' = k \<or> bound k') a legs = legs_sum bound a legs + (if x = a then amt else 0)"
      using Cons by simp
    then show ?thesis using False l by (simp add: legs_sum_def)
  qed
qed simp

lemma posted_start: "\<forall>k\<in>fst ` set legs. keys p k = None \<Longrightarrow> posted bal keys legs p p"
  by (simp add: posted_def legs_sum_unbound)

lemma posted_step:
  assumes "distinct (map fst legs)" and leg: "(k, x, amt) \<in> set legs"
    and "posted bal keys legs p0 p" and "books bal keys k x amt p p'"
  shows "posted bal keys legs p0 p'"
proof (cases "bal p' = bal p \<and> keys p' = keys p")
  case True
  then show ?thesis using assms(3) by (simp add: posted_def)
next
  case False
  then obtain i where k: "keys p k = None" "keys p' = (keys p)(k \<mapsto> i)" "bal p' = (bal p)(x := bal p x + amt)"
    using assms(4) by (auto simp: books_def)
  have "legs_sum (\<lambda>k'. keys p' k' \<noteq> None) a legs = legs_sum (\<lambda>k'. k' = k \<or> keys p k' \<noteq> None) a legs" for a
    by (rule legs_sum_cong) (simp add: k(2))
  then have "bal p' a = bal p0 a + legs_sum (\<lambda>k'. keys p' k' \<noteq> None) a legs" for a
    using legs_sum_bind [OF assms(1) leg, of "\<lambda>k'. keys p k' \<noteq> None" a] assms(3) k by (simp add: posted_def)
  moreover have "k \<in> fst ` set legs" using leg by force
  ultimately show ?thesis using assms(3) k(2) by (auto simp: posted_def)
qed

lemma books_other: "books bal keys k a amt p p' \<Longrightarrow> k' \<noteq> k \<Longrightarrow> keys p' k' = keys p k'"
  by (auto simp: books_def)

lemma books_bound: "books bal keys k a amt p p' \<Longrightarrow> keys p k' \<noteq> None \<Longrightarrow> keys p' k' \<noteq> None"
  by (auto simp: books_def)

section \<open>The postings of a transfer\<close>

definition transfer_legs :: "TransferWorkflowInput \<Rightarrow> leg list" where
  "transfer_legs inp =
     (let i = tw_PaymentID inp; amt = sint (tw_AmountKobo inp) in
      [(''wdr-'' @ i, tw_FromAccountID inp, - amt), (''ldg-wdr-'' @ i, tw_FromAccountID inp, - amt),
       (''dep-'' @ i, tw_ToAccountID inp, amt), (''ldg-dep-'' @ i, tw_ToAccountID inp, amt),
       (''refund-'' @ i, tw_FromAccountID inp, amt)])"

lemma transfer_keys_distinct: "distinct (map fst (transfer_legs inp))"
  by (simp add: transfer_legs_def Let_def)

lemma registered [simp]:
  "RegisterTransferWorker acts ''Withdraw'' = Some (Activity_Withdraw acts)"
  "RegisterTransferWorker acts ''LedgerPostWithdraw'' = Some (Activity_LedgerPostWithdraw acts)"
  "RegisterTransferWorker acts ''Deposit'' = Some (Activity_Deposit acts)"
  "RegisterTransferWorker acts ''LedgerPostDeposit'' = Some (Activity_LedgerPostDeposit acts)"
  "RegisterTransferWorker acts ''Refund'' = Some (Activity_Refund acts)"
  "RegisterTransferWorker acts ''AuthorizePayment'' = Some Activity_AuthorizePayment"
  "RegisterTransferWorker acts ''SettlePayment'' = Some Activity_SettlePayment"
  by (simp_all add: RegisterTransferWorker_def)

section \<open>Activities under the Temporal server\<close>

lemma attempts_invariant:
  assumes "\<And>w. I w \<Longrightarrow> I (snd (m w))"
  shows "I w \<Longrightarrow> attempts m n w = (rs, w') \<Longrightarrow>
     I w' \<and> (rs \<noteq> [] \<and> last rs = Inr x \<longrightarrow> (\<exists>u. I u \<and> m u = (Inr x, w')))"
proof (induction n arbitrary: w rs)
  case (Suc n)
  obtain r v rs1 where r: "m w = (r, v)" and rs: "attempts m n v = (rs1, w')" "rs = r # rs1"
    using Suc.prems(2) by (auto simp: Let_def split: prod.splits)
  have v: "I v" using assms [OF Suc.prems(1)] r by simp
  show ?case
  proof (cases n)
    case 0
    then show ?thesis using rs v r Suc.prems(1) by auto
  next
    case (Suc k)
    then have "rs1 \<noteq> []" using rs(1) by (auto simp: Let_def split: prod.splits)
    then show ?thesis using Suc.IH [OF v rs(1)] rs(2) by simp
  qed
qed simp

lemma engine_invariant:
  assumes "temporal_engine engine" and "\<forall>w. I w \<longrightarrow> I (snd (m w))" and "I w" and "engine m w = (r, w')"
  shows "I w'" and "r = Inr () \<Longrightarrow> \<exists>u. I u \<and> m u = (Inr (), w')"
proof -
  obtain n rs where "attempts m n w = (rs, w')" and "r = Inr () \<longrightarrow> rs \<noteq> [] \<and> last rs = Inr ()"
    using assms(1,4) unfolding temporal_engine_def by (metis fst_conv snd_conv)
  then show "I w'" and "r = Inr () \<Longrightarrow> \<exists>u. I u \<and> m u = (Inr (), w')"
    using attempts_invariant [of I m w n rs w' "()"] assms(2,3) by auto
qed

section \<open>The contract of the clients\<close>

text \<open>
  An operation that posts under one key: it leaves the database alone, keeps the other service
  valid, books at most once, and leaves the key bound when it succeeds.
\<close>

definition posting_op ::
    "('p \<Rightarrow> id \<Rightarrow> int) \<Rightarrow> ('p \<Rightarrow> string \<Rightarrow> id option) \<Rightarrow> ('p \<Rightarrow> bool) \<Rightarrow> leg \<Rightarrow> ('d, 'p, unit) go \<Rightarrow> bool" where
  "posting_op bal keys valid leg m \<longleftrightarrow> (\<forall>w r w'. valid (peer w) \<longrightarrow> m w = (r, w') \<longrightarrow>
     valid (peer w') \<and> db w' = db w \<and>
     books bal keys (fst leg) (fst (snd leg)) (snd (snd leg)) (peer w) (peer w') \<and>
     (r = Inr () \<longrightarrow> keys (peer w') (fst leg) \<noteq> None))"

text \<open>An operation on the payment alone.\<close>

definition payment_op :: "(payment_db, 'p, unit) go \<Rightarrow> bool" where
  "payment_op m \<longleftrightarrow> (\<forall>w r w'. payment_inv (db w) \<longrightarrow> m w = (r, w') \<longrightarrow> payment_inv (db w') \<and> peer w' = peer w)"

lemma posting_opI:
  fixes f :: "Money \<Rightarrow> 'p \<Rightarrow> (go_error + 'a) \<times> 'p"
  assumes "\<And>amt p r p'. valid p \<Longrightarrow> amountKobo amt = amtKobo \<Longrightarrow> f amt p = (r, p') \<Longrightarrow>
     valid p' \<and> books bal keys k x d p p' \<and> (\<forall>i. r = Inr i \<longrightarrow> keys p' k \<noteq> None)"
  shows "posting_op bal keys valid (k, x, d)
     (bindE (liftE (Money_New amtKobo cur)) (\<lambda>amt. bindE (callPeer (f amt)) (\<lambda>_. returnE ())))"
  unfolding posting_op_def
proof (intro allI impI)
  fix w w' :: "('d, 'p) world" and r
  let ?m = "bindE (liftE (Money_New amtKobo cur)) (\<lambda>amt. bindE (callPeer (f amt)) (\<lambda>_. returnE ()))"
  assume v: "valid (peer w)" and run: "?m w = (r, w')"
  show "valid (peer w') \<and> db w' = db w \<and>
     books bal keys (fst (k, x, d)) (fst (snd (k, x, d))) (snd (snd (k, x, d))) (peer w) (peer w') \<and>
     (r = Inr () \<longrightarrow> keys (peer w') (fst (k, x, d)) \<noteq> None)"
  proof (cases "cur = ''''")
    case True
    then show ?thesis using run v by (auto simp: bindE_def liftE_def Money_New_def)
  next
    case False
    let ?amt = "\<lparr>amountKobo = amtKobo, currency = cur\<rparr>"
    obtain q p where q: "f ?amt (peer w) = (q, p)" by fastforce
    have "valid p \<and> books bal keys k x d (peer w) p \<and> (\<forall>i. q = Inr i \<longrightarrow> keys p k \<noteq> None)"
      by (rule assms [OF v _ q]) simp
    then show ?thesis
      using run q False
      by (cases q) (auto simp: bindE_def liftE_def Money_New_def callPeer_def returnE_def)
  qed
qed

locale transfer_port =
  fixes acts :: "'p TransferActivities"
    and bal :: "'p \<Rightarrow> id \<Rightarrow> int" and keys :: "'p \<Rightarrow> string \<Rightarrow> id option" and valid :: "'p \<Rightarrow> bool"
  assumes account_deposit: "valid p \<Longrightarrow> ta_Account_Deposit acts a m k nar p = (r, p') \<Longrightarrow>
      valid p' \<and> books bal keys k a (sint (amountKobo m)) p p' \<and> (\<forall>i. r = Inr i \<longrightarrow> keys p' k \<noteq> None)"
    and account_withdraw: "valid p \<Longrightarrow> ta_Account_Withdraw acts a m k nar p = (r, p') \<Longrightarrow>
      valid p' \<and> books bal keys k a (- sint (amountKobo m)) p p' \<and> (\<forall>i. r = Inr i \<longrightarrow> keys p' k \<noteq> None)"
    and ledger_deposit: "valid p \<Longrightarrow> ta_Ledger_PostEntry acts a m ''deposit'' k nar p = (r, p') \<Longrightarrow>
      valid p' \<and> books bal keys k a (sint (amountKobo m)) p p' \<and> (\<forall>i. r = Inr i \<longrightarrow> keys p' k \<noteq> None)"
    and ledger_withdrawal: "valid p \<Longrightarrow> ta_Ledger_PostEntry acts a m ''withdrawal'' k nar p = (r, p') \<Longrightarrow>
      valid p' \<and> books bal keys k a (- sint (amountKobo m)) p p' \<and> (\<forall>i. r = Inr i \<longrightarrow> keys p' k \<noteq> None)"
begin

lemma activities_post:
  "posting_op bal keys valid (''wdr-'' @ tw_PaymentID inp, tw_FromAccountID inp, - sint (tw_AmountKobo inp))
     (Activity_Withdraw acts inp)"
  "posting_op bal keys valid (''ldg-wdr-'' @ tw_PaymentID inp, tw_FromAccountID inp, - sint (tw_AmountKobo inp))
     (Activity_LedgerPostWithdraw acts inp)"
  "posting_op bal keys valid (''dep-'' @ tw_PaymentID inp, tw_ToAccountID inp, sint (tw_AmountKobo inp))
     (Activity_Deposit acts inp)"
  "posting_op bal keys valid (''ldg-dep-'' @ tw_PaymentID inp, tw_ToAccountID inp, sint (tw_AmountKobo inp))
     (Activity_LedgerPostDeposit acts inp)"
  "posting_op bal keys valid (''refund-'' @ tw_PaymentID inp, tw_FromAccountID inp, sint (tw_AmountKobo inp))
     (Activity_Refund acts inp)"
  by (simp_all only: Activity_Withdraw_def Activity_LedgerPostWithdraw_def Activity_Deposit_def
        Activity_LedgerPostDeposit_def Activity_Refund_def)
     (rule posting_opI, use account_deposit account_withdraw ledger_deposit ledger_withdrawal in metis)+

end

lemma lifecycle_payment_op:
  fixes m :: "(payment_db, 'p, unit) go"
  assumes "lifecycle_op operation" and "\<And>p. seq_mono (operation p)" and "\<And>p. local_op (operation p)"
    and "\<And>w r w'. m w = (r, w') \<Longrightarrow> db w' = db w \<and> peer w' = peer w \<or>
      (\<exists>q. withTx rollback (lifecycle_tx operation expected a) w = (q, w'))"
  shows "payment_op m"
  unfolding payment_op_def
proof (intro allI impI)
  fix w w' :: "(payment_db, 'p) world" and r
  assume inv: "payment_inv (db w)" and run: "m w = (r, w')"
  from assms(4) [OF run] show "payment_inv (db w') \<and> peer w' = peer w"
  proof (elim disjE exE)
    fix q assume tx: "withTx rollback (lifecycle_tx operation expected a) w = (q, w')"
    have loc: "local_op (lifecycle_tx operation expected a)" by (rule local_lifecycle) (rule assms(3))
    show ?thesis
      using lifecycle_handler [OF inv assms(1,2) tx] local_opD [OF local_withTx [OF loc] tx] by simp
  qed (use inv in simp)
qed

lemma lifecycle_activities:
  "payment_op (Activity_AuthorizePayment inp)" "payment_op (Activity_SettlePayment inp)"
  "payment_op (Activity_FailPayment i reason)"
proof -
  have drop: "\<exists>q. m w = (q, w')" if "bindE m (\<lambda>_. returnE ()) w = (r, w')"
    for m :: "(payment_db, 'p, id \<times> int \<times> PaymentStatus) go" and w r w'
    using that by (auto simp: bindE_def returnE_def split: prod.splits sum.splits)
  show "payment_op (Activity_AuthorizePayment inp)"
    by (rule lifecycle_payment_op [OF lifecycle_ops(1) seq_mono_payment(9) local_payment(9)])
       (auto simp: Activity_AuthorizePayment_def AuthorizePaymentHandler_Handle_def throwE_def dest!: drop
         split: if_splits)
  show "payment_op (Activity_SettlePayment inp)"
    by (rule lifecycle_payment_op [OF lifecycle_ops(2) seq_mono_payment(10) local_payment(10)])
       (auto simp: Activity_SettlePayment_def SettlePaymentHandler_Handle_def throwE_def dest!: drop
         split: if_splits)
  show "payment_op (Activity_FailPayment i reason)"
    by (rule lifecycle_payment_op [OF lifecycle_ops(3) seq_mono_payment(11) local_payment(11)])
       (auto simp: Activity_FailPayment_def FailPaymentHandler_Handle_def throwE_def dest!: drop
         split: if_splits)
qed

text \<open>A settlement that succeeds leaves the payment settled.\<close>

lemma settle_success:
  assumes "payment_inv (db w)" and "Activity_SettlePayment inp w = (Inr (), w')"
  shows "py_status (payment_replay (stream (db w') (tw_PaymentID inp))) = StatusSettled"
proof -
  obtain x where "withTx rollback (lifecycle_tx Payment_Settle is_PaymentSettled (tw_PaymentID inp)) w = (Inr x, w')"
    using assms(2) by (auto simp: Activity_SettlePayment_def SettlePaymentHandler_Handle_def bindE_inv returnE_inv
        throwE_inv split: if_splits)
  from lifecycle_handler [OF assms(1) lifecycle_ops(2) seq_mono_payment(10) this]
  obtain ev where "is_PaymentSettled ev"
      "payment_decoded (stream (db w') (tw_PaymentID inp)) = payment_decoded (stream (db w) (tw_PaymentID inp)) @ [ev]"
    by auto
  then show ?thesis by (cases ev) (simp_all add: payment_replay_def)
qed

section \<open>The run of a transfer\<close>

definition transfer_state ::
    "('p \<Rightarrow> id \<Rightarrow> int) \<Rightarrow> ('p \<Rightarrow> string \<Rightarrow> id option) \<Rightarrow> ('p \<Rightarrow> bool) \<Rightarrow> TransferWorkflowInput \<Rightarrow> 'p \<Rightarrow>
     (payment_db, 'p) world \<Rightarrow> bool" where
  "transfer_state bal keys valid inp p0 w \<longleftrightarrow>
     valid (peer w) \<and> payment_inv (db w) \<and> posted bal keys (transfer_legs inp) p0 (peer w)"

text \<open>On the way to success: the keys that are bound by now, and no refund.\<close>

definition transfer_progress ::
    "('p \<Rightarrow> id \<Rightarrow> int) \<Rightarrow> ('p \<Rightarrow> string \<Rightarrow> id option) \<Rightarrow> ('p \<Rightarrow> bool) \<Rightarrow> TransferWorkflowInput \<Rightarrow> 'p \<Rightarrow>
     string set \<Rightarrow> (payment_db, 'p) world \<Rightarrow> bool" where
  "transfer_progress bal keys valid inp p0 S w \<longleftrightarrow> transfer_state bal keys valid inp p0 w \<and>
     (\<forall>k\<in>S. keys (peer w) k \<noteq> None) \<and> keys (peer w) (''refund-'' @ tw_PaymentID inp) = None"

lemma posting_state:
  assumes "posting_op bal keys valid leg m" and "leg \<in> set (transfer_legs inp)"
    and "transfer_state bal keys valid inp p0 w"
  shows "transfer_state bal keys valid inp p0 (snd (m w))"
proof -
  obtain r w' where run: "m w = (r, w')" by fastforce
  then have "valid (peer w')" "db w' = db w" "books bal keys (fst leg) (fst (snd leg)) (snd (snd leg)) (peer w) (peer w')"
    using assms(1,3) unfolding posting_op_def transfer_state_def by blast+
  then show ?thesis
    using assms(2,3) posted_step [OF transfer_keys_distinct, of "fst leg" "fst (snd leg)" "snd (snd leg)" inp bal keys
        p0 "peer w" "peer w'"]
    by (simp add: transfer_state_def run)
qed

lemma posting_progress:
  assumes "posting_op bal keys valid leg m" and "leg \<in> set (transfer_legs inp)"
    and "fst leg \<noteq> ''refund-'' @ tw_PaymentID inp" and "transfer_progress bal keys valid inp p0 S w"
  shows "transfer_progress bal keys valid inp p0 S (snd (m w))"
proof -
  obtain r w' where run: "m w = (r, w')" by fastforce
  then have "books bal keys (fst leg) (fst (snd leg)) (snd (snd leg)) (peer w) (peer w')"
    using assms(1,4) unfolding posting_op_def transfer_progress_def transfer_state_def by blast
  then show ?thesis
    using assms(3,4) posting_state [OF assms(1,2), of p0 w] books_bound [of bal keys] books_other [of bal keys]
    by (simp add: transfer_progress_def run)
qed

lemma payment_op_progress:
  assumes "payment_op m"
  shows "transfer_state bal keys valid inp p0 w \<Longrightarrow> transfer_state bal keys valid inp p0 (snd (m w))"
    and "transfer_progress bal keys valid inp p0 S w \<Longrightarrow> transfer_progress bal keys valid inp p0 S (snd (m w))"
  using assms unfolding payment_op_def transfer_progress_def transfer_state_def by (metis prod.collapse)+

lemma engine_posting:
  assumes "temporal_engine engine" and "posting_op bal keys valid leg m" and "leg \<in> set (transfer_legs inp)"
    and "fst leg \<noteq> ''refund-'' @ tw_PaymentID inp" and "transfer_progress bal keys valid inp p0 S w"
    and "engine m w = (r, w')"
  shows "transfer_state bal keys valid inp p0 w' \<and>
     (r = Inr () \<longrightarrow> transfer_progress bal keys valid inp p0 (insert (fst leg) S) w')"
proof -
  have "\<forall>v. transfer_progress bal keys valid inp p0 S v \<longrightarrow> transfer_progress bal keys valid inp p0 S (snd (m v))"
    using posting_progress [OF assms(2-4)] by blast
  note inv = engine_invariant [OF assms(1) this assms(5,6)]
  have "transfer_progress bal keys valid inp p0 (insert (fst leg) S) w'" if ok: "r = Inr ()"
  proof -
    obtain u where "transfer_progress bal keys valid inp p0 S u" "m u = (Inr (), w')" using inv(2) [OF ok] by blast
    then have "keys (peer w') (fst leg) \<noteq> None"
      using assms(2) unfolding posting_op_def transfer_progress_def transfer_state_def by blast
    then show ?thesis using inv(1) by (simp add: transfer_progress_def)
  qed
  then show ?thesis using inv(1) by (auto simp: transfer_progress_def)
qed

lemma engine_payment:
  assumes "temporal_engine engine" and "payment_op m" and "engine m w = (r, w')"
  shows "transfer_state bal keys valid inp p0 w \<Longrightarrow> transfer_state bal keys valid inp p0 w'"
    and "transfer_progress bal keys valid inp p0 S w \<Longrightarrow> transfer_progress bal keys valid inp p0 S w'"
  using engine_invariant(1) [OF assms(1) _ _ assms(3), of "transfer_state bal keys valid inp p0"]
    engine_invariant(1) [OF assms(1) _ _ assms(3), of "transfer_progress bal keys valid inp p0 S"]
    payment_op_progress [OF assms(2)] by simp_all

context transfer_port
begin

lemma compensate_state:
  assumes "temporal_engine engine" and "transfer_state bal keys valid inp p0 w"
    and "transfer_compensate engine acts inp stage err w = (r, w')"
  shows "r = Inl err \<and> transfer_state bal keys valid inp p0 w'"
proof -
  obtain q v where q: "engine (Activity_Refund acts inp) w = (q, v)" by fastforce
  obtain q' v' where q': "engine (Activity_FailPayment (tw_PaymentID inp) (stage @ Error_text err)) v = (q', v')"
    by fastforce
  have keep: "\<forall>u. transfer_state bal keys valid inp p0 u \<longrightarrow>
      transfer_state bal keys valid inp p0 (snd (Activity_Refund acts inp u))"
    using posting_state [OF activities_post(5)] by (simp add: transfer_legs_def Let_def)
  have "transfer_state bal keys valid inp p0 v" by (rule engine_invariant(1) [OF assms(1) keep assms(2) q])
  then have "transfer_state bal keys valid inp p0 v'"
    by (rule engine_payment(1) [OF assms(1) lifecycle_activities(3) q'])
  moreover have "(r, w') = (Inl err, v')"
    using assms(3) q q' by (simp add: transfer_compensate_def ExecuteActivity_def bindE_def tryE_def throwE_def)
  ultimately show ?thesis by simp
qed

text \<open>One step: what its activity guarantees carries over to the rest of the steps.\<close>

lemma step_state:
  assumes "temporal_engine engine"
    and step: "\<And>q v. ExecuteActivity engine acts name inp w = (q, v) \<Longrightarrow>
      transfer_state bal keys valid inp p0 v \<and> (q = Inr () \<longrightarrow> P v)"
    and rest: "\<And>v q u. P v \<Longrightarrow> transfer_steps engine acts inp steps v = (q, u) \<Longrightarrow>
      transfer_state bal keys valid inp p0 u \<and> (q = Inr () \<longrightarrow> Q u)"
    and run: "transfer_steps engine acts inp ((name, stage) # steps) w = (r, w')"
  shows "transfer_state bal keys valid inp p0 w' \<and> (r = Inr () \<longrightarrow> Q w')"
proof -
  obtain q v where q: "ExecuteActivity engine acts name inp w = (q, v)" by fastforce
  show ?thesis
  proof (cases q)
    case (Inl err)
    then have "transfer_compensate engine acts inp stage err v = (r, w')"
      using run q by (simp add: bindE_def tryE_def)
    then show ?thesis using compensate_state [OF assms(1)] step [OF q] by fastforce
  next
    case (Inr u)
    then have "transfer_steps engine acts inp steps v = (r, w')" using run q by (simp add: bindE_def tryE_def)
    then show ?thesis using rest step [OF q] Inr by auto
  qed
qed

text \<open>The last two steps touch the payment only; the one before them posts.\<close>

lemma final_steps:
  assumes "temporal_engine engine" and "transfer_progress bal keys valid inp p0 S w"
    and "transfer_steps engine acts inp [(''AuthorizePayment'', a), (''SettlePayment'', b)] w = (r, w')"
  shows "transfer_state bal keys valid inp p0 w' \<and> (r = Inr () \<longrightarrow> transfer_progress bal keys valid inp p0 S w' \<and>
     py_status (payment_replay (stream (db w') (tw_PaymentID inp))) = StatusSettled)"
proof (rule step_state [OF assms(1) _ _ assms(3), where P = "transfer_progress bal keys valid inp p0 S"])
  fix q v assume "ExecuteActivity engine acts ''AuthorizePayment'' inp w = (q, v)"
  then have "engine (Activity_AuthorizePayment inp) w = (q, v)" by (simp add: ExecuteActivity_def)
  from engine_payment(2) [OF assms(1) lifecycle_activities(1) this assms(2)]
  show "transfer_state bal keys valid inp p0 v \<and> (q = Inr () \<longrightarrow> transfer_progress bal keys valid inp p0 S v)"
    by (simp add: transfer_progress_def)
next
  fix v q u
  assume v: "transfer_progress bal keys valid inp p0 S v"
    and run: "transfer_steps engine acts inp [(''SettlePayment'', b)] v = (q, u)"
  let ?Q = "\<lambda>u. transfer_progress bal keys valid inp p0 S u \<and>
    py_status (payment_replay (stream (db u) (tw_PaymentID inp))) = StatusSettled"
  show "transfer_state bal keys valid inp p0 u \<and> (q = Inr () \<longrightarrow> ?Q u)"
  proof (rule step_state [OF assms(1) _ _ run, where P = ?Q])
    fix q v' assume "ExecuteActivity engine acts ''SettlePayment'' inp v = (q, v')"
    then have e: "engine (Activity_SettlePayment inp) v = (q, v')" by (simp add: ExecuteActivity_def)
    have "\<forall>u. transfer_progress bal keys valid inp p0 S u \<longrightarrow>
        transfer_progress bal keys valid inp p0 S (snd (Activity_SettlePayment inp u))"
      by (intro allI impI) (rule payment_op_progress(2) [OF lifecycle_activities(2)])
    note inv = engine_invariant [OF assms(1) this v e]
    then show "transfer_state bal keys valid inp p0 v' \<and> (q = Inr () \<longrightarrow> ?Q v')"
      using settle_success by (fastforce simp: transfer_progress_def transfer_state_def)
  qed (auto simp: returnE_def transfer_progress_def)
qed

lemma posting_step:
  assumes "temporal_engine engine" and "transfer_progress bal keys valid inp p0 S w"
    and "RegisterTransferWorker acts name = Some f" and "posting_op bal keys valid leg (f inp)"
    and "leg \<in> set (transfer_legs inp)" and "fst leg \<noteq> ''refund-'' @ tw_PaymentID inp"
    and rest: "\<And>v q u. transfer_progress bal keys valid inp p0 (insert (fst leg) S) v \<Longrightarrow>
      transfer_steps engine acts inp steps v = (q, u) \<Longrightarrow>
      transfer_state bal keys valid inp p0 u \<and> (q = Inr () \<longrightarrow> Q u)"
    and run: "transfer_steps engine acts inp ((name, stage) # steps) w = (r, w')"
  shows "transfer_state bal keys valid inp p0 w' \<and> (r = Inr () \<longrightarrow> Q w')"
proof (rule step_state [OF assms(1) _ rest run])
  fix q v assume "ExecuteActivity engine acts name inp w = (q, v)"
  then have "engine (f inp) w = (q, v)" using assms(3) by (simp add: ExecuteActivity_def)
  then show "transfer_state bal keys valid inp p0 v \<and>
      (q = Inr () \<longrightarrow> transfer_progress bal keys valid inp p0 (insert (fst leg) S) v)"
    by (rule engine_posting [OF assms(1,4-6,2)])
qed

lemma workflow_steps:
  assumes "temporal_engine engine" and "transfer_progress bal keys valid inp p0 {''wdr-'' @ tw_PaymentID inp} w"
    and run: "transfer_steps engine acts inp
       [(''LedgerPostWithdraw'', a), (''Deposit'', b), (''LedgerPostDeposit'', c), (''AuthorizePayment'', d),
        (''SettlePayment'', e)] w = (r, w')"
  shows "transfer_state bal keys valid inp p0 w' \<and> (r = Inr () \<longrightarrow>
     transfer_progress bal keys valid inp p0 (fst ` set (take 4 (transfer_legs inp))) w' \<and>
     py_status (payment_replay (stream (db w') (tw_PaymentID inp))) = StatusSettled)"
proof (rule posting_step [OF assms(1,2) registered(2) activities_post(2) _ _ _ run], goal_cases)
  case (3 v1 q1 u1)
  show ?case
  proof (rule posting_step [OF assms(1) 3(1) registered(3) activities_post(3) _ _ _ 3(2)], goal_cases)
    case (3 v2 q2 u2)
    show ?case
    proof (rule posting_step [OF assms(1) 3(1) registered(4) activities_post(4) _ _ _ 3(2)], goal_cases)
      case (3 v3 q3 u3)
      have "fst ` set (take 4 (transfer_legs inp)) = {''ldg-dep-'' @ tw_PaymentID inp, ''dep-'' @ tw_PaymentID inp,
          ''ldg-wdr-'' @ tw_PaymentID inp, ''wdr-'' @ tw_PaymentID inp}"
        by (auto simp: transfer_legs_def Let_def)
      then show ?case using final_steps [OF assms(1) 3] by simp
    qed (simp_all add: transfer_legs_def Let_def)
  qed (simp_all add: transfer_legs_def Let_def)
qed (simp_all add: transfer_legs_def Let_def)

lemma workflow_effect:
  assumes "temporal_engine engine" and "valid (peer w)" and "payment_inv (db w)"
    and fresh: "\<forall>k\<in>fst ` set (transfer_legs inp). keys (peer w) k = None"
    and run: "TransferWorkflow engine acts inp w = (r, w')"
  shows "transfer_state bal keys valid inp (peer w) w' \<and> (r = Inr () \<longrightarrow>
     transfer_progress bal keys valid inp (peer w) (fst ` set (take 4 (transfer_legs inp))) w' \<and>
     py_status (payment_replay (stream (db w') (tw_PaymentID inp))) = StatusSettled)"
proof -
  have "transfer_progress bal keys valid inp (peer w) {} w"
    using assms(2,3) fresh posted_start [of "transfer_legs inp" keys "peer w" bal]
    by (simp add: transfer_progress_def transfer_state_def transfer_legs_def Let_def)
  moreover obtain q v where q: "engine (Activity_Withdraw acts inp) w = (q, v)" by fastforce
  ultimately have first: "transfer_state bal keys valid inp (peer w) v \<and>
      (q = Inr () \<longrightarrow> transfer_progress bal keys valid inp (peer w) {''wdr-'' @ tw_PaymentID inp} v)"
    using engine_posting [OF assms(1) activities_post(1)] by (simp add: transfer_legs_def Let_def)
  show ?thesis
  proof (cases q)
    case (Inl err)
    obtain q' v' where q': "engine (Activity_FailPayment (tw_PaymentID inp) (''withdrawal failed: '' @ Error_text err)) v
        = (q', v')" by fastforce
    then have "transfer_state bal keys valid inp (peer w) v'"
      using engine_payment(1) [OF assms(1) lifecycle_activities(3)] first by blast
    then show ?thesis
      using run q q' Inl by (auto simp: TransferWorkflow_def ExecuteActivity_def bindE_def tryE_def throwE_def)
  next
    case (Inr u)
    then have "transfer_progress bal keys valid inp (peer w) {''wdr-'' @ tw_PaymentID inp} v" using first by simp
    note steps = workflow_steps [OF assms(1) this]
    show ?thesis
      by (rule steps) (use run q Inr in \<open>simp add: TransferWorkflow_def ExecuteActivity_def bindE_def tryE_def
        del: transfer_steps.simps\<close>)
  qed
qed

end

section \<open>The clients over the two services provide it\<close>

lemma account_call_effect:
  assumes inv: "bank_inv b" and mk: "\<And>i m e t x. Account_apply (mk i m e t) x = x"
    and run: "wrap_error msg (rpc t (bindE (liftE (Money_New (amountKobo m) (currency m))) (\<lambda>amt.
        bindE (money_handle (LedgerClient_PostEntry t' Server_PostEntry) etype mk
          \<lparr>mc_AccountID = a, mc_Amount = amt, mc_IdempotencyKey = k, mc_Narration = nar\<rparr>) (\<lambda>res.
        returnE (snd res)))) b) = (r, b')"
  shows "bank_inv b' \<and> books (\<lambda>b. balance (db (peer b)) 1) (\<lambda>b. ledger_idempotency (db (peer b))) k a
      (ledger_amount etype m) b b' \<and> (\<forall>i. r = Inr i \<longrightarrow> ledger_idempotency (db (peer b')) k \<noteq> None)"
proof -
  let ?cmd = "\<lparr>mc_AccountID = a, mc_Amount = m, mc_IdempotencyKey = k, mc_Narration = nar\<rparr>"
  obtain q v where q: "money_handle (LedgerClient_PostEntry t' Server_PostEntry) etype mk ?cmd b = (q, v)" by fastforce
  have eta: "\<lparr>amountKobo = amountKobo m, currency = currency m\<rparr> = m" by simp
  have "b' = b \<and> (\<exists>e. r = Inl e) \<or> b' = v \<and> (\<forall>i. r = Inr i \<longrightarrow> (\<exists>x. q = Inr (x, i)))"
    using run q
    by (cases t; cases "currency m = ''''"; cases q)
       (auto simp: wrap_error_def bindE_def liftE_def Money_New_def returnE_def eta)
  moreover have "bank_inv v \<and> books (\<lambda>b. balance (db b) 1) (\<lambda>b. ledger_idempotency (db b)) k a
      (ledger_amount etype m) (peer b) (peer v) \<and> (\<forall>x i. q = Inr (x, i) \<longrightarrow> ledger_idempotency (db (peer v)) k = Some i)"
    using remote.handle_effect [OF _ _ q mk] inv by (simp add: bank_inv_def)
  ultimately show ?thesis using inv by (fastforce simp: books_def)
qed

lemma ledger_call_effect:
  assumes inv: "bank_inv b" and "etype = ''deposit'' \<or> etype = ''withdrawal''"
    and run: "callPeer (ledgerClient_PostEntry t Server_PostEntry a m etype k nar) b = (r, b')"
  shows "bank_inv b' \<and> books (\<lambda>b. balance (db (peer b)) 1) (\<lambda>b. ledger_idempotency (db (peer b))) k a
      (if etype = ''deposit'' then sint (amountKobo m) else - sint (amountKobo m)) b b' \<and>
      (\<forall>i. r = Inr i \<longrightarrow> ledger_idempotency (db (peer b')) k \<noteq> None)"
proof -
  let ?et = "if etype = ''deposit'' then LedgerEntryTypeDeposit else LedgerEntryTypeWithdrawal"
  obtain q p where q: "LedgerClient_PostEntry t Server_PostEntry k a ?et m nar (peer b) = (q, p)" by fastforce
  have "ledgerClient_PostEntry t Server_PostEntry a m etype k nar (peer b) = wrap_error ''ledger post entry'' (q, p)"
    using assms(2) q
    by (auto simp: ledgerClient_PostEntry_def LedgerClient_PostEntry_def LedgerEntryTypeDeposit_def
        LedgerEntryTypeWithdrawal_def)
  then have "b' = b\<lparr>peer := p\<rparr>" "\<forall>i. r = Inr i \<longrightarrow> q = Inr i"
    using run by (auto simp: callPeer_def wrap_error_def split: sum.splits)
  moreover have l: "ledger_inv (db (peer b))" using inv by (simp add: bank_inv_def)
  moreover have "ledger_idempotency (db p) k = Some i" if "q = Inr i" for i
    by (rule remote.port_key [OF l]) (use q that in simp)
  ultimately show ?thesis
    using inv assms(2) remote.port_valid [OF l q] remote.port_effect [OF l q] by (auto simp: bank_inv_def books_def)
qed

lemma net_call_eq:
  "net_call f p = (r, p') \<Longrightarrow> f (network p (sent p)) (bank p) = (r, bank p')"
  by (auto simp: net_call_def split: prod.splits)

interpretation clients: transfer_port transfer_clients "\<lambda>n. balance (db (peer (bank n))) 1"
  "\<lambda>n. ledger_idempotency (db (peer (bank n)))" "\<lambda>n. bank_inv (bank n)"
proof (unfold_locales, goal_cases)
  case (1 p a m k nar r p')
  obtain t t' where "network p (sent p) = (t, t')" by fastforce
  then have "accountClient_Deposit t (AccountServer_Deposit (LedgerClient_PostEntry t' Server_PostEntry)) a m k nar
      (bank p) = (r, bank p')"
    using 1(2) net_call_eq [of _ p r p'] by (force simp: transfer_clients_def)
  from account_call_effect [OF 1(1) money_events_keep(1), where msg = "''account deposit''" and t = t and t' = t' and
      m = m and etype = LedgerEntryTypeDeposit and a = a and k = k and nar = nar and r = r and b' = "bank p'"] this
  show ?case
    by (simp add: accountClient_Deposit_def AccountServer_Deposit_def handlers_money books_def)
next
  case (2 p a m k nar r p')
  obtain t t' where "network p (sent p) = (t, t')" by fastforce
  then have "accountClient_Withdraw t (AccountServer_Withdraw (LedgerClient_PostEntry t' Server_PostEntry)) a m k nar
      (bank p) = (r, bank p')"
    using 2(2) net_call_eq [of _ p r p'] by (force simp: transfer_clients_def)
  from account_call_effect [OF 2(1) money_events_keep(2), where msg = "''account withdraw''" and t = t and t' = t' and
      m = m and etype = LedgerEntryTypeWithdrawal and a = a and k = k and nar = nar and r = r and b' = "bank p'"] this
  show ?case
    by (simp add: accountClient_Withdraw_def AccountServer_Withdraw_def handlers_money books_def)
next
  case (3 p a m k nar r p')
  have "callPeer (ledgerClient_PostEntry (fst (network p (sent p))) Server_PostEntry a m ''deposit'' k nar) (bank p) =
      (r, bank p')"
    using 3(2) net_call_eq [of _ p r p'] by (force simp: transfer_clients_def split_beta)
  from ledger_call_effect [OF 3(1) _ this] show ?case by (simp add: books_def)
next
  case (4 p a m k nar r p')
  have "callPeer (ledgerClient_PostEntry (fst (network p (sent p))) Server_PostEntry a m ''withdrawal'' k nar) (bank p) =
      (r, bank p')"
    using 4(2) net_call_eq [of _ p r p'] by (force simp: transfer_clients_def split_beta)
  from ledger_call_effect [OF 4(1) _ this] show ?case by (simp add: books_def)
qed

section \<open>The saga\<close>

text \<open>An amount without a currency is refused by the account service before anything happens.\<close>

lemma clients_refuse_no_currency:
  assumes "currency m = ''''"
  shows "\<exists>e p'. ta_Account_Withdraw transfer_clients a m k nar p = (Inl e, p') \<and> bank p' = bank p"
proof -
  obtain t t' where net: "network p (sent p) = (t, t')" by fastforce
  then show ?thesis
    using assms
    by (cases t) (simp_all add: transfer_clients_def net_call_def accountClient_Withdraw_def wrap_error_def
        AccountServer_Withdraw_def Money_New_def bindE_def liftE_def)
qed

text \<open>The amount of a payment does not survive its JSON form.\<close>

lemma initiated_has_no_amount:
  "PaymentInitiated_Unmarshal j = Inr ev \<Longrightarrow> \<exists>i f t n at. ev = PaymentInitiated i f t Money_zero n at"
proof -
  have "Money_Unmarshal x = Inr m \<Longrightarrow> m = Money_zero" for x m
    by (cases x) (auto simp: bindS_Inr_iff)
  then show "PaymentInitiated_Unmarshal j = Inr ev \<Longrightarrow> \<exists>i f t n at. ev = PaymentInitiated i f t Money_zero n at"
    by (auto simp: PaymentInitiated_Unmarshal_def bindS_Inr_iff)
qed

lemma local_FailPayment: "local_op (FailPaymentHandler_Handle i k reason)"
  by (auto simp: FailPaymentHandler_Handle_def intro!: local_intro)

lemma bestEffortFail_run: "\<exists>v. bestEffortFailPayment i k reason w = (Inr (), v) \<and> peer v = peer w"
proof (cases "FailPaymentHandler_Handle i k reason w")
  case (Pair r v)
  then show ?thesis
    using local_opD [OF local_FailPayment Pair] by (simp add: bestEffortFailPayment_def bindE_def tryE_def returnE_def)
qed

lemma saga_keeps_bank:
  "bank (peer (snd (saga_transfer transfer_clients (PaymentInitiated i f t Money_zero n at) w))) = bank (peer w)"
proof -
  obtain e p' where call: "ta_Account_Withdraw transfer_clients f Money_zero (''wdr-'' @ i) n (peer w) = (Inl e, p')"
    and b: "bank p' = bank (peer w)"
    using clients_refuse_no_currency [of Money_zero f "''wdr-'' @ i" n "peer w"] by (auto simp: Money_zero_def)
  obtain v where v: "bestEffortFailPayment i (''fail-wdr-'' @ i) (''withdrawal failed: '' @ Error_text e)
      (w\<lparr>peer := p'\<rparr>) = (Inr (), v)" "peer v = p'"
    using bestEffortFail_run [of i _ _ "w\<lparr>peer := p'\<rparr>"] by auto
  then have "saga_transfer transfer_clients (PaymentInitiated i f t Money_zero n at) w = (Inl e, v)"
    using call by (simp add: saga_step_def bindE_def tryE_def callPeer_def throwE_def Let_def)
  then show ?thesis using v b by simp
qed

section \<open>Properties\<close>

text \<open>A payment service before the bank of the samples.\<close>

definition sample_transfer :: "(nat \<Rightarrow> transport \<times> transport) \<Rightarrow> (payment_db, unit bank net) world" where
  "sample_transfer ts = \<lparr>db = payment_empty, peer = \<lparr>bank = sample_opened, network = ts, sent = 0\<rparr>,
     clock = (\<lambda>n. 1000 * int n + 5000), uuid = (\<lambda>n. replicate (Suc n) (CHR ''p'')), fault = (\<lambda>n. None),
     tick = 0, txtime = None\<rparr>"

definition sample_input :: TransferWorkflowInput where
  "sample_input = \<lparr>tw_PaymentID = ''pp'', tw_FromAccountID = ''vv'', tw_ToAccountID = ''b'', tw_Currency = ''NGN'',
     tw_AmountKobo = 100, tw_Narration = '''', tw_IdempotencyKey = ''k''\<rparr>"

lemma peer_sample_opened: "peer sample_opened = sample_ledger"
  using local_opD [OF local_Open, of "\<lparr>oa_CustomerID = ''cust'', oa_IdempotencyKey = ''o1''\<rparr>" sample_bank]
  by (simp add: sample_opened_def) (metis prod.collapse sample_bank_def world.select_convs(2))

text \<open>
  C17. A transfer books every one of its postings at most once and nothing else. This holds for
  every outcome of the workflow, whatever the network does to each call (to the account service, to
  the ledger, and between the two), whichever statements of the three databases fail, and however
  often the Temporal server runs each activity: at the end the balances have changed by exactly the
  amounts of those postings (two withdrawals, two deposits, one refund) whose keys the ledger has
  bound, and the three databases are consistent. When the workflow succeeds the payment is settled,
  the refund was not booked and the other four were: the source has lost, and the destination has
  gained, twice the amount of the payment.
\<close>

theorem transfer_books_at_most_once:
  fixes w w' :: "(payment_db, 'q bank net) world"
  assumes "temporal_engine engine" and "bank_inv (bank (peer w))" and "payment_inv (db w)"
    and "\<forall>k\<in>fst ` set (transfer_legs inp). ledger_idempotency (db (peer (bank (peer w)))) k = None"
    and "TransferWorkflow engine transfer_clients inp w = (r, w')"
  shows "bank_inv (bank (peer w')) \<and> payment_inv (db w') \<and>
     balance (db (peer (bank (peer w')))) 1 a = balance (db (peer (bank (peer w)))) 1 a +
       legs_sum (\<lambda>k. ledger_idempotency (db (peer (bank (peer w')))) k \<noteq> None) a (transfer_legs inp) \<and>
     (r = Inr () \<longrightarrow>
        py_status (payment_replay (stream (db w') (tw_PaymentID inp))) = StatusSettled \<and>
        balance (db (peer (bank (peer w')))) 1 a = balance (db (peer (bank (peer w)))) 1 a -
          (if a = tw_FromAccountID inp then 2 * sint (tw_AmountKobo inp) else 0) +
          (if a = tw_ToAccountID inp then 2 * sint (tw_AmountKobo inp) else 0))"
proof -
  let ?k = "\<lambda>k. ledger_idempotency (db (peer (bank (peer w')))) k \<noteq> None"
  note e = clients.workflow_effect [OF assms]
  then have eq: "balance (db (peer (bank (peer w')))) 1 a = balance (db (peer (bank (peer w)))) 1 a +
      legs_sum ?k a (transfer_legs inp)"
    by (simp add: transfer_state_def posted_def)
  have "legs_sum ?k a (transfer_legs inp) = (if a = tw_ToAccountID inp then 2 * sint (tw_AmountKobo inp) else 0) -
      (if a = tw_FromAccountID inp then 2 * sint (tw_AmountKobo inp) else 0)" if "r = Inr ()"
    using e that by (auto simp: transfer_progress_def transfer_legs_def legs_sum_def Let_def)
  then show ?thesis using e eq by (auto simp: transfer_state_def)
qed

lemma engine_once: "temporal_engine (\<lambda>m. m)"
  unfolding temporal_engine_def
proof (intro allI)
  fix m :: "(payment_db, 'p, unit) go" and w
  show "\<exists>n rs. n \<le> MaximumAttempts \<and> attempts m n w = (rs, snd (m w)) \<and>
      (fst (m w) = Inr () \<longrightarrow> rs \<noteq> [] \<and> last rs = Inr ())"
    by (rule exI [of _ 1]) (simp add: MaximumAttempts_def split_beta)
qed

theorem transfer_books_at_most_once_witness:
  "let w' = snd (TransferWorkflow (\<lambda>m. m) transfer_clients sample_input (sample_transfer (\<lambda>n. (ReplyLost, Delivered)))) in
   balance (db (peer (bank (peer w')))) 1 ''vv'' =
     legs_sum (\<lambda>k. ledger_idempotency (db (peer (bank (peer w')))) k \<noteq> None) ''vv'' (transfer_legs sample_input)"
proof -
  let ?w = "sample_transfer (\<lambda>n. (ReplyLost, Delivered))"
  let ?run = "TransferWorkflow (\<lambda>m. m) transfer_clients sample_input ?w"
  have bal: "balance (db sample_ledger) 1 ''vv'' = 0" by code_simp
  have "balance (db (peer (bank (peer (snd ?run))))) 1 ''vv'' = balance (db (peer (bank (peer ?w)))) 1 ''vv'' +
     legs_sum (\<lambda>k. ledger_idempotency (db (peer (bank (peer (snd ?run))))) k \<noteq> None) ''vv'' (transfer_legs sample_input)"
    using transfer_books_at_most_once [OF engine_once, of ?w sample_input "fst ?run" "snd ?run" "''vv''"] sample_opened_inv
    by (simp add: sample_transfer_def peer_sample_opened)
  then show ?thesis using bal by (simp add: Let_def sample_transfer_def peer_sample_opened)
qed

text \<open>
  C36. Without Temporal no payment moves money: whatever message reaches the consumer, on whatever
  subject, the bank is as before; and the messages that the service itself puts into its outbox do
  not reach the saga, since their topic is not a subject that the consumer subscribes to.
\<close>

theorem saga_never_transfers:
  fixes w :: "(payment_db, 'q bank net) world"
  shows "bank (peer (snd (EventConsumer_receive transfer_clients subject payload w))) = bank (peer w) \<and>
     EventConsumer_receive transfer_clients (msg_Topic (payment_message mid created i ev ver)) payload w = (Inr (), w)"
proof -
  have "bank (peer (snd (handlePaymentInitiated transfer_clients payload w))) = bank (peer w)"
  proof (cases "PaymentInitiated_Unmarshal payload")
    case (Inr ev)
    then show ?thesis
      using initiated_has_no_amount [OF Inr] saga_keeps_bank
      by (auto simp: handlePaymentInitiated_def bindE_def liftE_def)
  qed (simp add: handlePaymentInitiated_def bindE_def liftE_def)
  then have "bank (peer (snd (ProcessEvent transfer_clients subject payload w))) = bank (peer w)"
    by (simp add: ProcessEvent_def handleLedgerRecorded_def handleAccountUpdated_def returnE_def)
  then have "bank (peer (snd (EventConsumer_receive transfer_clients subject payload w))) = bank (peer w)"
    by (auto simp: EventConsumer_receive_def bindE_def tryE_def returnE_def split: prod.splits)
  then show ?thesis
    by (simp add: EventConsumer_receive_def consumer_subjects_def payment_message_def paymentEventsTopicV1_def
        returnE_def)
qed

end
