(* ===== verification/Base64.thy ===== *)
theory Base64
  imports Prelude
begin

text \<open>
  \<open>encoding/base64\<close> as the services use it (\<open>src/pkg/security/base64url.go\<close>): the standard and
  the URL alphabet, with and without padding, on byte strings. Decoding is Go's: line breaks are
  skipped, unused trailing bits are not checked, padding must be there exactly when the encoding
  has it.
\<close>

section \<open>Encodings\<close>

record b64_Encoding =
  b64_alphabet :: string
  b64_padded :: bool

definition b64_common :: string where
  "b64_common = ''ABCDEFGHIJKLMNOPQRSTUVWXYZabcdefghijklmnopqrstuvwxyz0123456789''"

definition StdEncoding :: b64_Encoding where
  "StdEncoding = \<lparr>b64_alphabet = b64_common @ ''+/'', b64_padded = True\<rparr>"

definition RawStdEncoding :: b64_Encoding where
  "RawStdEncoding = \<lparr>b64_alphabet = b64_common @ ''+/'', b64_padded = False\<rparr>"

definition RawURLEncoding :: b64_Encoding where
  "RawURLEncoding = \<lparr>b64_alphabet = b64_common @ ''-_'', b64_padded = False\<rparr>"

abbreviation byte_of :: "char \<Rightarrow> nat" where
  "byte_of c \<equiv> of_char c"

definition sextet :: "b64_Encoding \<Rightarrow> nat \<Rightarrow> char" where
  "sextet enc n = b64_alphabet enc ! n"

fun EncodeToString :: "b64_Encoding \<Rightarrow> string \<Rightarrow> string" where
  "EncodeToString enc [] = []"
| "EncodeToString enc [a] =
     [sextet enc (byte_of a div 4), sextet enc (byte_of a mod 4 * 16)] @
     (if b64_padded enc then ''=='' else [])"
| "EncodeToString enc [a, b] =
     [sextet enc (byte_of a div 4), sextet enc (byte_of a mod 4 * 16 + byte_of b div 16),
      sextet enc (byte_of b mod 16 * 4)] @ (if b64_padded enc then ''='' else [])"
| "EncodeToString enc (a # b # c # bs) =
     [sextet enc (byte_of a div 4), sextet enc (byte_of a mod 4 * 16 + byte_of b div 16),
      sextet enc (byte_of b mod 16 * 4 + byte_of c div 64), sextet enc (byte_of c mod 64)] @
     EncodeToString enc bs"

text \<open>The value of a character, \<open>None\<close> when it is not in the alphabet.\<close>

fun position :: "string \<Rightarrow> char \<Rightarrow> nat option" where
  "position [] c = None"
| "position (x # xs) c = (if x = c then Some 0 else map_option Suc (position xs c))"

fun decode_quanta :: "b64_Encoding \<Rightarrow> string \<Rightarrow> string option" where
  "decode_quanta enc [] = Some []"
| "decode_quanta enc [w] = None"
| "decode_quanta enc [w, x] =
     (if b64_padded enc then None
      else case (position (b64_alphabet enc) w, position (b64_alphabet enc) x) of
        (Some i, Some j) \<Rightarrow> Some [char_of (i * 4 + j div 16)]
      | _ \<Rightarrow> None)"
| "decode_quanta enc [w, x, y] =
     (if b64_padded enc then None
      else case (position (b64_alphabet enc) w, position (b64_alphabet enc) x, position (b64_alphabet enc) y) of
        (Some i, Some j, Some k) \<Rightarrow> Some [char_of (i * 4 + j div 16), char_of (j mod 16 * 16 + k div 4)]
      | _ \<Rightarrow> None)"
| "decode_quanta enc (w # x # y # z # cs) =
     (if b64_padded enc \<and> z = CHR ''='' then
        if cs \<noteq> [] then None
        else if y = CHR ''='' then
          (case (position (b64_alphabet enc) w, position (b64_alphabet enc) x) of
             (Some i, Some j) \<Rightarrow> Some [char_of (i * 4 + j div 16)]
           | _ \<Rightarrow> None)
        else
          (case (position (b64_alphabet enc) w, position (b64_alphabet enc) x, position (b64_alphabet enc) y) of
             (Some i, Some j, Some k) \<Rightarrow> Some [char_of (i * 4 + j div 16), char_of (j mod 16 * 16 + k div 4)]
           | _ \<Rightarrow> None)
      else
        (case (position (b64_alphabet enc) w, position (b64_alphabet enc) x, position (b64_alphabet enc) y,
               position (b64_alphabet enc) z) of
           (Some i, Some j, Some k, Some l) \<Rightarrow>
             map_option (\<lambda>bs. [char_of (i * 4 + j div 16), char_of (j mod 16 * 16 + k div 4),
               char_of (k mod 4 * 64 + l)] @ bs) (decode_quanta enc cs)
         | _ \<Rightarrow> None))"

definition DecodeString :: "b64_Encoding \<Rightarrow> string \<Rightarrow> string option" where
  "DecodeString enc s = decode_quanta enc (filter (\<lambda>c. c \<noteq> CHR 0x0A \<and> c \<noteq> CHR 0x0D) s)"

definition encodeB64URL :: "string \<Rightarrow> string" where
  "encodeB64URL b = EncodeToString RawURLEncoding b"

definition decodeB64URL :: "string \<Rightarrow> string option" where
  "decodeB64URL s = DecodeString RawURLEncoding s"

section \<open>Facts\<close>

text \<open>An alphabet of 64 different characters, none of which is the padding or a line break.\<close>

definition b64_wf :: "b64_Encoding \<Rightarrow> bool" where
  "b64_wf enc \<longleftrightarrow> length (b64_alphabet enc) = 64 \<and> distinct (b64_alphabet enc) \<and>
     set (b64_alphabet enc) \<inter> {CHR ''='', CHR 0x0A, CHR 0x0D} = {}"

lemma b64_wf_std [simp]: "b64_wf StdEncoding" "b64_wf RawStdEncoding" "b64_wf RawURLEncoding"
  by code_simp+

lemma position_nth: "distinct xs \<Longrightarrow> i < length xs \<Longrightarrow> position xs (xs ! i) = Some i"
  by (induction xs arbitrary: i) (auto simp: nth_Cons split: nat.splits)

lemma sextet_facts:
  assumes "b64_wf enc" and "i < 64"
  shows "position (b64_alphabet enc) (sextet enc i) = Some i"
    and "sextet enc i \<noteq> CHR ''=''" and "sextet enc i \<noteq> CHR 0x0A" and "sextet enc i \<noteq> CHR 0x0D"
proof -
  have "sextet enc i \<in> set (b64_alphabet enc)" using assms by (auto simp: b64_wf_def sextet_def)
  then show "sextet enc i \<noteq> CHR ''=''" "sextet enc i \<noteq> CHR 0x0A" "sextet enc i \<noteq> CHR 0x0D"
    using assms(1) by (auto simp: b64_wf_def)
  show "position (b64_alphabet enc) (sextet enc i) = Some i"
    using assms by (simp add: b64_wf_def sextet_def position_nth)
qed

lemma sextet_bounds [simp]:
  "byte_of a div 4 < (64 :: nat)" "byte_of a mod 4 * 16 < (64 :: nat)"
  "byte_of a mod 4 * 16 + byte_of b div 16 < (64 :: nat)" "byte_of b mod 16 * 4 < (64 :: nat)"
  "byte_of b mod 16 * 4 + byte_of c div 64 < (64 :: nat)" "byte_of c mod 64 < (64 :: nat)"
  proof -
  have "byte_of a < (256 :: nat)" "byte_of b < (256 :: nat)" "byte_of c < (256 :: nat)" by simp_all
  then show "byte_of a div 4 < (64 :: nat)" "byte_of a mod 4 * 16 < (64 :: nat)"
    "byte_of a mod 4 * 16 + byte_of b div 16 < (64 :: nat)" "byte_of b mod 16 * 4 < (64 :: nat)"
    "byte_of b mod 16 * 4 + byte_of c div 64 < (64 :: nat)" "byte_of c mod 64 < (64 :: nat)"
    by linarith+
qed

lemma byte_parts [simp]:
  "byte_of b div 16 div 16 = (0 :: nat)" "byte_of b div 16 mod 16 = (byte_of b div 16 :: nat)"
  "byte_of c div 64 div 4 = (0 :: nat)" "byte_of c div 64 mod 4 = (byte_of c div 64 :: nat)"
proof -
  have "byte_of b div 16 < (16 :: nat)" "byte_of c div 64 < (4 :: nat)"
    using nat_of_char_less_256 [of b] nat_of_char_less_256 [of c] by linarith+
  then show "byte_of b div 16 div 16 = (0 :: nat)" "byte_of b div 16 mod 16 = (byte_of b div 16 :: nat)"
    "byte_of c div 64 div 4 = (0 :: nat)" "byte_of c div 64 mod 4 = (byte_of c div 64 :: nat)"
    by simp_all
qed

lemma decode_encode_quanta: "b64_wf enc \<Longrightarrow> decode_quanta enc (EncodeToString enc bs) = Some bs"
  by (induction enc bs rule: EncodeToString.induct) (simp_all add: sextet_facts)

lemma encode_no_breaks: "b64_wf enc \<Longrightarrow> c \<in> set (EncodeToString enc bs) \<Longrightarrow> c \<noteq> CHR 0x0A \<and> c \<noteq> CHR 0x0D"
  by (induction enc bs rule: EncodeToString.induct) (auto simp: sextet_facts split: if_splits)

text \<open>Decoding undoes encoding, for every encoding in use and every byte string.\<close>

lemma decode_encode: "b64_wf enc \<Longrightarrow> DecodeString enc (EncodeToString enc bs) = Some bs"
  using encode_no_breaks [of enc _ bs]
  by (simp add: DecodeString_def decode_encode_quanta filter_id_conv [THEN iffD2])

lemma encode_alphabet:
  "b64_wf enc \<Longrightarrow> \<not> b64_padded enc \<Longrightarrow> c \<in> set (EncodeToString enc bs) \<Longrightarrow> c \<in> set (b64_alphabet enc)"
  by (induction enc bs rule: EncodeToString.induct) (auto simp: sextet_def b64_wf_def)

lemma length_encode: "bs \<noteq> [] \<Longrightarrow> EncodeToString enc bs \<noteq> []"
  by (induction enc bs rule: EncodeToString.induct) auto

lemma EncodeToString_inj: "b64_wf enc \<Longrightarrow> EncodeToString enc a = EncodeToString enc b \<Longrightarrow> a = b"
  by (metis decode_encode option.inject)

end
