(* ===== verification/Password.thy ===== *)
theory Password
  imports Base64 Authz
begin

text \<open>
  Password hashes, \<open>src/pkg/security/password_argon2id.go\<close>: the encoded form of an Argon2id hash,
  its parser and verification. The hash function \<open>argon2.IDKey\<close> and \<open>argon2.Version\<close> are of a
  third-party package and a parameter; \<open>fmt.Sprintf\<close> and \<open>fmt.Sscanf\<close> are modelled for the
  formats in use.
\<close>

section \<open>Printing and scanning numbers\<close>

text \<open>\<open>%d\<close> of a non-negative and of any number.\<close>

fun print_nat :: "nat \<Rightarrow> string" where
  "print_nat n = (if n < 10 then [char_of (48 + n)] else print_nat (n div 10) @ [char_of (48 + n mod 10)])"

declare print_nat.simps [simp del]

definition print_int :: "int \<Rightarrow> string" where
  "print_int i = (if i < 0 then ''-'' @ print_nat (nat (- i)) else print_nat (nat i))"

text \<open>
  \<open>fmt.Sscanf\<close> works on the rest of the input. Text of the format must be there as it is; \<open>%d\<close>
  skips white space, but not a line break, and takes the longest run of digits, for a signed
  target after an optional sign. A number that does not fit the target is an error.
\<close>

definition scan_text :: "string \<Rightarrow> string \<Rightarrow> string option" where
  "scan_text t s = (if HasPrefix s t then Some (drop (length t) s) else None)"

definition skip_space :: "string \<Rightarrow> string option" where
  "skip_space s =
     (let r = trim_left (filter (\<lambda>w. w \<noteq> [CHR 0x0A]) white_space) s
      in if HasPrefix r [CHR 0x0A] then None else Some r)"

definition is_digit :: "char \<Rightarrow> bool" where
  "is_digit c \<longleftrightarrow> digit_value c \<noteq> None"

definition scan_uint :: "nat \<Rightarrow> string \<Rightarrow> (nat \<times> string) option" where
  "scan_uint bits s =
     (case skip_space s of
        None \<Rightarrow> None
      | Some r \<Rightarrow>
          let tok = takeWhile is_digit r
          in if tok = [] then None
             else (case digits_value 0 tok of
               None \<Rightarrow> None
             | Some n \<Rightarrow> if n < 2 ^ bits then Some (n, dropWhile is_digit r) else None))"

definition scan_int :: "string \<Rightarrow> (int \<times> string) option" where
  "scan_int s =
     (case skip_space s of
        None \<Rightarrow> None
      | Some r \<Rightarrow>
          let neg = HasPrefix r ''-'';
              r' = (if neg \<or> HasPrefix r ''+'' then tl r else r);
              tok = takeWhile is_digit r'
          in if tok = [] then None
             else (case digits_value 0 tok of
               None \<Rightarrow> None
             | Some n \<Rightarrow>
                 let i = (if neg then - int n else int n)
                 in if in_int64 i then Some (i, dropWhile is_digit r') else None))"

section \<open>Hashing and verifying\<close>

text \<open>\<open>argon2.Version\<close> and \<open>argon2.IDKey\<close>: password, salt, time, memory, threads, key length.\<close>

record argon2 =
  ar_Version :: int
  ar_IDKey :: "string \<Rightarrow> string \<Rightarrow> nat \<Rightarrow> nat \<Rightarrow> nat \<Rightarrow> nat \<Rightarrow> string"

definition argon2idTime :: nat where
  "argon2idTime = 3"

definition argon2idMemory :: nat where
  "argon2idMemory = 64 * 1024"

definition argon2idThreads :: nat where
  "argon2idThreads = 2"

definition argon2idKeyLen :: nat where
  "argon2idKeyLen = 32"

text \<open>\<open>fmt.Sprintf("$argon2id$v=%d$m=%d,t=%d,p=%d$%s$%s", ...)\<close>.\<close>

definition encode_hash :: "int \<Rightarrow> nat \<Rightarrow> nat \<Rightarrow> nat \<Rightarrow> string \<Rightarrow> string \<Rightarrow> string" where
  "encode_hash version memory time threads salt hash =
     ''$argon2id$v='' @ print_int version @ ''$m='' @ print_nat memory @ '',t='' @ print_nat time @
     '',p='' @ print_nat threads @ ''$'' @ EncodeToString RawStdEncoding salt @
     ''$'' @ EncodeToString RawStdEncoding hash"

text \<open>
  \<open>argon2.IDKey\<close> as the code calls it: it panics when the number of rounds or of threads is zero,
  which a stored hash may ask for.
\<close>

definition IDKey :: "argon2 \<Rightarrow> string \<Rightarrow> string \<Rightarrow> nat \<Rightarrow> nat \<Rightarrow> nat \<Rightarrow> nat \<Rightarrow> go_error + string" where
  "IDKey A password salt time memory threads keyLen =
     (if time < 1 then Inl (Panic ''argon2: number of rounds too small'')
      else if threads < 1 then Inl (Panic ''argon2: parallelism degree too low'')
      else Inr (ar_IDKey A password salt time memory threads keyLen))"

text \<open>\<open>HashPassword\<close>, given what \<open>rand.Read\<close> returned: an error or the bytes of the salt.\<close>

definition HashPassword :: "argon2 \<Rightarrow> go_error + string \<Rightarrow> string \<Rightarrow> go_error + string" where
  "HashPassword A rand password =
     (if TrimSpace password = '''' then Inl (ErrorString ''password required'')
      else (case rand of
        Inl err \<Rightarrow> Inl (Wrapped ''read salt'' err)
      | Inr salt \<Rightarrow>
          (case IDKey A password salt argon2idTime argon2idMemory argon2idThreads argon2idKeyLen of
             Inl p \<Rightarrow> Inl p
           | Inr hash \<Rightarrow> Inr (encode_hash (ar_Version A) argon2idMemory argon2idTime argon2idThreads salt hash))))"

record argon2idParams =
  ap_time :: nat
  ap_memory :: nat
  ap_threads :: nat

text \<open>\<open>fmt.Sscanf(parts[3], "m=%d,t=%d,p=%d", &memory, &time, &threads)\<close>.\<close>

definition scan_params :: "string \<Rightarrow> argon2idParams option" where
  "scan_params s =
     Option.bind (scan_text ''m='' s) (\<lambda>s.
     Option.bind (scan_uint 32 s) (\<lambda>(memory, s).
     Option.bind (scan_text '',t='' s) (\<lambda>s.
     Option.bind (scan_uint 32 s) (\<lambda>(time, s).
     Option.bind (scan_text '',p='' s) (\<lambda>s.
     Option.bind (scan_uint 8 s) (\<lambda>(threads, s).
     Some \<lparr>ap_time = time, ap_memory = memory, ap_threads = threads\<rparr>))))))"

definition parseArgon2idHash :: "argon2 \<Rightarrow> string \<Rightarrow> go_error + argon2idParams \<times> string \<times> string" where
  "parseArgon2idHash A encoded =
     (let parts = split_on (CHR ''$'') encoded in
      if length parts \<noteq> 6 then Inl (ErrorString ''invalid hash format'')
      else if parts ! 1 \<noteq> ''argon2id'' then Inl (ErrorString ''invalid hash algorithm'')
      else (case Option.bind (scan_text ''v='' (parts ! 2)) scan_int of
        None \<Rightarrow> Inl (ErrorString ''invalid hash version'')
      | Some (version, _) \<Rightarrow>
          if version \<noteq> ar_Version A then Inl (ErrorString ''incompatible hash version'')
          else (case scan_params (parts ! 3) of
            None \<Rightarrow> Inl (ErrorString ''invalid hash params'')
          | Some params \<Rightarrow>
              (case DecodeString RawStdEncoding (parts ! 4) of
                 None \<Rightarrow> Inl (ErrorString ''invalid salt encoding'')
               | Some salt \<Rightarrow>
                   (case DecodeString RawStdEncoding (parts ! 5) of
                      None \<Rightarrow> Inl (ErrorString ''invalid hash encoding'')
                    | Some hash \<Rightarrow>
                        if length hash = 0 then Inl (ErrorString ''invalid hash length'')
                        else Inr (params, salt, hash))))))"

definition VerifyPassword :: "argon2 \<Rightarrow> string \<Rightarrow> string \<Rightarrow> go_error + bool" where
  "VerifyPassword A password encodedHash =
     (if TrimSpace password = '''' then Inl (ErrorString ''password required'')
      else if TrimSpace encodedHash = '''' then Inl (ErrorString ''encoded hash required'')
      else (case parseArgon2idHash A encodedHash of
        Inl err \<Rightarrow> Inl err
      | Inr (params, salt, expectedHash) \<Rightarrow>
          (case IDKey A password salt (ap_time params) (ap_memory params) (ap_threads params) (length expectedHash) of
             Inl p \<Rightarrow> Inl p
           | Inr actualHash \<Rightarrow> Inr (actualHash = expectedHash))))"

section \<open>Facts\<close>

lemma digit_value_print: "n < 10 \<Longrightarrow> digit_value (char_of (48 + n)) = Some n"
  by (simp add: digit_value_def Let_def)

lemma digits_value_append:
  "digits_value acc (s @ t) = Option.bind (digits_value acc s) (\<lambda>a. digits_value a t)"
  by (induction s arbitrary: acc) (auto split: option.splits)

lemma print_nat_value: "digits_value 0 (print_nat n) = Some n"
proof (induction n rule: print_nat.induct)
  case (1 n)
  show ?case
  proof (cases "n < 10")
    case True
    then show ?thesis by (subst print_nat.simps) (simp add: digit_value_print)
  next
    case False
    then show ?thesis
      using 1 by (subst print_nat.simps) (simp add: digits_value_append digit_value_print)
  qed
qed

lemma print_nat_digits: "c \<in> set (print_nat n) \<Longrightarrow> is_digit c"
proof (induction n rule: print_nat.induct)
  case (1 n)
  then show ?case
    by (subst (asm) (2) print_nat.simps) (auto simp: is_digit_def digit_value_print split: if_splits)
qed

lemma print_nat_nonempty [simp]: "print_nat n \<noteq> []"
  by (subst print_nat.simps) simp

lemma scan_digits [simp]:
  "takeWhile is_digit (print_nat n) = print_nat n" "dropWhile is_digit (print_nat n) = []"
  using print_nat_digits by auto

lemma digit_not_space:
  assumes "is_digit c" and "w \<in> set white_space"
  shows "\<not> HasPrefix (c # s) w"
proof -
  have n: "48 \<le> (of_char c :: nat)" "(of_char c :: nat) \<le> 57"
    using assms(1) by (auto simp: is_digit_def digit_value_def Let_def split: if_splits)
  have "\<forall>w\<in>set white_space. w \<noteq> [] \<and> ((of_char (hd w) :: nat) < 48 \<or> 57 < (of_char (hd w) :: nat))"
    by code_simp
  then have "w \<noteq> []" "(of_char (hd w) :: nat) < 48 \<or> 57 < (of_char (hd w) :: nat)" using assms(2) by blast+
  then show ?thesis using n by (cases w) (auto simp: HasPrefix_def)
qed

lemma skip_space_digit: "is_digit c \<Longrightarrow> skip_space (c # s) = Some (c # s)"
proof -
  assume c: "is_digit c"
  have "trim_left (filter (\<lambda>w. w \<noteq> [CHR 0x0A]) white_space) (c # s) = c # s"
    by (rule trim_left_id) (use digit_not_space [OF c] in auto)
  moreover have "\<not> HasPrefix (c # s) [CHR 0x0A]" by (rule digit_not_space [OF c]) (simp add: white_space_def)
  ultimately show ?thesis by (simp add: skip_space_def)
qed

text \<open>Scanning finds a printed number, whatever comes after it, as long as that is no digit.\<close>

lemma scan_uint_print:
  assumes "n < 2 ^ bits" and "\<not> is_digit (hd (s @ [CHR '','']))"
  shows "scan_uint bits (print_nat n @ s) = Some (n, s)"
proof -
  obtain c cs where cs: "print_nat n = c # cs" by (cases "print_nat n") auto
  then have "skip_space (print_nat n @ s) = Some (print_nat n @ s)"
    using print_nat_digits [of c n] by (simp add: skip_space_digit)
  moreover have "takeWhile is_digit (print_nat n @ s) = print_nat n" "dropWhile is_digit (print_nat n @ s) = s"
    using assms(2) print_nat_digits by (cases s; simp)+
  ultimately show ?thesis using assms(1) by (simp add: scan_uint_def print_nat_value)
qed

lemma scan_int_print: "0 \<le> i \<Longrightarrow> in_int64 i \<Longrightarrow> scan_int (print_int i) = Some (i, [])"
proof -
  assume i: "0 \<le> i" "in_int64 i"
  let ?p = "print_nat (nat i)"
  obtain c cs where cs: "?p = c # cs" by (cases "print_nat (nat i)") auto
  then have c: "is_digit c" using print_nat_digits [of c "nat i"] by simp
  have "skip_space ?p = Some ?p" using cs c by (simp add: skip_space_digit)
  moreover have "\<not> HasPrefix ?p ''-''" "\<not> HasPrefix ?p ''+''"
    using cs c by (auto simp: HasPrefix_def is_digit_def digit_value_def)
  ultimately show ?thesis
    using i by (simp add: scan_int_def print_int_def print_nat_value Let_def)
qed

lemma split_on_part: "c \<notin> set a \<Longrightarrow> split_on c (a @ c # s) = a # split_on c s"
  by (induction a) auto

lemma split_on_last: "c \<notin> set a \<Longrightarrow> split_on c a = [a]"
  by (induction a) auto

lemma trim_left_keeps: "c \<in> set s \<Longrightarrow> \<forall>w\<in>set ws. c \<notin> set w \<Longrightarrow> c \<in> set (trim_left ws s)"
proof (induction ws s rule: trim_left.induct)
  case (1 ws s)
  show ?case
  proof (cases "find (\<lambda>w. w \<noteq> [] \<and> HasPrefix s w) ws")
    case None
    then show ?thesis using 1 by (subst trim_left.simps) simp
  next
    case (Some w)
    then have w: "w \<in> set ws" "take (length w) s = w" by (auto simp: find_Some_iff HasPrefix_def)
    then have "c \<in> set (drop (length w) s)"
      using 1(2,3) by (metis UnE append_take_drop_id set_append)
    then show ?thesis using 1 Some by (subst trim_left.simps) simp
  qed
qed

lemma TrimSpace_keeps: "c \<in> set s \<Longrightarrow> \<forall>w\<in>set white_space. c \<notin> set w \<Longrightarrow> TrimSpace s \<noteq> ''''"
proof -
  assume c: "c \<in> set s" "\<forall>w\<in>set white_space. c \<notin> set w"
  have "c \<in> set (rev (trim_left white_space s))" using trim_left_keeps [OF c] by simp
  then have "c \<in> set (trim_left (map rev white_space) (rev (trim_left white_space s)))"
    by (rule trim_left_keeps) (use c(2) in simp)
  then show ?thesis unfolding TrimSpace_def by fastforce
qed

lemma print_no_dollar [simp]: "CHR ''$'' \<notin> set (print_nat n)" "CHR ''$'' \<notin> set (print_int i)"
proof -
  have "\<not> is_digit (CHR ''$'')" by code_simp
  then show "CHR ''$'' \<notin> set (print_nat n)" "CHR ''$'' \<notin> set (print_int i)"
    using print_nat_digits by (auto simp: print_int_def)
qed

lemma base64_no_dollar [simp]: "CHR ''$'' \<notin> set (EncodeToString RawStdEncoding bs)"
proof
  assume "CHR ''$'' \<in> set (EncodeToString RawStdEncoding bs)"
  then have "CHR ''$'' \<in> set (b64_alphabet RawStdEncoding)"
    by (rule encode_alphabet [rotated 2]) (rule b64_wf_std, simp add: RawStdEncoding_def)
  moreover have "CHR ''$'' \<notin> set (b64_alphabet RawStdEncoding)" by code_simp
  ultimately show False by simp
qed

lemma scan_params_print:
  assumes "memory < 2 ^ 32" and "time < 2 ^ 32" and "threads < 2 ^ 8"
  shows "scan_params (''m='' @ print_nat memory @ '',t='' @ print_nat time @ '',p='' @ print_nat threads) =
     Some \<lparr>ap_time = time, ap_memory = memory, ap_threads = threads\<rparr>"
proof -
  have comma: "\<not> is_digit (CHR '','')" by code_simp
  have lit: "scan_text t (t @ s) = Some s" for t s by (simp add: scan_text_def HasPrefix_def)
  have "scan_uint 32 (print_nat memory @ '',t='' @ r) = Some (memory, '',t='' @ r)" for r
    by (rule scan_uint_print) (use assms comma in simp_all)
  moreover have "scan_uint 32 (print_nat time @ '',p='' @ r) = Some (time, '',p='' @ r)" for r
    by (rule scan_uint_print) (use assms comma in simp_all)
  moreover have "scan_uint 8 (print_nat threads) = Some (threads, [])"
    using scan_uint_print [of threads 8 "[]"] assms comma by simp
  ultimately show ?thesis
    unfolding scan_params_def by (simp add: lit del: append_Cons append_Nil)
qed

text \<open>Parsing finds what was encoded.\<close>

lemma parse_encode:
  assumes "0 \<le> ar_Version A" and "in_int64 (ar_Version A)" and "memory < 2 ^ 32" and "time < 2 ^ 32"
    and "threads < 2 ^ 8" and "hash \<noteq> []"
  shows "parseArgon2idHash A (encode_hash (ar_Version A) memory time threads salt hash) =
     Inr (\<lparr>ap_time = time, ap_memory = memory, ap_threads = threads\<rparr>, salt, hash)"
proof -
  let ?params = "''m='' @ print_nat memory @ '',t='' @ print_nat time @ '',p='' @ print_nat threads"
  have "encode_hash (ar_Version A) memory time threads salt hash =
      '''' @ CHR ''$'' # ''argon2id'' @ CHR ''$'' # (''v='' @ print_int (ar_Version A)) @ CHR ''$'' # ?params @
      CHR ''$'' # EncodeToString RawStdEncoding salt @ CHR ''$'' # EncodeToString RawStdEncoding hash"
    by (simp add: encode_hash_def)
  moreover have "split_on (CHR ''$'') \<dots> =
      ['''', ''argon2id'', ''v='' @ print_int (ar_Version A), ?params,
       EncodeToString RawStdEncoding salt, EncodeToString RawStdEncoding hash]"
    by (subst split_on_part split_on_last, simp)+ (rule refl)
  ultimately have "split_on (CHR ''$'') (encode_hash (ar_Version A) memory time threads salt hash) =
      ['''', ''argon2id'', ''v='' @ print_int (ar_Version A), ?params,
       EncodeToString RawStdEncoding salt, EncodeToString RawStdEncoding hash]"
    by simp
  then show ?thesis
    using assms scan_params_print [OF assms(3-5)]
    by (simp add: parseArgon2idHash_def Let_def scan_text_def HasPrefix_def scan_int_print decode_encode)
qed

section \<open>Round trip\<close>

text \<open>What the code relies on of the third-party package: a version number that an \<open>int\<close> holds,
  and \<open>IDKey\<close> returning as many bytes as asked for.\<close>

definition argon2_ok :: "argon2 \<Rightarrow> bool" where
  "argon2_ok A \<longleftrightarrow> 0 \<le> ar_Version A \<and> in_int64 (ar_Version A) \<and>
     (\<forall>p s t m th n. length (ar_IDKey A p s t m th n) = n)"

lemma encode_hash_not_blank: "TrimSpace (encode_hash v m t th salt hash) \<noteq> ''''"
proof (rule TrimSpace_keeps [of "CHR ''$''"])
  show "CHR ''$'' \<in> set (encode_hash v m t th salt hash)" by (simp add: encode_hash_def)
  show "\<forall>w\<in>set white_space. CHR ''$'' \<notin> set w" by code_simp
qed

text \<open>
  C23. A password verifies against the hash made of it, whatever the salt; and of any other
  non-blank password, verification says yes exactly when it has the same Argon2id key under the
  salt and the parameters the hash was made with: nothing is lost or confused between
  \<open>HashPassword\<close>, the stored text and \<open>VerifyPassword\<close>.
\<close>

theorem password_roundtrip:
  assumes "argon2_ok A" and "HashPassword A (Inr salt) password = Inr stored"
  shows "VerifyPassword A password stored = Inr True \<and>
    (\<forall>other. TrimSpace other \<noteq> '''' \<longrightarrow>
       VerifyPassword A other stored =
         Inr (ar_IDKey A other salt 3 65536 2 32 = ar_IDKey A password salt 3 65536 2 32))"
proof -
  let ?hash = "ar_IDKey A password salt 3 65536 2 32"
  have pw: "TrimSpace password \<noteq> ''''" and stored: "stored = encode_hash (ar_Version A) 65536 3 2 salt ?hash"
    using assms(2)
    by (auto simp: HashPassword_def IDKey_def argon2idTime_def argon2idMemory_def argon2idThreads_def
        argon2idKeyLen_def split: if_splits)
  have len: "length ?hash = 32" using assms(1) by (simp add: argon2_ok_def)
  then have "?hash \<noteq> []" by force
  then have "parseArgon2idHash A stored =
      Inr (\<lparr>ap_time = 3, ap_memory = 65536, ap_threads = 2\<rparr>, salt, ?hash)"
    unfolding stored using assms(1) by (intro parse_encode) (simp_all add: argon2_ok_def)
  then have "VerifyPassword A other stored = Inr (ar_IDKey A other salt 3 65536 2 32 = ?hash)"
    if "TrimSpace other \<noteq> ''''" for other
    using that len encode_hash_not_blank [of "ar_Version A" 65536 3 2 salt ?hash]
    by (simp add: VerifyPassword_def IDKey_def stored)
  then show ?thesis using pw by simp
qed

definition sample_argon2 :: argon2 where
  "sample_argon2 = \<lparr>ar_Version = 19, ar_IDKey = (\<lambda>p s t m th n. take n (p @ s @ replicate n (CHR 0x00)))\<rparr>"

lemma password_roundtrip_witness:
  "case HashPassword sample_argon2 (Inr ''0123456789abcdef'') ''open sesame'' of
     Inl _ \<Rightarrow> False
   | Inr stored \<Rightarrow> VerifyPassword sample_argon2 ''open sesame'' stored = Inr True \<and>
       VerifyPassword sample_argon2 ''Open sesame'' stored = Inr False"
proof -
  have blank: "TrimSpace ''open sesame'' \<noteq> ''''" "TrimSpace ''Open sesame'' \<noteq> ''''" by code_simp+
  obtain stored where h: "HashPassword sample_argon2 (Inr ''0123456789abcdef'') ''open sesame'' = Inr stored"
    using blank(1) by (simp add: HashPassword_def IDKey_def argon2idTime_def argon2idThreads_def)
  have ok: "argon2_ok sample_argon2"
    by (auto simp: argon2_ok_def sample_argon2_def in_int64_def)
  show ?thesis
    using password_roundtrip [OF ok h] h blank(2) by (simp add: sample_argon2_def)
qed

end
