(* ===== verification/LoginLimiter.thy ===== *)
theory LoginLimiter
  imports Prelude
begin

text \<open>
  The login limiter of the auth service, \<open>infrastructure/grpc/login_limiter.go\<close>: per key the
  times of recent failed logins and the time until which the key is locked. Each method holds the
  mutex throughout, so it is one atomic step; what runs between \<open>allow\<close> and the outcome of an
  attempt is not covered by the mutex, which is why the guarantee below counts the attempts under
  way. \<open>None\<close> as \<open>lockedUntil\<close> is the zero \<open>time.Time\<close>.
\<close>

section \<open>The limiter\<close>

record loginState =
  ls_fails :: "time list"
  ls_lockedUntil :: "time option"
  ls_lastSeenTime :: "time option"

record loginLimiter =
  ll_maxAttempts :: int
  ll_window :: duration
  ll_lockout :: duration
  ll_states :: "string \<rightharpoonup> loginState"

definition newLoginLimiter :: "int \<Rightarrow> duration \<Rightarrow> duration \<Rightarrow> loginLimiter" where
  "newLoginLimiter maxAttempts window lockout =
     \<lparr>ll_maxAttempts = (if maxAttempts \<le> 0 then 5 else maxAttempts),
      ll_window = (if window \<le> 0 then 5 * minute else window),
      ll_lockout = (if lockout < 0 then 0 else lockout), ll_states = Map.empty\<rparr>"

text \<open>\<open>l.states[key]\<close>, created on first use.\<close>

definition state_of :: "loginLimiter \<Rightarrow> string \<Rightarrow> loginState" where
  "state_of l key =
     (case ll_states l key of
        None \<Rightarrow> \<lparr>ls_fails = [], ls_lockedUntil = None, ls_lastSeenTime = None\<rparr>
      | Some s \<Rightarrow> s)"

definition put_state :: "loginLimiter \<Rightarrow> string \<Rightarrow> loginState \<Rightarrow> loginLimiter" where
  "put_state l key s = l\<lparr>ll_states := (ll_states l)(key \<mapsto> s)\<rparr>"

text \<open>The failures after the cutoff \<open>now.Add(-l.window)\<close>.\<close>

definition recent :: "duration \<Rightarrow> time \<Rightarrow> time list \<Rightarrow> time list" where
  "recent window now fails = filter (\<lambda>t. now - window < t) fails"

definition allow :: "time \<Rightarrow> string \<Rightarrow> loginLimiter \<Rightarrow> (bool \<times> time option) \<times> loginLimiter" where
  "allow now key l =
     (let s = (state_of l key)\<lparr>ls_lastSeenTime := Some now\<rparr> in
      if (case ls_lockedUntil s of None \<Rightarrow> False | Some u \<Rightarrow> now < u)
      then ((False, ls_lockedUntil s), put_state l key s)
      else
        let s = s\<lparr>ls_fails := recent (ll_window l) now (ls_fails s)\<rparr> in
        if int (length (ls_fails s)) \<ge> ll_maxAttempts l then
          if ll_lockout l > 0
          then ((False, Some (now + ll_lockout l)),
                put_state l key (s\<lparr>ls_lockedUntil := Some (now + ll_lockout l)\<rparr>))
          else ((False, None), put_state l key s)
        else ((True, None), put_state l key s))"

definition onFailure :: "time \<Rightarrow> string \<Rightarrow> loginLimiter \<Rightarrow> loginLimiter" where
  "onFailure now key l =
     (let s = (state_of l key)\<lparr>ls_lastSeenTime := Some now\<rparr>;
          s = s\<lparr>ls_fails := recent (ll_window l) now (ls_fails s) @ [now]\<rparr>
      in put_state l key
           (if int (length (ls_fails s)) \<ge> ll_maxAttempts l \<and> ll_lockout l > 0
            then s\<lparr>ls_lockedUntil := Some (now + ll_lockout l)\<rparr> else s))"

definition onSuccess :: "string \<Rightarrow> loginLimiter \<Rightarrow> loginLimiter" where
  "onSuccess key l = l\<lparr>ll_states := (ll_states l)(key := None)\<rparr>"

section \<open>Logins against the limiter\<close>

text \<open>
  The calls \<open>Login\<close> makes, seen from one key: an attempt asks \<open>allow\<close>; if admitted it is under way
  until it fails on the credentials (\<open>onFailure\<close>), succeeds (\<open>onSuccess\<close>, which forgets the key) or
  ends in an internal error, which the limiter never hears of. At most \<open>c\<close> attempts of the key are
  under way at a time. Calls for other keys come in between. A success ends a round: \<open>lr_failed\<close>
  records the times of the failures since the last success of the key, \<open>lr_rounds\<close> those of the
  rounds before. An attempt that was admitted before a success and fails after it counts in the
  new round.
\<close>

record limiter_run =
  lr_lim :: loginLimiter
  lr_pending :: nat
  lr_failed :: "time list"
  lr_rounds :: "time list list"
  lr_clock :: time

inductive login_step :: "nat \<Rightarrow> string \<Rightarrow> limiter_run \<Rightarrow> limiter_run \<Rightarrow> bool"
  for c :: nat and key :: string where
  Admit: "lr_clock r \<le> now \<Longrightarrow> lr_pending r < c \<Longrightarrow> allow now key (lr_lim r) = ((True, u), l) \<Longrightarrow>
    login_step c key r (r\<lparr>lr_lim := l, lr_pending := Suc (lr_pending r), lr_clock := now\<rparr>)"
| Refuse: "lr_clock r \<le> now \<Longrightarrow> allow now key (lr_lim r) = ((False, u), l) \<Longrightarrow>
    login_step c key r (r\<lparr>lr_lim := l, lr_clock := now\<rparr>)"
| Fail: "lr_clock r \<le> now \<Longrightarrow> 0 < lr_pending r \<Longrightarrow>
    login_step c key r
      (r\<lparr>lr_lim := onFailure now key (lr_lim r), lr_pending := lr_pending r - 1,
         lr_failed := lr_failed r @ [now], lr_clock := now\<rparr>)"
| Success: "0 < lr_pending r \<Longrightarrow>
    login_step c key r
      (r\<lparr>lr_lim := onSuccess key (lr_lim r), lr_pending := lr_pending r - 1, lr_failed := [],
         lr_rounds := lr_failed r # lr_rounds r\<rparr>)"
| Abort: "0 < lr_pending r \<Longrightarrow> login_step c key r (r\<lparr>lr_pending := lr_pending r - 1\<rparr>)"
| OtherAllow: "k \<noteq> key \<Longrightarrow> login_step c key r (r\<lparr>lr_lim := snd (allow now k (lr_lim r))\<rparr>)"
| OtherFailure: "k \<noteq> key \<Longrightarrow> login_step c key r (r\<lparr>lr_lim := onFailure now k (lr_lim r)\<rparr>)"
| OtherSuccess: "k \<noteq> key \<Longrightarrow> login_step c key r (r\<lparr>lr_lim := onSuccess k (lr_lim r)\<rparr>)"

definition run_start :: "loginLimiter \<Rightarrow> time \<Rightarrow> limiter_run" where
  "run_start l now = \<lparr>lr_lim = l, lr_pending = 0, lr_failed = [], lr_rounds = [], lr_clock = now\<rparr>"

section \<open>Facts\<close>

lemma state_of_put [simp]:
  "state_of (put_state l key s) k = (if k = key then s else state_of l k)"
  by (simp add: state_of_def put_state_def)

lemma put_state_config [simp]:
  "ll_maxAttempts (put_state l key s) = ll_maxAttempts l" "ll_window (put_state l key s) = ll_window l"
  "ll_lockout (put_state l key s) = ll_lockout l"
  by (simp_all add: put_state_def)

text \<open>No method touches the configuration or another key's state.\<close>

lemma limiter_config:
  "ll_maxAttempts (snd (allow now k l)) = ll_maxAttempts l" "ll_window (snd (allow now k l)) = ll_window l"
  "ll_lockout (snd (allow now k l)) = ll_lockout l" "ll_maxAttempts (onFailure now k l) = ll_maxAttempts l"
  "ll_window (onFailure now k l) = ll_window l" "ll_lockout (onFailure now k l) = ll_lockout l"
  "ll_maxAttempts (onSuccess k l) = ll_maxAttempts l" "ll_window (onSuccess k l) = ll_window l"
  "ll_lockout (onSuccess k l) = ll_lockout l"
  by (auto simp: allow_def onFailure_def onSuccess_def Let_def)

lemma limiter_frame:
  assumes "k \<noteq> key"
  shows "state_of (snd (allow now k l)) key = state_of l key"
    and "state_of (onFailure now k l) key = state_of l key"
    and "state_of (onSuccess k l) key = state_of l key"
  using assms by (auto simp: allow_def onFailure_def onSuccess_def Let_def) (simp add: state_of_def)

lemmas limiter_other = limiter_config limiter_frame

lemma recent_recent: "k \<le> now - w \<Longrightarrow> recent w now (filter (\<lambda>t. k < t) fs) = recent w now fs"
  unfolding recent_def by (induction fs) auto

lemma recent_shrinks: "now \<le> now' \<Longrightarrow> length (recent w now' fs) \<le> length (recent w now fs)"
  unfolding recent_def by (induction fs) auto

lemma recent_append: "recent w now (fs @ [t]) = recent w now fs @ (if now - w < t then [t] else [])"
  by (simp add: recent_def)

text \<open>
  The invariant of a run: what the limiter remembers of the key is the failures after some time
  before the window, the failures of every window and the attempts under way are few, and after
  too many failures the lock is on.
\<close>

definition remembers :: "string \<Rightarrow> limiter_run \<Rightarrow> bool" where
  "remembers key r \<longleftrightarrow>
     (\<exists>k \<le> lr_clock r - ll_window (lr_lim r).
        ls_fails (state_of (lr_lim r) key) = filter (\<lambda>t. k < t) (lr_failed r))"

definition few_failures :: "nat \<Rightarrow> limiter_run \<Rightarrow> bool" where
  "few_failures c r \<longleftrightarrow>
     (\<forall>t\<in>set (lr_failed r). t \<le> lr_clock r) \<and> lr_pending r \<le> c \<and>
     int (length (recent (ll_window (lr_lim r)) (lr_clock r) (lr_failed r)) + lr_pending r) <
       ll_maxAttempts (lr_lim r) + int c \<and>
     (\<forall>t. int (length (filter (\<lambda>u. u \<le> t) (recent (ll_window (lr_lim r)) t (lr_failed r)))) <
       ll_maxAttempts (lr_lim r) + int c)"

definition locks :: "string \<Rightarrow> limiter_run \<Rightarrow> bool" where
  "locks key r \<longleftrightarrow>
     (lr_failed r \<noteq> [] \<and> 0 < ll_lockout (lr_lim r) \<and>
      ll_maxAttempts (lr_lim r) \<le>
        int (length (recent (ll_window (lr_lim r)) (last (lr_failed r)) (lr_failed r))) \<longrightarrow>
      (\<exists>u. ls_lockedUntil (state_of (lr_lim r) key) = Some u \<and>
           last (lr_failed r) + ll_lockout (lr_lim r) \<le> u))"

definition limiter_ok :: "loginLimiter \<Rightarrow> bool" where
  "limiter_ok l \<longleftrightarrow> 0 < ll_maxAttempts l \<and> 0 < ll_window l \<and> 0 \<le> ll_lockout l"

lemma newLoginLimiter_ok: "limiter_ok (newLoginLimiter m w d)"
  by (simp add: limiter_ok_def newLoginLimiter_def minute_def second_def)

text \<open>What \<open>allow\<close> does to the key's state, and what its yes means.\<close>

lemma allow_effect:
  assumes "allow now key l = ((b, u), l')"
  shows "ls_fails (state_of l' key) = ls_fails (state_of l key) \<or>
      ls_fails (state_of l' key) = recent (ll_window l) now (ls_fails (state_of l key))"
    and "ls_lockedUntil (state_of l' key) = ls_lockedUntil (state_of l key) \<or>
      ls_lockedUntil (state_of l' key) = Some (now + ll_lockout l)"
    and "b \<Longrightarrow> int (length (recent (ll_window l) now (ls_fails (state_of l key)))) < ll_maxAttempts l"
    and "b \<Longrightarrow> ls_lockedUntil (state_of l key) = Some v \<Longrightarrow> v \<le> now"
  using assms by (auto simp: allow_def Let_def split: if_splits option.splits)

lemma allow_config:
  assumes "allow now key l = ((b, u), l')"
  shows "ll_maxAttempts l' = ll_maxAttempts l" "ll_window l' = ll_window l" "ll_lockout l' = ll_lockout l"
  using assms limiter_config(1-3) [of now key l] by simp_all

lemma onFailure_effect:
  "ls_fails (state_of (onFailure now key l) key) = recent (ll_window l) now (ls_fails (state_of l key)) @ [now]"
  "ls_lockedUntil (state_of (onFailure now key l) key) =
     (if ll_maxAttempts l \<le> int (Suc (length (recent (ll_window l) now (ls_fails (state_of l key))))) \<and> 0 < ll_lockout l
      then Some (now + ll_lockout l) else ls_lockedUntil (state_of l key))"
  by (auto simp: onFailure_def Let_def)

lemma onSuccess_effect: "ls_fails (state_of (onSuccess key l) key) = []"
  by (simp add: onSuccess_def state_of_def)

lemma remembers_recent:
  assumes "remembers key r" and "lr_clock r \<le> now"
  shows "recent (ll_window (lr_lim r)) now (ls_fails (state_of (lr_lim r) key)) =
    recent (ll_window (lr_lim r)) now (lr_failed r)"
proof -
  obtain k where "k \<le> lr_clock r - ll_window (lr_lim r)"
    and "ls_fails (state_of (lr_lim r) key) = filter (\<lambda>t. k < t) (lr_failed r)"
    using assms(1) unfolding remembers_def by blast
  then show ?thesis using assms(2) by (simp add: recent_recent)
qed

lemma remembers_allow:
  assumes "remembers key r" and "lr_clock r \<le> now" and "allow now key (lr_lim r) = ((b, u), l)"
  shows "remembers key (r\<lparr>lr_lim := l, lr_pending := p, lr_clock := now\<rparr>)"
proof -
  obtain k where k: "k \<le> lr_clock r - ll_window (lr_lim r)"
    and f: "ls_fails (state_of (lr_lim r) key) = filter (\<lambda>t. k < t) (lr_failed r)"
    using assms(1) unfolding remembers_def by blast
  from allow_effect(1) [OF assms(3)] show ?thesis
  proof
    assume "ls_fails (state_of l key) = ls_fails (state_of (lr_lim r) key)"
    then show ?thesis
      using k f assms(2) unfolding remembers_def
      by (intro exI [of _ k]) (simp add: allow_config [OF assms(3)])
  next
    assume "ls_fails (state_of l key) = recent (ll_window (lr_lim r)) now (ls_fails (state_of (lr_lim r) key))"
    then show ?thesis
      using remembers_recent [OF assms(1,2)] unfolding remembers_def
      by (intro exI [of _ "now - ll_window (lr_lim r)"]) (simp add: allow_config [OF assms(3)] recent_def)
  qed
qed

lemma locks_allow:
  assumes "locks key r" and "lr_clock r \<le> now" and "\<forall>t\<in>set (lr_failed r). t \<le> lr_clock r"
    and "allow now key (lr_lim r) = ((b, u), l)"
  shows "locks key (r\<lparr>lr_lim := l, lr_pending := p, lr_clock := now\<rparr>)"
  using assms(1-3) allow_effect(2) [OF assms(4)] unfolding locks_def
  by (auto simp: allow_config [OF assms(4)]) (meson last_in_set order_trans)

lemma few_later:
  assumes "few_failures c r" and "lr_clock r \<le> now" and "p \<le> c"
    and "ll_window l = ll_window (lr_lim r)" "ll_maxAttempts l = ll_maxAttempts (lr_lim r)"
    and "int (length (recent (ll_window l) now (lr_failed r)) + p) < ll_maxAttempts l + int c"
  shows "few_failures c (r\<lparr>lr_lim := l, lr_pending := p, lr_clock := now\<rparr>)"
  using assms unfolding few_failures_def by auto

lemma few_fail:
  assumes "few_failures c r" and "lr_clock r \<le> now" and "0 < lr_pending r"
    and "ll_window l = ll_window (lr_lim r)" "ll_maxAttempts l = ll_maxAttempts (lr_lim r)"
  shows "few_failures c (r\<lparr>lr_lim := l, lr_pending := lr_pending r - 1, lr_failed := lr_failed r @ [now], lr_clock := now\<rparr>)"
proof -
  let ?w = "ll_window (lr_lim r)" and ?fs = "lr_failed r" and ?m = "ll_maxAttempts (lr_lim r)"
  note few = assms(1) [unfolded few_failures_def]
  have old: "\<forall>t\<in>set ?fs. t \<le> now" using few assms(2) by fastforce
  have n: "int (length (recent ?w now ?fs) + lr_pending r) < ?m + int c"
    using few recent_shrinks [OF assms(2), of ?w ?fs] by linarith
  have "int (length (filter (\<lambda>u. u \<le> t) (recent ?w t (?fs @ [now])))) < ?m + int c" for t
  proof (cases "now \<le> t")
    case True
    have "length (filter (\<lambda>u. u \<le> t) (recent ?w t (?fs @ [now]))) \<le> length (recent ?w t ?fs) + 1"
      using length_filter_le [of "\<lambda>u. u \<le> t" "recent ?w t ?fs"] by (auto simp: recent_append le_SucI)
    then show ?thesis using recent_shrinks [OF True, of ?w ?fs] n assms(3) by linarith
  next
    case False
    then have "filter (\<lambda>u. u \<le> t) (recent ?w t (?fs @ [now])) = filter (\<lambda>u. u \<le> t) (recent ?w t ?fs)"
      by (simp add: recent_append)
    then show ?thesis using few by simp
  qed
  moreover have "length (recent ?w now (?fs @ [now])) \<le> length (recent ?w now ?fs) + 1" by (simp add: recent_append)
  ultimately show ?thesis
    using few old n assms(3-5) unfolding few_failures_def by auto
qed

definition rounds_bounded :: "nat \<Rightarrow> limiter_run \<Rightarrow> bool" where
  "rounds_bounded c r \<longleftrightarrow>
     (\<forall>fs\<in>set (lr_rounds r). \<forall>t. int (length (filter (\<lambda>u. u \<le> t) (recent (ll_window (lr_lim r)) t fs))) <
        ll_maxAttempts (lr_lim r) + int c)"

definition limiter_inv :: "nat \<Rightarrow> string \<Rightarrow> limiter_run \<Rightarrow> bool" where
  "limiter_inv c key r \<longleftrightarrow> limiter_ok (lr_lim r) \<and> remembers key r \<and> few_failures c r \<and> locks key r \<and>
     rounds_bounded c r"

lemma limiter_inv_start: "limiter_ok l \<Longrightarrow> ll_states l = Map.empty \<Longrightarrow> limiter_inv c key (run_start l now)"
  by (auto simp: limiter_inv_def limiter_ok_def run_start_def remembers_def few_failures_def locks_def
      rounds_bounded_def recent_def state_of_def)

lemma limiter_inv_step: "login_step c key r r' \<Longrightarrow> limiter_inv c key r \<Longrightarrow> limiter_inv c key r'"
proof (induction rule: login_step.induct)
  case (Admit r now u l)
  note inv = Admit(4) [unfolded limiter_inv_def] and al = Admit(3)
  have "int (length (recent (ll_window (lr_lim r)) now (lr_failed r))) < ll_maxAttempts (lr_lim r)"
    using allow_effect(3) [OF al] remembers_recent [of key r now] inv Admit(1) by simp
  then have "few_failures c (r\<lparr>lr_lim := l, lr_pending := Suc (lr_pending r), lr_clock := now\<rparr>)"
    using inv Admit(1,2) by (intro few_later) (simp_all add: allow_config [OF al])
  moreover have "\<forall>t\<in>set (lr_failed r). t \<le> lr_clock r" using inv unfolding few_failures_def by simp
  ultimately show ?case
    using inv remembers_allow [OF _ Admit(1) al] locks_allow [OF _ Admit(1) _ al]
    unfolding limiter_inv_def limiter_ok_def rounds_bounded_def by (simp add: allow_config [OF al])
next
  case (Refuse r now u l)
  note inv = Refuse(3) [unfolded limiter_inv_def] and al = Refuse(2)
  have "length (recent (ll_window (lr_lim r)) now (lr_failed r)) \<le>
      length (recent (ll_window (lr_lim r)) (lr_clock r) (lr_failed r))"
    by (rule recent_shrinks [OF Refuse(1)])
  then have "few_failures c (r\<lparr>lr_lim := l, lr_pending := lr_pending r, lr_clock := now\<rparr>)"
    using inv Refuse(1) by (intro few_later) (simp_all add: allow_config [OF al] few_failures_def)
  moreover have "\<forall>t\<in>set (lr_failed r). t \<le> lr_clock r" using inv unfolding few_failures_def by simp
  ultimately show ?case
    using inv remembers_allow [OF _ Refuse(1) al, of "lr_pending r"] locks_allow [OF _ Refuse(1) _ al, of "lr_pending r"]
    unfolding limiter_inv_def limiter_ok_def rounds_bounded_def by (simp add: allow_config [OF al])
next
  case (Fail r now)
  note inv = Fail(3) [unfolded limiter_inv_def]
  let ?r = "r\<lparr>lr_lim := onFailure now key (lr_lim r), lr_pending := lr_pending r - 1,
    lr_failed := lr_failed r @ [now], lr_clock := now\<rparr>"
  have rec: "recent (ll_window (lr_lim r)) now (ls_fails (state_of (lr_lim r) key)) =
      recent (ll_window (lr_lim r)) now (lr_failed r)"
    using inv Fail(1) by (intro remembers_recent) simp_all
  have w: "0 < ll_window (lr_lim r)" using inv by (simp add: limiter_ok_def)
  have "remembers key ?r" unfolding remembers_def
    by (intro exI [of _ "now - ll_window (lr_lim r)"])
      (use w in \<open>simp add: limiter_config onFailure_effect recent_def rec [unfolded recent_def]\<close>)
  moreover have "locks key ?r" unfolding locks_def
    using w by (auto simp: limiter_config onFailure_effect rec recent_append)
  moreover have "few_failures c ?r"
    using inv Fail(1,2) by (intro few_fail) (simp_all add: limiter_config)
  ultimately show ?case using inv by (simp add: limiter_inv_def limiter_ok_def rounds_bounded_def limiter_config)
next
  case (Success r)
  then show ?case
    by (auto simp: limiter_inv_def limiter_ok_def remembers_def few_failures_def locks_def rounds_bounded_def
        limiter_config onSuccess_effect recent_def)
next
  case (Abort r)
  then show ?case
    by (auto simp: limiter_inv_def remembers_def few_failures_def locks_def rounds_bounded_def)
qed (simp_all add: limiter_inv_def limiter_ok_def remembers_def few_failures_def locks_def rounds_bounded_def
    limiter_other)

lemma limiter_inv_run: "(login_step c key)\<^sup>*\<^sup>* r r' \<Longrightarrow> limiter_inv c key r \<Longrightarrow> limiter_inv c key r'"
  by (induction rule: rtranclp_induct) (auto intro: limiter_inv_step)

lemma step_config:
  "login_step c key r r' \<Longrightarrow> ll_maxAttempts (lr_lim r') = ll_maxAttempts (lr_lim r) \<and>
     ll_window (lr_lim r') = ll_window (lr_lim r) \<and> ll_lockout (lr_lim r') = ll_lockout (lr_lim r)"
  by (induction rule: login_step.induct) (simp_all add: limiter_config allow_config)

lemma run_config:
  "(login_step c key)\<^sup>*\<^sup>* r r' \<Longrightarrow> ll_maxAttempts (lr_lim r') = ll_maxAttempts (lr_lim r) \<and>
     ll_window (lr_lim r') = ll_window (lr_lim r) \<and> ll_lockout (lr_lim r') = ll_lockout (lr_lim r)"
  by (induction rule: rtranclp_induct) (auto dest: step_config)

section \<open>What the limiter guarantees\<close>

text \<open>
  C22. Brute force is bounded. Of one key, when at most \<open>c\<close> attempts are under way at a time, every
  window of the configured length sees at most \<open>maxAttempts - 1 + c\<close> failed logins of a round
  (\<open>maxAttempts\<close> if attempts come one after another), whatever happens on other keys. A round ends
  with a success of the key, which resets the limiter: the bound is for the failures between two
  successes, not across them. Whenever \<open>allow\<close> says yes, fewer than \<open>maxAttempts\<close> failures of the
  current round are in the window; and if its last failure filled the window, the lockout has passed.
\<close>

theorem login_failures_bounded:
  assumes "(login_step c key)\<^sup>*\<^sup>* (run_start (newLoginLimiter m w d) t0) r"
  defines "l \<equiv> lr_lim r"
  shows "ll_maxAttempts l = (if m \<le> 0 then 5 else m) \<and> ll_window l = (if w \<le> 0 then 5 * minute else w) \<and>
    (\<forall>fs\<in>set (lr_failed r # lr_rounds r).
       int (length (filter (\<lambda>u. t - ll_window l < u \<and> u \<le> t) fs)) \<le> ll_maxAttempts l - 1 + int c) \<and>
    (\<forall>now u l'. lr_clock r \<le> now \<and> allow now key l = ((True, u), l') \<longrightarrow>
       int (length (recent (ll_window l) now (lr_failed r))) < ll_maxAttempts l \<and>
       (lr_failed r \<noteq> [] \<and> 0 < d \<and>
        ll_maxAttempts l \<le> int (length (recent (ll_window l) (last (lr_failed r)) (lr_failed r))) \<longrightarrow>
        last (lr_failed r) + d \<le> now))"
proof -
  have inv: "limiter_inv c key r"
    by (rule limiter_inv_run [OF assms(1)], rule limiter_inv_start [OF newLoginLimiter_ok])
      (simp add: newLoginLimiter_def)
  have conf: "ll_maxAttempts l = (if m \<le> 0 then 5 else m)" "ll_window l = (if w \<le> 0 then 5 * minute else w)"
    "ll_lockout l = (if d < 0 then 0 else d)"
    using run_config [OF assms(1)] by (simp_all add: l_def run_start_def newLoginLimiter_def)
  have bound: "int (length (filter (\<lambda>u. t - ll_window l < u \<and> u \<le> t) fs)) \<le> ll_maxAttempts l - 1 + int c"
    if "fs \<in> set (lr_failed r # lr_rounds r)" for fs
  proof -
    have "int (length (filter (\<lambda>u. u \<le> t) (recent (ll_window l) t fs))) < ll_maxAttempts l + int c"
      using inv that unfolding limiter_inv_def few_failures_def rounds_bounded_def l_def by auto
    then show ?thesis by (simp add: recent_def conj_commute)
  qed
  have yes: "int (length (recent (ll_window l) now (lr_failed r))) < ll_maxAttempts l \<and>
       (lr_failed r \<noteq> [] \<and> 0 < d \<and>
        ll_maxAttempts l \<le> int (length (recent (ll_window l) (last (lr_failed r)) (lr_failed r))) \<longrightarrow>
        last (lr_failed r) + d \<le> now)"
    if "lr_clock r \<le> now" and "allow now key l = ((True, u), l')" for now u l'
    using allow_effect(3,4) [OF that(2)] remembers_recent [of key r now] that(1) inv conf(3)
    unfolding limiter_inv_def locks_def l_def by (auto split: if_splits)
  show ?thesis using conf bound yes by blast
qed

text \<open>
  One attempt per five minutes: the first is admitted and succeeds, the second is admitted and fails,
  the third is refused.
\<close>

lemma login_failures_bounded_witness:
  "\<exists>r. (login_step 1 ''k'')\<^sup>*\<^sup>* (run_start (newLoginLimiter 1 300 60) 1000) r \<and>
     lr_failed r = [1002] \<and> lr_rounds r = [[]] \<and> \<not> fst (fst (allow 1010 ''k'' (lr_lim r))) \<and>
     length (filter (\<lambda>u. 1200 - 300 < u \<and> u \<le> 1200) (lr_failed r)) \<le> 1"
proof -
  let ?r0 = "run_start (newLoginLimiter 1 300 60) 1000"
  let ?admit = "\<lambda>r. r\<lparr>lr_lim := snd (allow 1001 ''k'' (lr_lim r)), lr_pending := Suc (lr_pending r), lr_clock := 1001\<rparr>"
  let ?r1 = "?admit ?r0"
  let ?r2 = "?r1\<lparr>lr_lim := onSuccess ''k'' (lr_lim ?r1), lr_pending := lr_pending ?r1 - 1, lr_failed := [],
    lr_rounds := lr_failed ?r1 # lr_rounds ?r1\<rparr>"
  let ?r3 = "?admit ?r2"
  let ?r4 = "?r3\<lparr>lr_lim := onFailure 1002 ''k'' (lr_lim ?r3), lr_pending := lr_pending ?r3 - 1,
    lr_failed := lr_failed ?r3 @ [1002], lr_clock := 1002\<rparr>"
  note [simp] = run_start_def newLoginLimiter_def allow_def onSuccess_def Let_def state_of_def recent_def put_state_def
  have "login_step 1 ''k'' ?r0 ?r1" by (rule login_step.Admit [where u = None]) simp_all
  moreover have "login_step 1 ''k'' ?r2 ?r3" by (rule login_step.Admit [where u = None]) simp_all
  moreover have "login_step 1 ''k'' ?r1 ?r2" by (rule login_step.Success) simp
  moreover have "login_step 1 ''k'' ?r3 ?r4" by (rule login_step.Fail) simp_all
  ultimately have "(login_step 1 ''k'')\<^sup>*\<^sup>* ?r0 ?r4" by (meson rtranclp.rtrancl_into_rtrancl rtranclp.rtrancl_refl)
  then obtain r where run: "(login_step 1 ''k'')\<^sup>*\<^sup>* ?r0 r"
    and r: "lr_failed r = [1002]" "lr_rounds r = [[]]" "lr_clock r = 1002"
    by (rule that) (simp_all add: run_start_def)
  note bound = login_failures_bounded [OF run]
  have conf: "ll_maxAttempts (lr_lim r) = 1" "ll_window (lr_lim r) = 300" using bound by simp_all
  have "\<not> fst (fst (allow 1010 ''k'' (lr_lim r)))"
  proof
    assume "fst (fst (allow 1010 ''k'' (lr_lim r)))"
    then obtain u l' where al: "allow 1010 ''k'' (lr_lim r) = ((True, u), l')"
      by (cases "allow 1010 ''k'' (lr_lim r)") auto
    have "int (length (recent (ll_window (lr_lim r)) 1010 (lr_failed r))) < ll_maxAttempts (lr_lim r)"
      using bound [THEN conjunct2, THEN conjunct2, THEN conjunct2, rule_format, of 1010 u l'] al r(3) by simp
    then show False using r conf by (simp add: recent_def)
  qed
  moreover have "length (filter (\<lambda>u. 1200 - 300 < u \<and> u \<le> 1200) (lr_failed r)) \<le> 1"
    using bound [of 1200] conf by simp
  ultimately show ?thesis using run r by blast
qed

end
