(* ===== verification/AuthStore.thy ===== *)
theory AuthStore
  imports Password LoginLimiter
begin

text \<open>
  The database of the auth service, \<open>services/auth-service/migrations\<close>, and the statements the
  gRPC server sends to it. A table is the list of its rows in insertion order; the columns no
  statement reads or sets (\<open>created_at\<close> of most tables) are left out. Primary keys, unique
  columns, foreign keys and \<open>on delete cascade\<close> are those of the migrations.
\<close>

section \<open>Tables\<close>

record auth_user =
  au_id :: id
  au_email :: string
  au_full_name :: string
  au_password_hash :: string

record refresh_session =
  rs_token_hash :: string
  rs_session_id :: string
  rs_user_id :: id
  rs_expires_at :: time
  rs_absolute_expires_at :: time
  rs_user_agent :: "string option"
  rs_ip :: "string option"
  rs_last_used_at :: "time option"
  rs_revoked_at :: "time option"
  rs_replaced_by_hash :: "string option"

record oauthClientRecord =
  oc_ID :: id
  oc_Name :: string
  oc_Type :: string
  oc_SecretHash :: "string option"
  oc_RedirectURIs :: "string list"
  oc_AllowedScopes :: "string list"

record oauth_client_row = oauthClientRecord +
  oc_created_at :: time

record oauth_code =
  ac_code_hash :: string
  ac_client_id :: id
  ac_user_id :: id
  ac_redirect_uri :: string
  ac_scopes :: "string list"
  ac_code_challenge :: string
  ac_code_challenge_method :: string
  ac_expires_at :: time
  ac_consumed_at :: "time option"

record oauth_consent =
  co_user_id :: id
  co_client_id :: id
  co_scopes :: "string list"

record consent_history =
  ch_id :: nat
  ch_user_id :: id
  ch_client_id :: id
  ch_scopes :: "string list"
  ch_created_at :: time

record auth_db =
  users :: "auth_user list"
  roles :: "(id \<times> string) list"
  permissions :: "(id \<times> string) list"
  user_roles :: "(id \<times> id) list"
  role_permissions :: "(id \<times> id) list"
  sessions :: "refresh_session list"
  oauth_clients :: "oauth_client_row list"
  codes :: "oauth_code list"
  consents :: "oauth_consent list"
  history :: "consent_history list"
  history_seq :: nat

text \<open>The database after all migrations: two roles and their permissions, nothing else.\<close>

definition migrated :: auth_db where
  "migrated =
     \<lparr>users = [], roles = [(''role_customer'', ''customer''), (''role_admin'', ''admin'')],
      permissions =
        [(''perm_account_read'', ''account:read''), (''perm_account_write'', ''account:write''),
         (''perm_ledger_read'', ''ledger:read''), (''perm_ledger_write'', ''ledger:write''),
         (''perm_auth_admin'', ''auth:admin'')],
      user_roles = [],
      role_permissions =
        [(''role_customer'', ''perm_account_read''), (''role_customer'', ''perm_account_write''),
         (''role_customer'', ''perm_ledger_read''), (''role_customer'', ''perm_ledger_write''),
         (''role_admin'', ''perm_auth_admin''), (''role_admin'', ''perm_account_read''),
         (''role_admin'', ''perm_account_write''), (''role_admin'', ''perm_ledger_read''),
         (''role_admin'', ''perm_ledger_write'')],
      sessions = [], oauth_clients = [], codes = [], consents = [], history = [], history_seq = 1\<rparr>"

text \<open>Rolling back keeps the \<open>bigserial\<close> counter.\<close>

definition auth_rb :: "auth_db \<Rightarrow> auth_db \<Rightarrow> auth_db" where
  "auth_rb d0 d1 = d0\<lparr>history_seq := history_seq d1\<rparr>"

definition foreign_key_violation :: "string \<Rightarrow> go_error" where
  "foreign_key_violation c =
     DbError (''ERROR: insert or update violates foreign key constraint '' @ c @ '' (SQLSTATE 23503)'')"

definition not_null_violation :: "string \<Rightarrow> go_error" where
  "not_null_violation c =
     DbError (''ERROR: null value in column '' @ c @ '' violates not-null constraint (SQLSTATE 23502)'')"

definition user_exists :: "id \<Rightarrow> auth_db \<Rightarrow> bool" where
  "user_exists u d \<longleftrightarrow> u \<in> au_id ` set (users d)"

definition role_exists :: "id \<Rightarrow> auth_db \<Rightarrow> bool" where
  "role_exists r d \<longleftrightarrow> r \<in> fst ` set (roles d)"

definition client_exists :: "id \<Rightarrow> auth_db \<Rightarrow> bool" where
  "client_exists c d \<longleftrightarrow> c \<in> oc_ID ` set (oauth_clients d)"

section \<open>Statements\<close>

text \<open>\<open>QueryRow(...).Scan(...)\<close>: no row is the error \<open>pgx.ErrNoRows\<close>.\<close>

definition ErrNoRows :: go_error where
  "ErrNoRows = ErrorString ''no rows in result set''"

definition queryRow :: "(auth_db \<Rightarrow> 'r option) \<Rightarrow> auth_db \<Rightarrow> go_error + 'r \<times> auth_db" where
  "queryRow q d = (case q d of None \<Rightarrow> Inl ErrNoRows | Some r \<Rightarrow> Inr (r, d))"

definition queryRows :: "(auth_db \<Rightarrow> 'r list) \<Rightarrow> auth_db \<Rightarrow> go_error + 'r list \<times> auth_db" where
  "queryRows q d = Inr (q d, d)"

subsection \<open>Users and roles\<close>

definition insert_user :: "auth_user \<Rightarrow> auth_db \<Rightarrow> go_error + unit \<times> auth_db" where
  "insert_user u d =
     (if au_id u \<in> au_id ` set (users d) then Inl (unique_violation ''auth_users_pkey'')
      else if au_email u \<in> au_email ` set (users d) then Inl (unique_violation ''auth_users_email_key'')
      else Inr ((), d\<lparr>users := users d @ [u]\<rparr>))"

definition insert_user_role :: "id \<Rightarrow> id \<Rightarrow> auth_db \<Rightarrow> go_error + unit \<times> auth_db" where
  "insert_user_role u r d =
     (if (u, r) \<in> set (user_roles d) then Inr ((), d)
      else if \<not> user_exists u d then Inl (foreign_key_violation ''auth_user_roles_user_id_fkey'')
      else if \<not> role_exists r d then Inl (foreign_key_violation ''auth_user_roles_role_id_fkey'')
      else Inr ((), d\<lparr>user_roles := user_roles d @ [(u, r)]\<rparr>))"

definition delete_user_role :: "id \<Rightarrow> id \<Rightarrow> auth_db \<Rightarrow> go_error + unit \<times> auth_db" where
  "delete_user_role u r d = Inr ((), d\<lparr>user_roles := filter (\<lambda>x. x \<noteq> (u, r)) (user_roles d)\<rparr>)"

definition role_id_of :: "string \<Rightarrow> auth_db \<Rightarrow> id option" where
  "role_id_of name d = map_option fst (find (\<lambda>r. snd r = name) (roles d))"

text \<open>\<open>auth_roles r join auth_user_roles ur on ur.role_id = r.id where ur.user_id = u\<close>.\<close>

definition role_names :: "id \<Rightarrow> auth_db \<Rightarrow> string list" where
  "role_names u d = [snd r. r \<leftarrow> roles d, ur \<leftarrow> user_roles d, snd ur = fst r \<and> fst ur = u]"

definition permission_names :: "id \<Rightarrow> auth_db \<Rightarrow> string list" where
  "permission_names u d =
     remdups [snd p. p \<leftarrow> permissions d, rp \<leftarrow> role_permissions d, ur \<leftarrow> user_roles d,
       snd rp = fst p \<and> snd ur = fst rp \<and> fst ur = u]"

subsection \<open>Refresh sessions\<close>

definition session_of :: "string \<Rightarrow> auth_db \<Rightarrow> refresh_session option" where
  "session_of h d = find (\<lambda>s. rs_token_hash s = h) (sessions d)"

definition insert_session :: "refresh_session \<Rightarrow> auth_db \<Rightarrow> go_error + unit \<times> auth_db" where
  "insert_session s d =
     (if rs_token_hash s \<in> rs_token_hash ` set (sessions d)
      then Inl (unique_violation ''auth_refresh_sessions_pkey'')
      else if \<not> user_exists (rs_user_id s) d
      then Inl (foreign_key_violation ''auth_refresh_sessions_user_id_fkey'')
      else Inr ((), d\<lparr>sessions := sessions d @ [s]\<rparr>))"

text \<open>\<open>update auth_refresh_sessions set ... where ...\<close>, returning the number of rows affected.\<close>

definition update_sessions ::
    "(refresh_session \<Rightarrow> bool) \<Rightarrow> (refresh_session \<Rightarrow> refresh_session) \<Rightarrow> auth_db \<Rightarrow> go_error + nat \<times> auth_db" where
  "update_sessions P f d =
     Inr (length (filter P (sessions d)), d\<lparr>sessions := map (\<lambda>s. if P s then f s else s) (sessions d)\<rparr>)"

definition delete_sessions :: "(refresh_session \<Rightarrow> bool) \<Rightarrow> auth_db \<Rightarrow> go_error + nat \<times> auth_db" where
  "delete_sessions P d =
     Inr (length (filter P (sessions d)), d\<lparr>sessions := filter (\<lambda>s. \<not> P s) (sessions d)\<rparr>)"

subsection \<open>OAuth clients, codes and consents\<close>

definition client_of :: "id \<Rightarrow> auth_db \<Rightarrow> oauth_client_row option" where
  "client_of c d = find (\<lambda>r. oc_ID r = c) (oauth_clients d)"

definition insert_client :: "oauthClientRecord \<Rightarrow> time \<Rightarrow> auth_db \<Rightarrow> go_error + unit \<times> auth_db" where
  "insert_client c now d =
     (if client_exists (oc_ID c) d then Inl (unique_violation ''oauth_clients_pkey'')
      else Inr ((), d\<lparr>oauth_clients := oauth_clients d @ [oauthClientRecord.extend c \<lparr>oc_created_at = now\<rparr>]\<rparr>))"

definition delete_client :: "id \<Rightarrow> auth_db \<Rightarrow> go_error + nat \<times> auth_db" where
  "delete_client c d =
     Inr (length (filter (\<lambda>r. oc_ID r = c) (oauth_clients d)),
       d\<lparr>oauth_clients := filter (\<lambda>r. oc_ID r \<noteq> c) (oauth_clients d),
         codes := filter (\<lambda>r. ac_client_id r \<noteq> c) (codes d),
         consents := filter (\<lambda>r. co_client_id r \<noteq> c) (consents d),
         history := filter (\<lambda>r. ch_client_id r \<noteq> c) (history d)\<rparr>)"

text \<open>\<open>order by created_at desc limit n\<close>; rows of equal time in insertion order.\<close>

definition latest_clients :: "nat \<Rightarrow> auth_db \<Rightarrow> oauth_client_row list" where
  "latest_clients n d = take n (sort_key (\<lambda>r. - oc_created_at r) (oauth_clients d))"

text \<open>
  A \<open>nil\<close> slice is sent as \<open>NULL\<close>, an empty one as an empty array: \<open>None\<close> and \<open>Some []\<close>. The
  array columns are \<open>not null\<close>.
\<close>

definition insert_code :: "oauth_code \<Rightarrow> string list option \<Rightarrow> auth_db \<Rightarrow> go_error + unit \<times> auth_db" where
  "insert_code c scopes d =
     (case scopes of
        None \<Rightarrow> Inl (not_null_violation ''scopes'')
      | Some ss \<Rightarrow>
          if ac_code_hash c \<in> ac_code_hash ` set (codes d) then Inl (unique_violation ''oauth_authorization_codes_pkey'')
          else if \<not> client_exists (ac_client_id c) d
          then Inl (foreign_key_violation ''oauth_authorization_codes_client_id_fkey'')
          else if \<not> user_exists (ac_user_id c) d
          then Inl (foreign_key_violation ''oauth_authorization_codes_user_id_fkey'')
          else Inr ((), d\<lparr>codes := codes d @ [c\<lparr>ac_scopes := ss\<rparr>]\<rparr>))"

definition code_of :: "string \<Rightarrow> id \<Rightarrow> auth_db \<Rightarrow> oauth_code option" where
  "code_of h c d = find (\<lambda>r. ac_code_hash r = h \<and> ac_client_id r = c) (codes d)"

definition consume_code :: "string \<Rightarrow> time \<Rightarrow> auth_db \<Rightarrow> go_error + nat \<times> auth_db" where
  "consume_code h t d =
     Inr (length (filter (\<lambda>r. ac_code_hash r = h \<and> ac_consumed_at r = None) (codes d)),
       d\<lparr>codes := map (\<lambda>r. if ac_code_hash r = h \<and> ac_consumed_at r = None
                         then r\<lparr>ac_consumed_at := Some t\<rparr> else r) (codes d)\<rparr>)"

definition consent_of :: "id \<Rightarrow> id \<Rightarrow> auth_db \<Rightarrow> string list option" where
  "consent_of u c d = map_option co_scopes (find (\<lambda>r. co_user_id r = u \<and> co_client_id r = c) (consents d))"

text \<open>\<open>insert ... on conflict (user_id, client_id) do update\<close>.\<close>

definition upsert_consent :: "id \<Rightarrow> id \<Rightarrow> string list option \<Rightarrow> auth_db \<Rightarrow> go_error + unit \<times> auth_db" where
  "upsert_consent u c scopes d =
     (case scopes of
        None \<Rightarrow> Inl (not_null_violation ''scopes'')
      | Some ss \<Rightarrow>
          if (u, c) \<in> (\<lambda>r. (co_user_id r, co_client_id r)) ` set (consents d)
          then Inr ((), d\<lparr>consents := map (\<lambda>r. if co_user_id r = u \<and> co_client_id r = c
                                            then r\<lparr>co_scopes := ss\<rparr> else r) (consents d)\<rparr>)
          else if \<not> user_exists u d then Inl (foreign_key_violation ''oauth_consents_user_id_fkey'')
          else if \<not> client_exists c d then Inl (foreign_key_violation ''oauth_consents_client_id_fkey'')
          else Inr ((), d\<lparr>consents := consents d @ [\<lparr>co_user_id = u, co_client_id = c, co_scopes = ss\<rparr>]\<rparr>))"

text \<open>A failing insert has already drawn its number, but the drawn numbers are never read.\<close>

definition insert_history :: "id \<Rightarrow> id \<Rightarrow> string list option \<Rightarrow> time \<Rightarrow> auth_db \<Rightarrow> go_error + unit \<times> auth_db" where
  "insert_history u c scopes now d =
     (case scopes of
        None \<Rightarrow> Inl (not_null_violation ''scopes'')
      | Some ss \<Rightarrow>
          if \<not> user_exists u d then Inl (foreign_key_violation ''oauth_consent_history_user_id_fkey'')
          else if \<not> client_exists c d then Inl (foreign_key_violation ''oauth_consent_history_client_id_fkey'')
          else Inr ((), d\<lparr>history := history d @
                   [\<lparr>ch_id = history_seq d, ch_user_id = u, ch_client_id = c, ch_scopes = ss, ch_created_at = now\<rparr>],
                 history_seq := Suc (history_seq d)\<rparr>))"

text \<open>\<open>order by created_at desc, id desc limit n\<close>.\<close>

definition latest_history :: "id \<Rightarrow> id \<Rightarrow> nat \<Rightarrow> auth_db \<Rightarrow> (string list \<times> time) list" where
  "latest_history u c n d =
     map (\<lambda>r. (ch_scopes r, ch_created_at r))
       (take n (sort_key (\<lambda>r. - ch_created_at r) (sort_key (\<lambda>r. - int (ch_id r))
         (filter (\<lambda>r. ch_user_id r = u \<and> ch_client_id r = c) (history d)))))"

end
