(* ===== verification/Tokens.thy ===== *)
theory Tokens
  imports Authz Base64
begin

text \<open>
  Access tokens, \<open>src/pkg/security/token.go\<close>, \<open>ed25519_jwt.go\<close>, \<open>ed25519_keys.go\<close> and \<open>jwks.go\<close>: the token
  maker that signs with an Ed25519 key, the published key set, and the verifier that fetches and
  caches it. The JWT library (\<open>golang-jwt\<close>) and \<open>crypto/ed25519\<close> are a parameter, the record
  \<open>jwt_lib\<close>; what the code relies on is \<open>jwt_lib_ok\<close>. The verifier's fields are the state of the
  world, its peer is the JWKS endpoint: the document or error a fetch now returns.
\<close>

section \<open>The JWT library\<close>

text \<open>\<open>jwtClaims\<close> with the registered claims in use; \<open>None\<close> is an absent date.\<close>

record jwtClaims =
  jc_Roles :: "string list"
  jc_Permissions :: "string list"
  jc_LSN :: "64 word"
  jc_Subject :: string
  jc_IssuedAt :: "time option"
  jc_ExpiresAt :: "time option"

text \<open>The JSON names of the members that are not those of the embedded \<open>jwt.RegisteredClaims\<close>.\<close>

definition jwtClaims_tags :: "string list" where
  "jwtClaims_tags = [''roles'', ''permissions'', ''lsn'']"

datatype jwt_error = ErrTokenExpired | ErrTokenOther

text \<open>
  Making a signed EdDSA token with a \<open>kid\<close> header; reading the header of a token (method and
  \<open>kid\<close>, \<open>None\<close> when it does not parse); verifying its signature under a key and validating its
  claims at a time; the public key of a private one; \<open>jwt.NewNumericDate\<close>.
\<close>

record jwt_lib =
  jl_Sign :: "string \<Rightarrow> string \<Rightarrow> jwtClaims \<Rightarrow> go_error + string"
  jl_Header :: "string \<Rightarrow> (bool \<times> string) option"
  jl_Verify :: "time \<Rightarrow> string \<Rightarrow> string \<Rightarrow> jwt_error + jwtClaims"
  jl_Public :: "string \<Rightarrow> string"
  jl_NumericDate :: "time \<Rightarrow> time"

definition PrivateKeySize :: nat where
  "PrivateKeySize = 64"

definition PublicKeySize :: nat where
  "PublicKeySize = 32"

text \<open>
  The documented behaviour: a token made by signing has the EdDSA method and the \<open>kid\<close> it was made
  with, verifies under the public key to the claims it was made with until they expire, and is
  reported as expired from then on. Public keys of private keys have the right size.
\<close>

definition jwt_lib_ok :: "jwt_lib \<Rightarrow> bool" where
  "jwt_lib_ok L \<longleftrightarrow>
     (\<forall>priv kid c tok now e. jl_Sign L priv kid c = Inr tok \<and> jc_ExpiresAt c = Some e \<longrightarrow>
        jl_Header L tok = Some (True, kid) \<and>
        jl_Verify L now (jl_Public L priv) tok = (if now < e then Inr c else Inl ErrTokenExpired)) \<and>
     (\<forall>priv. length priv = PrivateKeySize \<longrightarrow> length (jl_Public L priv) = PublicKeySize)"

section \<open>Making and verifying tokens\<close>

definition ErrInvalidToken :: go_error where
  "ErrInvalidToken = ErrorString ''invalid token''"

definition ErrExpiredToken :: go_error where
  "ErrExpiredToken = ErrorString ''expired token''"

record Ed25519JWTMaker =
  jm_kid :: string
  jm_priv :: string

definition NewEd25519JWTMaker :: "string \<Rightarrow> string \<Rightarrow> go_error + Ed25519JWTMaker" where
  "NewEd25519JWTMaker kid priv =
     (if kid = '''' then Inl (ErrorString ''kid required'')
      else if length priv \<noteq> PrivateKeySize then Inl (ErrorString ''invalid ed25519 private key'')
      else Inr \<lparr>jm_kid = kid, jm_priv = priv\<rparr>)"

definition CreateToken :: "jwt_lib \<Rightarrow> Ed25519JWTMaker \<Rightarrow> TokenPayload \<Rightarrow> go_error + string" where
  "CreateToken L maker payload =
     jl_Sign L (jm_priv maker) (jm_kid maker)
       \<lparr>jc_Roles = tp_Roles payload, jc_Permissions = tp_Permissions payload, jc_LSN = tp_LSN payload,
        jc_Subject = tp_UserID payload, jc_IssuedAt = Some (jl_NumericDate L (tp_IssuedAt payload)),
        jc_ExpiresAt = Some (jl_NumericDate L (tp_ExpiredAt payload))\<rparr>"

text \<open>
  \<open>verifyEd25519JWT\<close>. The key function runs between parsing and verification: it refuses other
  methods and asks \<open>lookup\<close>, which may change the state; all its errors are \<open>ErrInvalidToken\<close>.
\<close>

definition verifyEd25519JWT :: "jwt_lib \<Rightarrow> string \<Rightarrow> (string \<Rightarrow> ('d, 'p, string) go) \<Rightarrow> ('d, 'p, TokenPayload) go" where
  "verifyEd25519JWT L tokenStr lookup =
     (case jl_Header L tokenStr of
        None \<Rightarrow> throwE ErrInvalidToken
      | Some (eddsa, kid) \<Rightarrow>
          if \<not> eddsa then throwE ErrInvalidToken
          else bindE (tryE (lookup kid)) (\<lambda>r.
            case r of
              Inl _ \<Rightarrow> throwE ErrInvalidToken
            | Inr pub \<Rightarrow>
                bindE nowUTC (\<lambda>now.
                case jl_Verify L now pub tokenStr of
                  Inl ErrTokenExpired \<Rightarrow> throwE ErrExpiredToken
                | Inl ErrTokenOther \<Rightarrow> throwE ErrInvalidToken
                | Inr claims \<Rightarrow>
                    if jc_Subject claims = '''' then throwE ErrInvalidToken
                    else (case (jc_IssuedAt claims, jc_ExpiresAt claims) of
                      (Some iat, Some ex) \<Rightarrow>
                        returnE \<lparr>tp_UserID = jc_Subject claims, tp_Roles = jc_Roles claims,
                          tp_Permissions = jc_Permissions claims, tp_LSN = jc_LSN claims,
                          tp_IssuedAt = iat, tp_ExpiredAt = ex\<rparr>
                    | _ \<Rightarrow> throwE ErrInvalidToken))))"

definition maker_VerifyToken :: "jwt_lib \<Rightarrow> Ed25519JWTMaker \<Rightarrow> string \<Rightarrow> ('d, 'p, TokenPayload) go" where
  "maker_VerifyToken L maker tokenStr =
     verifyEd25519JWT L tokenStr (\<lambda>kid.
       if kid \<noteq> jm_kid maker then throwE ErrInvalidToken else returnE (jl_Public L (jm_priv maker)))"

section \<open>Keys\<close>

definition ParseEd25519PrivateKeyBase64URL :: "string \<Rightarrow> go_error + string" where
  "ParseEd25519PrivateKeyBase64URL s =
     (if s = '''' then Inl (ErrorString ''ed25519 private key required'')
      else (case decodeB64URL s of
        None \<Rightarrow> Inl (ErrorString ''illegal base64 data'')
      | Some b \<Rightarrow>
          if length b \<noteq> PrivateKeySize then Inl (ErrorString ''invalid ed25519 private key'') else Inr b))"

record JWK =
  jk_Kty :: string
  jk_Crv :: string
  jk_Kid :: string
  jk_Use :: string
  jk_Alg :: string
  jk_X :: string

definition Ed25519PublicJWK :: "string \<Rightarrow> string \<Rightarrow> go_error + JWK" where
  "Ed25519PublicJWK kid pub =
     (if kid = '''' then Inl (ErrorString ''kid required'')
      else if length pub \<noteq> PublicKeySize then Inl (ErrorString ''invalid ed25519 public key'')
      else Inr \<lparr>jk_Kty = ''OKP'', jk_Crv = ''Ed25519'', jk_Kid = kid, jk_Use = ''sig'', jk_Alg = ''EdDSA'',
                jk_X = encodeB64URL pub\<rparr>)"

section \<open>The caching verifier\<close>

text \<open>\<open>cached\<close> is never read. No document has been cached while \<open>jv_cachedKeys\<close> is \<open>None\<close>.\<close>

record JWKSVerifier =
  jv_cacheTTL :: duration
  jv_cachedAt :: time
  jv_cachedKeys :: "(string \<rightharpoonup> string) option"

type_synonym jwks_endpoint = "go_error + JWK list"

type_synonym 'a jwks_go = "(JWKSVerifier, jwks_endpoint, 'a) go"

definition NewJWKSVerifier :: "string \<Rightarrow> duration \<Rightarrow> go_error + JWKSVerifier" where
  "NewJWKSVerifier jwksURL cacheTTL =
     (if jwksURL = '''' then Inl (ErrorString ''jwks url required'')
      else Inr \<lparr>jv_cacheTTL = (if cacheTTL \<le> 0 then 5 * minute else cacheTTL), jv_cachedAt = 0, jv_cachedKeys = None\<rparr>)"

definition getCachedKey :: "string \<Rightarrow> JWKSVerifier \<Rightarrow> string option" where
  "getCachedKey kid v = (case jv_cachedKeys v of None \<Rightarrow> None | Some keys \<Rightarrow> keys kid)"

text \<open>The loop over the keys of the document; later keys of the same \<open>kid\<close> win.\<close>

definition usable_key :: "JWK \<Rightarrow> (string \<times> string) option" where
  "usable_key k =
     (if jk_Kty k \<noteq> ''OKP'' \<or> jk_Crv k \<noteq> ''Ed25519'' \<or> jk_Kid k = '''' \<or> jk_X k = '''' then None
      else (case decodeB64URL (jk_X k) of
        None \<Rightarrow> None
      | Some pub \<Rightarrow> if length pub \<noteq> PublicKeySize then None else Some (jk_Kid k, pub)))"

primrec collect_keys :: "JWK list \<Rightarrow> (string \<times> string) list" where
  "collect_keys [] = []"
| "collect_keys (k # ks) = (case usable_key k of None \<Rightarrow> collect_keys ks | Some p \<Rightarrow> collect_keys ks @ [p])"

definition jwks_stale :: "time \<Rightarrow> JWKSVerifier \<Rightarrow> bool" where
  "jwks_stale now v \<longleftrightarrow> jv_cachedKeys v = None \<or> now - jv_cachedAt v \<ge> jv_cacheTTL v"

definition readV :: "(JWKSVerifier \<Rightarrow> 'a) \<Rightarrow> 'a jwks_go" where
  "readV f = (\<lambda>w. (Inr (f (db w)), w))"

definition writeV :: "(JWKSVerifier \<Rightarrow> JWKSVerifier) \<Rightarrow> unit jwks_go" where
  "writeV f = (\<lambda>w. (Inr (), w\<lparr>db := f (db w)\<rparr>))"

definition jwks_refresh :: "unit jwks_go" where
  "jwks_refresh =
     bindE nowUTC (\<lambda>now.
     bindE (readV (jwks_stale now)) (\<lambda>isStale.
     if \<not> isStale then returnE ()
     else
       bindE (callPeer (\<lambda>p. (p, p))) (\<lambda>jwks.
       let keys = collect_keys jwks in
       if keys = [] then throwE (ErrorString ''jwks contains no usable keys'')
       else bindE nowUTC (\<lambda>at. writeV (\<lambda>v. v\<lparr>jv_cachedAt := at, jv_cachedKeys := Some (map_of keys)\<rparr>)))))"

definition lookupKey :: "string \<Rightarrow> string jwks_go" where
  "lookupKey kid =
     (if kid = '''' then throwE ErrInvalidToken
      else
        bindE nowUTC (\<lambda>now.
        bindE (readV (jwks_stale now)) (\<lambda>isStale.
        bindE (if isStale then tryE jwks_refresh else returnE (Inr ())) (\<lambda>r.
        bindE (readV (getCachedKey kid)) (\<lambda>found.
        case found of
          Some key \<Rightarrow> returnE key
        | None \<Rightarrow> (case r of Inl err \<Rightarrow> throwE err | Inr _ \<Rightarrow> throwE ErrInvalidToken))))))"

definition jwks_VerifyToken :: "jwt_lib \<Rightarrow> string \<Rightarrow> TokenPayload jwks_go" where
  "jwks_VerifyToken L tok = verifyEd25519JWT L tok lookupKey"

definition jwks_CreateToken :: "TokenPayload \<Rightarrow> go_error + string" where
  "jwks_CreateToken payload = Inl (ErrorString ''CreateToken not supported'')"

section \<open>What the verifiers accept\<close>

text \<open>The keys a document offers, as the map the verifier builds from it.\<close>

definition offered :: "JWK list \<Rightarrow> string \<rightharpoonup> string" where
  "offered jwks = map_of (collect_keys jwks)"

lemma published_key_usable:
  "Ed25519PublicJWK kid pub = Inr jwk \<Longrightarrow> usable_key jwk = Some (kid, pub)"
proof -
  assume "Ed25519PublicJWK kid pub = Inr jwk"
  then have j: "kid \<noteq> ''''" "length pub = PublicKeySize"
      "jwk = \<lparr>jk_Kty = ''OKP'', jk_Crv = ''Ed25519'', jk_Kid = kid, jk_Use = ''sig'', jk_Alg = ''EdDSA'',
         jk_X = encodeB64URL pub\<rparr>"
    by (simp_all add: Ed25519PublicJWK_def split: if_split_asm)
  then have "pub \<noteq> []" by (auto simp: PublicKeySize_def)
  then have "encodeB64URL pub \<noteq> []" "decodeB64URL (encodeB64URL pub) = Some pub"
    by (simp_all add: encodeB64URL_def decodeB64URL_def decode_encode length_encode)
  with j show ?thesis by (simp add: usable_key_def)
qed

lemma offered_published: "Ed25519PublicJWK kid pub = Inr jwk \<Longrightarrow> offered [jwk] = [kid \<mapsto> pub]"
  by (simp add: offered_def published_key_usable)

text \<open>
  A refresh of a stale cache: the endpoint's failure or a document without a usable key leaves the
  cache as it is; any other document replaces it.
\<close>

lemma jwks_refresh_stale:
  assumes "jwks_stale (clock w (tick w)) (db w)"
  shows "jwks_refresh w =
     (case peer w of
        Inl e \<Rightarrow> (Inl e, w\<lparr>tick := Suc (tick w)\<rparr>)
      | Inr jwks \<Rightarrow>
          if collect_keys jwks = [] then
            (Inl (ErrorString ''jwks contains no usable keys''), w\<lparr>tick := Suc (tick w)\<rparr>)
          else (Inr (), w\<lparr>tick := Suc (Suc (tick w)),
                  db := (db w)\<lparr>jv_cachedAt := clock w (Suc (tick w)), jv_cachedKeys := Some (offered jwks)\<rparr>\<rparr>))"
  using assms
  by (cases "peer w") (simp_all add: jwks_refresh_def bindE_def nowUTC_def readV_def writeV_def callPeer_def
      throwE_def Let_def offered_def)

definition cached_or :: "go_error \<Rightarrow> string \<Rightarrow> JWKSVerifier \<Rightarrow> go_error + string" where
  "cached_or e kid v = (case getCachedKey kid v of None \<Rightarrow> Inl e | Some k \<Rightarrow> Inr k)"

lemma lookupKey_fresh:
  assumes "kid \<noteq> ''''" and "\<not> jwks_stale (clock w (tick w)) (db w)"
  shows "lookupKey kid w = (cached_or ErrInvalidToken kid (db w), w\<lparr>tick := Suc (tick w)\<rparr>)"
  using assms
  by (simp add: lookupKey_def bindE_def nowUTC_def readV_def returnE_def throwE_def cached_or_def split: option.split)

lemma lookupKey_stale:
  assumes "kid \<noteq> ''''" and "jwks_stale (clock w (tick w)) (db w)" and "clock w (tick w) \<le> clock w (Suc (tick w))"
  shows "fst (lookupKey kid w) =
     (case peer w of
        Inl e \<Rightarrow> cached_or e kid (db w)
      | Inr jwks \<Rightarrow>
          if collect_keys jwks = [] then cached_or (ErrorString ''jwks contains no usable keys'') kid (db w)
          else (case offered jwks kid of None \<Rightarrow> Inl ErrInvalidToken | Some k \<Rightarrow> Inr k))"
proof -
  have s: "jwks_stale (clock w (Suc (tick w))) (db w)"
    using assms(2,3) by (auto simp: jwks_stale_def)
  show ?thesis
    using assms(1,2) s jwks_refresh_stale [of "w\<lparr>tick := Suc (tick w)\<rparr>"]
    by (auto simp: lookupKey_def bindE_def tryE_def nowUTC_def readV_def returnE_def throwE_def cached_or_def
        getCachedKey_def split: option.split sum.split)
qed

text \<open>
  The keys the caching verifier serves. While the cached document is younger than the
  time-to-live it answers from it alone; from then on it fetches. A fetched document with at least
  one usable key decides by itself, so a key that has been withdrawn is refused. Only when the fetch
  fails, or the document has no usable key, does the old document still answer, whatever its age.
\<close>

theorem jwks_lookup_answers:
  assumes "kid \<noteq> ''''" and "clock w (tick w) \<le> clock w (Suc (tick w))"
  shows "fst (lookupKey kid w) =
     (if \<not> jwks_stale (clock w (tick w)) (db w) then cached_or ErrInvalidToken kid (db w)
      else case peer w of
        Inl e \<Rightarrow> cached_or e kid (db w)
      | Inr jwks \<Rightarrow>
          if collect_keys jwks = [] then cached_or (ErrorString ''jwks contains no usable keys'') kid (db w)
          else (case offered jwks kid of None \<Rightarrow> Inl ErrInvalidToken | Some k \<Rightarrow> Inr k))"
  using assms by (simp add: lookupKey_fresh lookupKey_stale)

definition dated :: "jwt_lib \<Rightarrow> TokenPayload \<Rightarrow> TokenPayload" where
  "dated L p = p\<lparr>tp_IssuedAt := jl_NumericDate L (tp_IssuedAt p), tp_ExpiredAt := jl_NumericDate L (tp_ExpiredAt p)\<rparr>"

text \<open>Verification of a made token under its own key, when the lookup gives that key.\<close>

lemma verify_made_token:
  assumes L: "jwt_lib_ok L" and c: "CreateToken L maker p = Inr tok" and u: "tp_UserID p \<noteq> ''''"
    and l: "lookup (jm_kid maker) w = (Inr (jl_Public L (jm_priv maker)), w')"
  shows "fst (verifyEd25519JWT L tok lookup w) =
     (if clock w' (tick w') < jl_NumericDate L (tp_ExpiredAt p) then Inr (dated L p) else Inl ErrExpiredToken)"
proof -
  let ?c = "\<lparr>jc_Roles = tp_Roles p, jc_Permissions = tp_Permissions p, jc_LSN = tp_LSN p,
        jc_Subject = tp_UserID p, jc_IssuedAt = Some (jl_NumericDate L (tp_IssuedAt p)),
        jc_ExpiresAt = Some (jl_NumericDate L (tp_ExpiredAt p))\<rparr>"
  have s: "jl_Sign L (jm_priv maker) (jm_kid maker) ?c = Inr tok"
    using c by (simp add: CreateToken_def)
  have h: "jl_Header L tok = Some (True, jm_kid maker)"
    and v: "jl_Verify L now (jl_Public L (jm_priv maker)) tok =
       (if now < jl_NumericDate L (tp_ExpiredAt p) then Inr ?c else Inl ErrTokenExpired)" for now
    using L s unfolding jwt_lib_ok_def by force+
  show ?thesis
    using u h l v by (simp add: verifyEd25519JWT_def bindE_def tryE_def nowUTC_def throwE_def returnE_def dated_def)
qed

lemma verify_unknown_key:
  assumes "jl_Header L tok = Some (True, kid)" and "lookup kid w = (Inl e, w')"
  shows "fst (verifyEd25519JWT L tok lookup w) = Inl ErrInvalidToken"
  using assms by (simp add: verifyEd25519JWT_def bindE_def tryE_def throwE_def)

text \<open>A fresh verifier fetches the published key and keeps it.\<close>

lemma lookup_published:
  assumes "NewJWKSVerifier url ttl = Inr v" and "Ed25519PublicJWK kid pub = Inr jwk"
    and "db w = v" and "peer w = Inr [jwk]"
  shows "lookupKey kid w = (Inr pub, w\<lparr>tick := tick w + 3,
      db := v\<lparr>jv_cachedAt := clock w (tick w + 2), jv_cachedKeys := Some [kid \<mapsto> pub]\<rparr>\<rparr>)"
proof -
  have n: "jwks_stale now v" for now
    using assms(1) by (auto simp: NewJWKSVerifier_def jwks_stale_def split: if_splits)
  have "kid \<noteq> []"
    using assms(2) by (auto simp: Ed25519PublicJWK_def split: if_splits)
  moreover have "collect_keys [jwk] \<noteq> []"
    using published_key_usable [OF assms(2)] by simp
  ultimately show ?thesis
    using n assms(3,4) offered_published [OF assms(2)] jwks_refresh_stale [of "w\<lparr>tick := Suc (tick w)\<rparr>"]
    by (simp add: lookupKey_def bindE_def tryE_def nowUTC_def readV_def returnE_def getCachedKey_def
        del: collect_keys.simps)
qed

text \<open>
  C26. A token the identity service makes is accepted by every service that fetches its published key
  set, and by the maker itself: until the expiry (cut to the second by the JWT library) both return
  the user, roles, permissions and log position it was made with, and from then on both report it
  expired.
\<close>

theorem token_roundtrip:
  assumes "jwt_lib_ok L" and "NewEd25519JWTMaker kid priv = Inr maker"
    and "Ed25519PublicJWK kid (jl_Public L priv) = Inr jwk" and "NewJWKSVerifier url ttl = Inr v"
    and "CreateToken L maker p = Inr tok" and "tp_UserID p \<noteq> ''''"
    and "db w = v" and "peer w = Inr [jwk]"
  shows "fst (maker_VerifyToken L maker tok w) =
           (if clock w (tick w) < jl_NumericDate L (tp_ExpiredAt p) then Inr (dated L p) else Inl ErrExpiredToken)
       \<and> fst (jwks_VerifyToken L tok w) =
           (if clock w (tick w + 3) < jl_NumericDate L (tp_ExpiredAt p) then Inr (dated L p) else Inl ErrExpiredToken)"
proof -
  have m: "maker = \<lparr>jm_kid = kid, jm_priv = priv\<rparr>" "kid \<noteq> ''''"
    using assms(2) by (auto simp: NewEd25519JWTMaker_def split: if_splits)
  have own: "fst (maker_VerifyToken L maker tok w) =
     (if clock w (tick w) < jl_NumericDate L (tp_ExpiredAt p) then Inr (dated L p) else Inl ErrExpiredToken)"
    unfolding maker_VerifyToken_def using assms(1,5,6) by (rule verify_made_token) (simp add: returnE_def)
  from lookup_published [OF assms(4,3,7,8)] m
  have "lookupKey (jm_kid maker) w = (Inr (jl_Public L (jm_priv maker)), w\<lparr>tick := tick w + 3,
      db := v\<lparr>jv_cachedAt := clock w (tick w + 2), jv_cachedKeys := Some [kid \<mapsto> jl_Public L priv]\<rparr>\<rparr>)"
    by simp
  from verify_made_token [where lookup = lookupKey, OF assms(1,5,6) this]
  have "fst (jwks_VerifyToken L tok w) =
     (if clock w (tick w + 3) < jl_NumericDate L (tp_ExpiredAt p) then Inr (dated L p) else Inl ErrExpiredToken)"
    by (simp add: jwks_VerifyToken_def)
  with own show ?thesis by simp
qed


section \<open>Concrete runs\<close>

text \<open>A library that signs the claims of one token, for one key.\<close>

definition demo_priv :: string where
  "demo_priv = replicate 64 (CHR ''s'')"

definition demo_pub :: string where
  "demo_pub = replicate 32 (CHR ''p'')"

definition demo_payload :: TokenPayload where
  "demo_payload = \<lparr>tp_UserID = ''u1'', tp_Roles = [''user''], tp_Permissions = [''ledger:read''], tp_LSN = 7,
     tp_IssuedAt = 0, tp_ExpiredAt = 900\<rparr>"

definition demo_claims :: jwtClaims where
  "demo_claims = \<lparr>jc_Roles = [''user''], jc_Permissions = [''ledger:read''], jc_LSN = 7,
     jc_Subject = ''u1'', jc_IssuedAt = Some 0, jc_ExpiresAt = Some 900\<rparr>"

definition demo_jwt :: jwt_lib where
  "demo_jwt = \<lparr>
     jl_Sign = (\<lambda>priv kid c. if kid = ''k'' \<and> c = demo_claims then Inr ''e30.e30.sig'' else Inl (ErrorString ''jwt'')),
     jl_Header = (\<lambda>tok. if tok = ''e30.e30.sig'' then Some (True, ''k'') else None),
     jl_Verify = (\<lambda>now pub tok. if tok \<noteq> ''e30.e30.sig'' \<or> pub \<noteq> demo_pub then Inl ErrTokenOther
        else if now < 900 then Inr demo_claims else Inl ErrTokenExpired),
     jl_Public = (\<lambda>_. demo_pub),
     jl_NumericDate = (\<lambda>t. t)\<rparr>"

lemma demo_jwt_ok: "jwt_lib_ok demo_jwt"
  by (auto simp: jwt_lib_ok_def demo_jwt_def demo_claims_def demo_pub_def PublicKeySize_def split: if_splits)

definition demo_jwk :: JWK where
  "demo_jwk = \<lparr>jk_Kty = ''OKP'', jk_Crv = ''Ed25519'', jk_Kid = ''k'', jk_Use = ''sig'', jk_Alg = ''EdDSA'',
     jk_X = encodeB64URL demo_pub\<rparr>"

definition demo_verifier :: JWKSVerifier where
  "demo_verifier = \<lparr>jv_cacheTTL = 5 * minute, jv_cachedAt = 0, jv_cachedKeys = None\<rparr>"

definition demo_world :: "(JWKSVerifier, jwks_endpoint) world" where
  "demo_world = \<lparr>db = demo_verifier, peer = Inr [demo_jwk], clock = int, uuid = (\<lambda>_. ''''),
     fault = (\<lambda>_. None), tick = 0, txtime = None\<rparr>"

lemma demo_facts:
  "NewEd25519JWTMaker ''k'' demo_priv = Inr \<lparr>jm_kid = ''k'', jm_priv = demo_priv\<rparr>"
  "Ed25519PublicJWK ''k'' (jl_Public demo_jwt demo_priv) = Inr demo_jwk"
  "NewJWKSVerifier ''http://identity/.well-known/jwks.json'' 0 = Inr demo_verifier"
  "CreateToken demo_jwt \<lparr>jm_kid = ''k'', jm_priv = demo_priv\<rparr> demo_payload = Inr ''e30.e30.sig''"
  by (simp_all add: NewEd25519JWTMaker_def PrivateKeySize_def demo_priv_def Ed25519PublicJWK_def demo_jwt_def
      demo_pub_def PublicKeySize_def demo_jwk_def NewJWKSVerifier_def demo_verifier_def CreateToken_def
      demo_payload_def demo_claims_def)

theorem token_roundtrip_witness:
  "jwt_lib_ok demo_jwt \<and> fst (jwks_VerifyToken demo_jwt ''e30.e30.sig'' demo_world) = Inr demo_payload"
  using token_roundtrip [OF demo_jwt_ok demo_facts, of demo_world] demo_jwt_ok
  by (simp add: demo_world_def demo_payload_def demo_jwt_def dated_def)

theorem jwks_lookup_answers_witness:
  "fst (lookupKey ''k'' demo_world) = Inr demo_pub"
  using jwks_lookup_answers [of "''k''" demo_world] offered_published [OF demo_facts(2)]
    published_key_usable [OF demo_facts(2)]
  by (simp add: demo_world_def demo_verifier_def jwks_stale_def demo_jwt_def)

end
