(* ===== verification/AuthServer.thy ===== *)
theory AuthServer
  imports AuthStore Tokens
begin

text \<open>
  The gRPC server of the auth service, \<open>infrastructure/grpc/server.go\<close> and \<open>cleanup.go\<close>: users and
  logins, refresh sessions, roles, and the OAuth authorization code flow. The world holds the
  database of \<open>AuthStore\<close>; its peer is the login limiter, \<open>None\<close> for a server made by \<open>NewServer\<close>.
  Parameters, in the record \<open>auth_env\<close>: the token maker (an interface), Argon2id, SHA-256, the
  standard library's \<open>url.Parse\<close>, \<open>mail.ParseAddress\<close> and Unicode case mapping, and the collation
  behind \<open>order by\<close>. Tracing spans and response headers are left out.
\<close>

section \<open>Errors and helpers\<close>

definition invalidArg :: "string \<Rightarrow> go_error" where
  "invalidArg msg = Status InvalidArgument msg"

definition unauth :: "string \<Rightarrow> go_error" where
  "unauth msg = Status Unauthenticated msg"

definition forbidden :: "string \<Rightarrow> go_error" where
  "forbidden msg = Status PermissionDenied msg"

definition notFound :: "string \<Rightarrow> go_error" where
  "notFound msg = Status NotFound msg"

definition rateLimited :: "string \<Rightarrow> go_error" where
  "rateLimited msg = Status ResourceExhausted msg"

definition oauthInvalidClient :: go_error where
  "oauthInvalidClient = unauth ''invalid_client''"

definition oauthInvalidGrant :: go_error where
  "oauthInvalidGrant = Status InvalidArgument ''invalid_grant''"

text \<open>An error that a function returns; a panic unwinds past the code that would report it.\<close>

definition internal :: "go_error \<Rightarrow> go_error" where
  "internal err = (case err of Panic m \<Rightarrow> Panic m | _ \<Rightarrow> Status Internal (Error_text err))"

text \<open>\<open>if err != nil { return nil, f(err) }\<close>.\<close>

definition mapErr :: "(go_error \<Rightarrow> go_error) \<Rightarrow> ('d, 'p, 'a) go \<Rightarrow> ('d, 'p, 'a) go" where
  "mapErr f m = (\<lambda>w. case m w of (Inl e, w') \<Rightarrow> (Inl (f e), w') | (Inr x, w') \<Rightarrow> (Inr x, w'))"

definition internalE :: "('d, 'p, 'a) go \<Rightarrow> ('d, 'p, 'a) go" where
  "internalE m = mapErr internal m"

text \<open>\<open>if errors.Is(err, pgx.ErrNoRows) { return nil, e }; return nil, internal(err)\<close>.\<close>

definition noRowsE :: "go_error \<Rightarrow> ('d, 'p, 'a) go \<Rightarrow> ('d, 'p, 'a) go" where
  "noRowsE e m = mapErr (\<lambda>err. if err = ErrNoRows then e else internal err) m"

text \<open>
  \<open>tx, err := s.db.Begin(ctx)\<close>, the deferred rollback and \<open>tx.Commit(ctx)\<close>: errors of begin and
  commit are internal ones, an error the body returns is returned as it is (the bodies turn every
  database error into a status themselves).
\<close>

definition txE :: "(auth_db, 'p, 'a) go \<Rightarrow> (auth_db, 'p, 'a) go" where
  "txE body = mapErr (\<lambda>err. case err of DbError _ \<Rightarrow> internal err | _ \<Rightarrow> err) (withTx auth_rb body)"

fun errors_Is :: "go_error \<Rightarrow> go_error \<Rightarrow> bool" where
  "errors_Is (Wrapped m e) target \<longleftrightarrow> Wrapped m e = target \<or> errors_Is e target"
| "errors_Is e target \<longleftrightarrow> e = target"

text \<open>A parsed URL: its scheme, host and fragment, and the URL with \<open>code\<close> and \<open>state\<close> set in the query.\<close>

record url =
  ur_Scheme :: string
  ur_Host :: string
  ur_Fragment :: string
  ur_with :: "string \<Rightarrow> string option \<Rightarrow> string"

record auth_env =
  ae_CreateToken :: "TokenPayload \<Rightarrow> go_error + string"
  ae_VerifyToken :: "time \<Rightarrow> string \<Rightarrow> go_error + TokenPayload"
  ae_argon2 :: argon2
  ae_sha256 :: "string \<Rightarrow> string"
  ae_url_Parse :: "string \<Rightarrow> url option"
  ae_ParseAddress :: "string \<Rightarrow> bool"
  ae_ToLower :: "string \<Rightarrow> string"
  ae_ToUpper :: "string \<Rightarrow> string"
  ae_order :: "string list \<Rightarrow> string list"
  ae_accessTTL :: duration
  ae_refreshTTL :: duration

type_synonym 'a auth_go = "(auth_db, loginLimiter option, 'a) go"

text \<open>\<open>rand.Read\<close> into a slice of \<open>n\<close> bytes, from the world's source of fresh values.\<close>

definition rand_bytes :: "nat \<Rightarrow> string \<Rightarrow> string" where
  "rand_bytes n src = take n (src @ replicate n (CHR 0x00))"

definition randRead :: "nat \<Rightarrow> string auth_go" where
  "randRead n = (\<lambda>w.
     let w1 = w\<lparr>tick := Suc (tick w)\<rparr> in
     case fault w (tick w) of
       Some m \<Rightarrow> (Inl (ErrorString m), w1)
     | None \<Rightarrow> (Inr (rand_bytes n (uuid w (tick w))), w1))"

definition randomB64URL :: "int \<Rightarrow> string auth_go" where
  "randomB64URL n =
     (let n = (if n \<le> 0 then 32 else n)
      in bindE (randRead (nat n)) (\<lambda>b. returnE (EncodeToString RawURLEncoding b)))"

definition newRefreshToken :: "string auth_go" where
  "newRefreshToken = bindE (randRead 32) (\<lambda>b. returnE (EncodeToString RawURLEncoding b))"

definition GenerateSecret :: "nat \<Rightarrow> string auth_go" where
  "GenerateSecret n = bindE (wrapE ''read random'' (randRead n)) (\<lambda>b. returnE (EncodeToString RawURLEncoding b))"

definition hashB64URLSHA256 :: "auth_env \<Rightarrow> string \<Rightarrow> string" where
  "hashB64URLSHA256 E s = EncodeToString RawURLEncoding (ae_sha256 E s)"

definition HashRefreshToken :: "auth_env \<Rightarrow> string \<Rightarrow> string" where
  "HashRefreshToken E token = EncodeToString RawURLEncoding (ae_sha256 E (TrimSpace token))"

definition hashPassword :: "auth_env \<Rightarrow> string \<Rightarrow> string auth_go" where
  "hashPassword E password =
     (if TrimSpace password = '''' then throwE (ErrorString ''password required'')
      else bindE (tryE (randRead 16)) (\<lambda>salt. liftE (HashPassword (ae_argon2 E) salt password)))"

definition verifyToken :: "auth_env \<Rightarrow> string \<Rightarrow> TokenPayload auth_go" where
  "verifyToken E tok = bindE nowUTC (\<lambda>now. liftE (ae_VerifyToken E now tok))"

text \<open>An error of \<open>VerifyToken\<close> at the callers.\<close>

definition tokenErr :: "go_error \<Rightarrow> go_error" where
  "tokenErr err =
     (if errors_Is err ErrExpiredToken \<or> errors_Is err ErrInvalidToken then unauth ''invalid access token''
      else internal err)"

text \<open>\<open>md.Get("authorization")\<close> of the incoming metadata, then \<open>md.Get("Authorization")\<close>.\<close>

definition authorization_values :: "call_ctx \<Rightarrow> string list" where
  "authorization_values ctx =
     (case cc_metadata ctx of
        None \<Rightarrow> []
      | Some md \<Rightarrow> (case MD_Get md ''authorization'' of [] \<Rightarrow> MD_Get md ''Authorization'' | vs \<Rightarrow> vs))"

text \<open>The two ways the code reads a bearer token: with the scheme as it is, or in any case.\<close>

definition bearer_exact :: "call_ctx \<Rightarrow> string" where
  "bearer_exact ctx =
     (case authorization_values ctx of
        [] \<Rightarrow> ''''
      | val # _ \<Rightarrow>
          let v = TrimSpace val
          in if HasPrefix v ''Bearer '' then TrimSpace (TrimPrefix v ''Bearer '') else '''')"

definition bearer_any_case :: "call_ctx \<Rightarrow> string" where
  "bearer_any_case ctx =
     (case authorization_values ctx of
        [] \<Rightarrow> ''''
      | val # _ \<Rightarrow>
          let v = TrimSpace val
          in if HasPrefix (ToLower v) ''bearer '' then TrimSpace (drop 7 v) else '''')"

definition userIDFromAuthHeader :: "auth_env \<Rightarrow> call_ctx \<Rightarrow> id auth_go" where
  "userIDFromAuthHeader E ctx =
     (let accessToken = bearer_exact ctx in
      if accessToken = '''' then throwE (unauth ''access token required'')
      else bindE (mapErr tokenErr (verifyToken E accessToken)) (\<lambda>payload.
        if TrimSpace (tp_UserID payload) = '''' then throwE (unauth ''invalid access token'')
        else returnE (tp_UserID payload)))"

definition requirePermissionFromAuthHeader :: "auth_env \<Rightarrow> call_ctx \<Rightarrow> string \<Rightarrow> unit auth_go" where
  "requirePermissionFromAuthHeader E ctx required =
     (let accessToken = bearer_any_case ctx in
      if accessToken = '''' then throwE (unauth ''access token required'')
      else bindE (mapErr tokenErr (verifyToken E accessToken)) (\<lambda>payload.
        if required \<in> set (tp_Permissions payload) then returnE () else throwE (forbidden ''forbidden'')))"

text \<open>\<open>strings.SplitN(s, ":", 2)\<close>, when there is a colon.\<close>

definition split_colon :: "string \<Rightarrow> (string \<times> string) option" where
  "split_colon s =
     (case dropWhile (\<lambda>c. c \<noteq> CHR '':'') s of
        [] \<Rightarrow> None
      | _ # r \<Rightarrow> Some (takeWhile (\<lambda>c. c \<noteq> CHR '':'') s, r))"

definition basicAuthFromMetadata :: "call_ctx \<Rightarrow> (string \<times> string) option" where
  "basicAuthFromMetadata ctx =
     (case authorization_values ctx of
        [] \<Rightarrow> None
      | val # _ \<Rightarrow>
          let v = TrimSpace val in
          if \<not> HasPrefix v ''Basic '' then None
          else (case DecodeString StdEncoding (TrimSpace (TrimPrefix v ''Basic '')) of
            None \<Rightarrow> None
          | Some dec \<Rightarrow> split_colon dec))"

definition clientMetaFromContext :: "call_ctx \<Rightarrow> string \<times> string" where
  "clientMetaFromContext ctx =
     (case cc_metadata ctx of
        None \<Rightarrow> ('''', '''')
      | Some md \<Rightarrow>
          ((case MD_Get md ''user-agent'' of [] \<Rightarrow> '''' | ua # _ \<Rightarrow> TrimSpace ua),
           (case MD_Get md ''x-forwarded-for'' of
              [] \<Rightarrow> ''''
            | xff # _ \<Rightarrow> (case split_on (CHR 0x2C) xff of [] \<Rightarrow> '''' | p # _ \<Rightarrow> TrimSpace p))))"

definition nullIfEmpty :: "string \<Rightarrow> string option" where
  "nullIfEmpty s = (if TrimSpace s = '''' then None else Some s)"

text \<open>\<open>int64(d.Seconds())\<close>.\<close>

definition whole_seconds :: "duration \<Rightarrow> int" where
  "whole_seconds d = (if d < 0 then - (- d div second) else d div second)"

definition normalizeEmail :: "auth_env \<Rightarrow> string \<Rightarrow> go_error + string" where
  "normalizeEmail E email =
     (let e = TrimSpace (ae_ToLower E email) in
      if e = '''' then Inl (invalidArg ''email required'')
      else if \<not> ae_ParseAddress E e then Inl (invalidArg ''invalid email'')
      else Inr e)"

definition normalizeClientType :: "auth_env \<Rightarrow> string \<Rightarrow> go_error + string" where
  "normalizeClientType E v =
     (let v = TrimSpace (ae_ToLower E v) in
      if v = '''' then Inr ''public''
      else if v \<noteq> ''public'' \<and> v \<noteq> ''confidential'' then Inl (invalidArg ''invalid client type'')
      else Inr v)"

text \<open>The members of a list that are not in \<open>seen\<close>, each once, in order of first appearance.\<close>

primrec dedup :: "string list \<Rightarrow> string list \<Rightarrow> string list" where
  "dedup seen [] = []"
| "dedup seen (p # ps) = (if p \<in> set seen then dedup seen ps else p # dedup (p # seen) ps)"

text \<open>\<open>nil\<close> for a blank scope.\<close>

definition splitScopes :: "string \<Rightarrow> string list option" where
  "splitScopes scope =
     (let scope = TrimSpace scope in
      if scope = '''' then None
      else Some (dedup [] (filter (\<lambda>p. p \<noteq> '''') (map TrimSpace (Fields scope)))))"

section \<open>Users, logins and sessions\<close>

definition Register :: "auth_env \<Rightarrow> string \<Rightarrow> string \<Rightarrow> string \<Rightarrow> id auth_go" where
  "Register E reqEmail reqPassword reqFullName =
     bindE (liftE (normalizeEmail E reqEmail)) (\<lambda>email.
     let password = TrimSpace reqPassword in
     if password = '''' then throwE (invalidArg ''password required'')
     else if length password < 8 then throwE (invalidArg ''password too short'')
     else if TrimSpace reqFullName = '''' then throwE (invalidArg ''full_name required'')
     else
       bindE (internalE (hashPassword E password)) (\<lambda>pwHash.
       bindE newID (\<lambda>uid.
       txE (
         bindE (internalE (sql (insert_user
           \<lparr>au_id = uid, au_email = email, au_full_name = reqFullName, au_password_hash = pwHash\<rparr>))) (\<lambda>_.
         bindE (internalE (sql (insert_user_role uid ''role_customer''))) (\<lambda>_.
         returnE uid))))))"

text \<open>The roles and permissions a token is made out for.\<close>

definition getRolesAndPermissions :: "auth_env \<Rightarrow> id \<Rightarrow> (string list \<times> string list) auth_go" where
  "getRolesAndPermissions E userID =
     bindE (sql (queryRows (\<lambda>d. ae_order E (role_names userID d)))) (\<lambda>rs.
     bindE (sql (queryRows (\<lambda>d. ae_order E (permission_names userID d)))) (\<lambda>perms.
     if rs = [] then throwE (ErrorString (''no roles assigned for user '' @ userID))
     else returnE (rs, perms)))"

definition access_token :: "auth_env \<Rightarrow> id \<Rightarrow> string list \<times> string list \<Rightarrow> (time \<times> string) auth_go" where
  "access_token E userID rp =
     bindE nowUTC (\<lambda>accessNow.
     bindE (internalE (liftE (ae_CreateToken E
       \<lparr>tp_UserID = userID, tp_Roles = fst rp, tp_Permissions = snd rp, tp_LSN = 0,
        tp_IssuedAt = accessNow, tp_ExpiredAt = accessNow + ae_accessTTL E\<rparr>))) (\<lambda>access.
     returnE (accessNow, access)))"

definition new_session ::
    "string \<Rightarrow> string \<Rightarrow> id \<Rightarrow> time \<Rightarrow> time \<Rightarrow> string option \<Rightarrow> string option \<Rightarrow> refresh_session" where
  "new_session h sid uid expires absolute ua ip =
     \<lparr>rs_token_hash = h, rs_session_id = sid, rs_user_id = uid, rs_expires_at = pg_time expires,
      rs_absolute_expires_at = pg_time absolute, rs_user_agent = ua, rs_ip = ip, rs_last_used_at = None,
      rs_revoked_at = None, rs_replaced_by_hash = None\<rparr>"

text \<open>The calls of the limiter, skipped when there is none.\<close>

definition limiter_allow :: "string \<Rightarrow> bool auth_go" where
  "limiter_allow key = (\<lambda>w. case peer w of
     None \<Rightarrow> (Inr True, w)
   | Some _ \<Rightarrow> bindE nowUTC (\<lambda>now. callPeer (\<lambda>l.
       case l of None \<Rightarrow> (Inr True, l)
       | Some l \<Rightarrow> (case allow now key l of ((ok, _), l') \<Rightarrow> (Inr ok, Some l')))) w)"

definition limiter_onFailure :: "string \<Rightarrow> unit auth_go" where
  "limiter_onFailure key = (\<lambda>w. case peer w of
     None \<Rightarrow> (Inr (), w)
   | Some _ \<Rightarrow> bindE nowUTC (\<lambda>now. callPeer (\<lambda>l. (Inr (), map_option (onFailure now key) l))) w)"

definition limiter_onSuccess :: "string \<Rightarrow> unit auth_go" where
  "limiter_onSuccess key = callPeer (\<lambda>l. (Inr (), map_option (onSuccess key) l))"

record auth_tokens =
  at_AccessToken :: string
  at_RefreshToken :: string
  at_ExpiresIn :: int

definition Login :: "auth_env \<Rightarrow> call_ctx \<Rightarrow> string \<Rightarrow> string \<Rightarrow> auth_tokens auth_go" where
  "Login E ctx reqEmail reqPassword =
     bindE (liftE (normalizeEmail E reqEmail)) (\<lambda>email.
     let password = TrimSpace reqPassword in
     if password = '''' then throwE (invalidArg ''password required'')
     else
       let (ua, ip) = clientMetaFromContext ctx; key = email @ ''|'' @ ip in
       bindE (limiter_allow key) (\<lambda>allowed.
       if \<not> allowed then throwE (rateLimited ''too many login attempts'')
       else
         bindE (tryE (sql (queryRow (\<lambda>d. find (\<lambda>u. au_email u = email) (users d))))) (\<lambda>found.
         case found of
           Inl err \<Rightarrow>
             if err = ErrNoRows
             then bindE (limiter_onFailure key) (\<lambda>_. throwE (unauth ''invalid credentials''))
             else throwE (internal err)
         | Inr u \<Rightarrow>
             bindE (internalE (liftE (VerifyPassword (ae_argon2 E) password (au_password_hash u)))) (\<lambda>ok.
             if \<not> ok
             then bindE (limiter_onFailure key) (\<lambda>_. throwE (unauth ''invalid credentials''))
             else
               bindE (limiter_onSuccess key) (\<lambda>_.
               bindE (internalE (getRolesAndPermissions E (au_id u))) (\<lambda>rp.
               bindE (access_token E (au_id u) rp) (\<lambda>(accessNow, access).
               bindE (internalE newRefreshToken) (\<lambda>refresh.
               let refreshExp = accessNow + ae_refreshTTL E; h = HashRefreshToken E refresh in
               bindE (internalE (sql (insert_session
                 (new_session h h (au_id u) refreshExp refreshExp (nullIfEmpty ua) (nullIfEmpty ip))))) (\<lambda>_.
               returnE \<lparr>at_AccessToken = access, at_RefreshToken = refresh,
                 at_ExpiresIn = whole_seconds (ae_accessTTL E)\<rparr>)))))))))"

definition ValidateToken :: "auth_env \<Rightarrow> string \<Rightarrow> TokenPayload auth_go" where
  "ValidateToken E accessToken =
     (if TrimSpace accessToken = '''' then throwE (invalidArg ''access_token required'')
      else mapErr tokenErr (verifyToken E accessToken))"

definition admin_role_id :: "string \<Rightarrow> string \<Rightarrow> id auth_go" where
  "admin_role_id userID roleName =
     (if userID = '''' then throwE (invalidArg ''user_id required'')
      else if roleName = '''' then throwE (invalidArg ''role_name required'')
      else noRowsE (notFound ''unknown role'') (sql (queryRow (role_id_of roleName))))"

definition GrantRole :: "auth_env \<Rightarrow> call_ctx \<Rightarrow> string \<Rightarrow> string \<Rightarrow> unit auth_go" where
  "GrantRole E ctx reqUserId reqRoleName =
     bindE (requirePermissionFromAuthHeader E ctx ''auth:admin'') (\<lambda>_.
     let userID = TrimSpace reqUserId; roleName = TrimSpace reqRoleName in
     bindE (admin_role_id userID roleName) (\<lambda>roleID.
     internalE (sql (insert_user_role userID roleID))))"

definition RevokeRole :: "auth_env \<Rightarrow> call_ctx \<Rightarrow> string \<Rightarrow> string \<Rightarrow> unit auth_go" where
  "RevokeRole E ctx reqUserId reqRoleName =
     bindE (requirePermissionFromAuthHeader E ctx ''auth:admin'') (\<lambda>_.
     let userID = TrimSpace reqUserId; roleName = TrimSpace reqRoleName in
     bindE (admin_role_id userID roleName) (\<lambda>roleID.
     internalE (sql (delete_user_role userID roleID))))"

definition ListUserRoles :: "auth_env \<Rightarrow> call_ctx \<Rightarrow> string \<Rightarrow> string list auth_go" where
  "ListUserRoles E ctx reqUserId =
     bindE (requirePermissionFromAuthHeader E ctx ''auth:admin'') (\<lambda>_.
     let userID = TrimSpace reqUserId in
     if userID = '''' then throwE (invalidArg ''user_id required'')
     else internalE (sql (queryRows (\<lambda>d. ae_order E (role_names userID d)))))"

text \<open>
  \<open>RefreshToken\<close>. The transaction looks the session up and checks it (\<open>refresh_check\<close>), then marks
  it replaced and inserts its successor (\<open>refresh_rotate\<close>). The updates before an error return are
  made in the same transaction, whose deferred rollback undoes them. The session is selected without
  \<open>for update\<close>; the model runs the transaction without others in between, so what is shown of it is
  about calls one after another.
\<close>

definition refresh_check :: "string \<Rightarrow> (time \<times> refresh_session) auth_go" where
  "refresh_check h =
     bindE (noRowsE (unauth ''invalid refresh token'') (sql (queryRow (session_of h)))) (\<lambda>s.
     bindE nowUTC (\<lambda>now.
     if rs_revoked_at s \<noteq> None \<or> rs_replaced_by_hash s \<noteq> None then
       bindE (tryE (sql (update_sessions (\<lambda>r. rs_token_hash r = h)
         (\<lambda>r. r\<lparr>rs_revoked_at := (case rs_revoked_at r of None \<Rightarrow> Some (pg_time now) | Some t \<Rightarrow> Some t)\<rparr>)))) (\<lambda>_.
       bindE (tryE (sql (update_sessions (\<lambda>r. rs_user_id r = rs_user_id s \<and> rs_revoked_at r = None)
         (\<lambda>r. r\<lparr>rs_revoked_at := Some (pg_time now)\<rparr>)))) (\<lambda>_.
       throwE (unauth ''refresh token reuse detected'')))
     else if rs_expires_at s < now then
       bindE (tryE (sql (update_sessions (\<lambda>r. rs_token_hash r = h)
         (\<lambda>r. r\<lparr>rs_revoked_at := Some (pg_time now)\<rparr>)))) (\<lambda>_.
       throwE (unauth ''expired refresh token''))
     else if rs_absolute_expires_at s < now then
       bindE (tryE (sql (update_sessions (\<lambda>r. rs_token_hash r = h)
         (\<lambda>r. r\<lparr>rs_revoked_at := Some (pg_time now)\<rparr>)))) (\<lambda>_.
       throwE (unauth ''expired refresh token''))
     else returnE (now, s)))"

definition refresh_rotate :: "auth_env \<Rightarrow> call_ctx \<Rightarrow> string \<Rightarrow> time \<Rightarrow> refresh_session \<Rightarrow> string auth_go" where
  "refresh_rotate E ctx h now s =
     bindE (internalE newRefreshToken) (\<lambda>newRefresh.
     let newHash = HashRefreshToken E newRefresh;
         newRefreshExp = (if rs_absolute_expires_at s < now + ae_refreshTTL E
                          then rs_absolute_expires_at s else now + ae_refreshTTL E);
         (ua, ip) = clientMetaFromContext ctx in
     bindE (internalE (sql (update_sessions (\<lambda>r. rs_token_hash r = h)
       (\<lambda>r. r\<lparr>rs_last_used_at := Some (pg_time now), rs_revoked_at := Some (pg_time now),
              rs_replaced_by_hash := Some newHash,
              rs_user_agent := (case nullIfEmpty ua of None \<Rightarrow> rs_user_agent r | v \<Rightarrow> v),
              rs_ip := (case nullIfEmpty ip of None \<Rightarrow> rs_ip r | v \<Rightarrow> v)\<rparr>)))) (\<lambda>_.
     bindE (internalE (sql (insert_session
       (new_session newHash (rs_session_id s) (rs_user_id s) newRefreshExp (rs_absolute_expires_at s)
          (nullIfEmpty ua) (nullIfEmpty ip))))) (\<lambda>_.
     returnE newRefresh)))"

definition RefreshToken :: "auth_env \<Rightarrow> call_ctx \<Rightarrow> string \<Rightarrow> auth_tokens auth_go" where
  "RefreshToken E ctx reqRefreshToken =
     (let refreshToken = TrimSpace reqRefreshToken in
      if refreshToken = '''' then throwE (invalidArg ''refresh_token required'')
      else
        let h = HashRefreshToken E refreshToken in
        bindE (txE (bindE (refresh_check h) (\<lambda>(now, s).
                    bindE (refresh_rotate E ctx h now s) (\<lambda>newRefresh.
                    returnE (rs_user_id s, newRefresh))))) (\<lambda>(userID, newRefresh).
        bindE (internalE (getRolesAndPermissions E userID)) (\<lambda>rp.
        bindE (access_token E userID rp) (\<lambda>(_, access).
        returnE \<lparr>at_AccessToken = access, at_RefreshToken = newRefresh,
          at_ExpiresIn = whole_seconds (ae_accessTTL E)\<rparr>))))"

definition Logout :: "auth_env \<Rightarrow> string \<Rightarrow> unit auth_go" where
  "Logout E reqRefreshToken =
     (let refreshToken = TrimSpace reqRefreshToken in
      if refreshToken = '''' then throwE (invalidArg ''refresh_token required'')
      else
        let h = HashRefreshToken E refreshToken in
        bindE nowUTC (\<lambda>now.
        bindE (internalE (sql (update_sessions (\<lambda>r. rs_token_hash r = h \<and> rs_revoked_at r = None)
          (\<lambda>r. r\<lparr>rs_revoked_at := Some (pg_time now)\<rparr>)))) (\<lambda>_. returnE ())))"

definition LogoutAll :: "auth_env \<Rightarrow> call_ctx \<Rightarrow> string \<Rightarrow> nat auth_go" where
  "LogoutAll E ctx reqAccessToken =
     (let t = TrimSpace reqAccessToken; accessToken = (if t = '''' then bearer_any_case ctx else t) in
      if accessToken = '''' then throwE (invalidArg ''access_token required'')
      else bindE (mapErr tokenErr (verifyToken E accessToken)) (\<lambda>payload.
        let userID = TrimSpace (tp_UserID payload) in
        if userID = '''' then throwE (unauth ''invalid access token'')
        else bindE nowUTC (\<lambda>now.
          internalE (sql (update_sessions (\<lambda>r. rs_user_id r = userID \<and> rs_revoked_at r = None)
            (\<lambda>r. r\<lparr>rs_revoked_at := Some (pg_time now)\<rparr>))))))"

text \<open>\<open>CleanupRefreshSessions\<close>, the periodic deletion of old sessions; errors are returned as they are.\<close>

definition CleanupRefreshSessions :: "duration \<Rightarrow> (nat \<times> nat) auth_go" where
  "CleanupRefreshSessions revokedRetention =
     bindE nowUTC (\<lambda>now.
     bindE (sql (delete_sessions (\<lambda>r. rs_expires_at r < pg_time now \<or> rs_absolute_expires_at r < pg_time now))) (\<lambda>n1.
     if revokedRetention > 0 then
       let cutoff = pg_time (now - revokedRetention) in
       bindE (sql (delete_sessions (\<lambda>r. case rs_revoked_at r of None \<Rightarrow> False | Some t \<Rightarrow> t < cutoff))) (\<lambda>n2.
       returnE (n1, n2))
     else returnE (n1, 0)))"

section \<open>OAuth clients and consents\<close>

definition fetchOAuthClient :: "string \<Rightarrow> oauthClientRecord auth_go" where
  "fetchOAuthClient reqClientID =
     (let clientID = TrimSpace reqClientID in
      if clientID = '''' then throwE (invalidArg ''client_id required'')
      else noRowsE (notFound ''unknown client'')
        (sql (queryRow (\<lambda>d. map_option oauthClientRecord.truncate (client_of clientID d)))))"

text \<open>The loop over \<open>req.RedirectUris\<close>.\<close>

primrec normalize_redirects :: "auth_env \<Rightarrow> string list \<Rightarrow> string list \<Rightarrow> go_error + string list" where
  "normalize_redirects E seen [] = Inr []"
| "normalize_redirects E seen (raw # rest) =
     (let r = TrimSpace raw in
      if r = '''' then normalize_redirects E seen rest
      else (case ae_url_Parse E r of
        None \<Rightarrow> Inl (invalidArg ''invalid redirect_uri'')
      | Some u \<Rightarrow>
          if ur_Scheme u = '''' \<or> ur_Host u = '''' then Inl (invalidArg ''invalid redirect_uri'')
          else if TrimSpace (ur_Fragment u) \<noteq> '''' then Inl (invalidArg ''redirect_uri must not contain fragment'')
          else if r \<in> set seen then normalize_redirects E seen rest
          else bindS (normalize_redirects E (r # seen) rest) (\<lambda>rs. Inr (r # rs))))"

definition not_blank :: "string list \<Rightarrow> string list" where
  "not_blank ss = filter (\<lambda>s. s \<noteq> '''') (map TrimSpace ss)"

text \<open>The client record and, for a confidential client, its secret in the clear.\<close>

definition CreateOAuthClient ::
    "auth_env \<Rightarrow> call_ctx \<Rightarrow> string \<Rightarrow> string \<Rightarrow> string list \<Rightarrow> string list \<Rightarrow> (oauthClientRecord \<times> string) auth_go" where
  "CreateOAuthClient E ctx reqName reqType reqRedirectUris reqAllowedScopes =
     bindE (requirePermissionFromAuthHeader E ctx ''auth:admin'') (\<lambda>_.
     let name = TrimSpace reqName in
     if name = '''' then throwE (invalidArg ''name required'')
     else
       bindE (liftE (normalizeClientType E reqType)) (\<lambda>ct.
       if reqRedirectUris = [] then throwE (invalidArg ''redirect_uris required'')
       else
         bindE (liftE (normalize_redirects E [] reqRedirectUris)) (\<lambda>redirects.
         if redirects = [] then throwE (invalidArg ''redirect_uris required'')
         else
           let allowedScopes = not_blank reqAllowedScopes in
           bindE newID (\<lambda>clientID.
           bindE (if ct = ''confidential''
                  then bindE (internalE (randomB64URL 32)) (\<lambda>clientSecret.
                       bindE (internalE (hashPassword E clientSecret)) (\<lambda>h. returnE (clientSecret, Some h)))
                  else returnE ('''', None)) (\<lambda>(clientSecret, secretHash).
           let rec = \<lparr>oc_ID = clientID, oc_Name = name, oc_Type = ct, oc_SecretHash = secretHash,
                      oc_RedirectURIs = redirects, oc_AllowedScopes = allowedScopes\<rparr> in
           bindE (internalE (sql_now (insert_client rec))) (\<lambda>_.
           returnE (rec\<lparr>oc_SecretHash := None\<rparr>, clientSecret)))))))"

definition GetOAuthClient :: "auth_env \<Rightarrow> call_ctx \<Rightarrow> string \<Rightarrow> oauthClientRecord auth_go" where
  "GetOAuthClient E ctx reqClientId =
     bindE (requirePermissionFromAuthHeader E ctx ''auth:admin'') (\<lambda>_.
     bindE (fetchOAuthClient reqClientId) (\<lambda>rec. returnE (rec\<lparr>oc_SecretHash := None\<rparr>)))"

definition ListOAuthClients :: "auth_env \<Rightarrow> call_ctx \<Rightarrow> oauthClientRecord list auth_go" where
  "ListOAuthClients E ctx =
     bindE (requirePermissionFromAuthHeader E ctx ''auth:admin'') (\<lambda>_.
     bindE (internalE (sql (queryRows (latest_clients 50)))) (\<lambda>rows.
     returnE (map (\<lambda>r. (oauthClientRecord.truncate r)\<lparr>oc_SecretHash := None\<rparr>) rows)))"

definition DeleteOAuthClient :: "auth_env \<Rightarrow> call_ctx \<Rightarrow> string \<Rightarrow> unit auth_go" where
  "DeleteOAuthClient E ctx reqClientId =
     bindE (requirePermissionFromAuthHeader E ctx ''auth:admin'') (\<lambda>_.
     let clientID = TrimSpace reqClientId in
     if clientID = '''' then throwE (invalidArg ''client_id required'')
     else bindE (internalE (sql (delete_client clientID))) (\<lambda>n.
       if n = 0 then throwE (notFound ''unknown client'') else returnE ()))"

text \<open>The statement sets the column \<open>secret\<close>, which no migration creates: Postgres rejects it.\<close>

definition RotateOAuthClientSecret :: "auth_env \<Rightarrow> call_ctx \<Rightarrow> string \<Rightarrow> string auth_go" where
  "RotateOAuthClientSecret E ctx reqClientId =
     bindE (requirePermissionFromAuthHeader E ctx ''auth:admin'') (\<lambda>_.
     let clientID = TrimSpace reqClientId in
     if clientID = '''' then throwE (invalidArg ''client_id required'')
     else
       bindE (internalE (wrapE ''failed to generate secret'' (GenerateSecret 32))) (\<lambda>newSecret.
       bindE (internalE (sql (\<lambda>d. Inl (undefined_column ''secret'')))) (\<lambda>n :: nat.
       if n = 0 then throwE (notFound ''unknown client'') else returnE newSecret)))"

definition GetOAuthConsent :: "string \<Rightarrow> string \<Rightarrow> string list auth_go" where
  "GetOAuthConsent reqUserId reqClientId =
     (let userID = TrimSpace reqUserId; clientID = TrimSpace reqClientId in
      if userID = '''' \<or> clientID = '''' then throwE (invalidArg ''user_id and client_id required'')
      else bindE (tryE (sql (queryRow (consent_of userID clientID)))) (\<lambda>r.
        case r of
          Inl err \<Rightarrow> if err = ErrNoRows then returnE [] else throwE (internal err)
        | Inr scopes \<Rightarrow> returnE scopes))"

text \<open>The counts of the trimmed, non-blank members agree.\<close>

definition equalStringSets :: "string list \<Rightarrow> string list \<Rightarrow> bool" where
  "equalStringSets a b \<longleftrightarrow>
     a = [] \<and> b = [] \<or>
     list_all (\<lambda>s. count_list (not_blank a) s = count_list (not_blank b) s) (not_blank a @ not_blank b)"

text \<open>An empty repeated field is the \<open>nil\<close> slice.\<close>

definition slice_of :: "string list \<Rightarrow> string list option" where
  "slice_of ss = (if ss = [] then None else Some ss)"

definition StoreOAuthConsent :: "string \<Rightarrow> string \<Rightarrow> string list \<Rightarrow> unit auth_go" where
  "StoreOAuthConsent reqUserId reqClientId reqScopes =
     (let userID = TrimSpace reqUserId; clientID = TrimSpace reqClientId in
      if userID = '''' \<or> clientID = '''' then throwE (invalidArg ''user_id and client_id required'')
      else txE (
        bindE (tryE (sql (queryRow (consent_of userID clientID)))) (\<lambda>r.
        bindE (case r of
            Inl err \<Rightarrow> if err = ErrNoRows then returnE True else throwE (internal err)
          | Inr existingScopes \<Rightarrow> returnE (\<not> equalStringSets existingScopes reqScopes)) (\<lambda>changed.
        bindE (internalE (sql (upsert_consent userID clientID (slice_of reqScopes)))) (\<lambda>_.
        if changed then internalE (sql_now (insert_history userID clientID (slice_of reqScopes)))
        else returnE ())))))"

definition ListOAuthConsentHistory :: "string \<Rightarrow> string \<Rightarrow> int \<Rightarrow> (string list \<times> time) list auth_go" where
  "ListOAuthConsentHistory reqUserId reqClientId reqLimit =
     (let userID = TrimSpace reqUserId; clientID = TrimSpace reqClientId in
      if userID = '''' \<or> clientID = '''' then throwE (invalidArg ''user_id and client_id required'')
      else
        let limit = (if reqLimit \<le> 0 then 50 else reqLimit); limit = (if limit > 200 then 200 else limit)
        in internalE (sql (queryRows (latest_history userID clientID (nat limit)))))"

section \<open>The authorization code flow\<close>

text \<open>An unknown client is answered with \<open>invalid_client\<close>.\<close>

definition oauth_client :: "string \<Rightarrow> oauthClientRecord auth_go" where
  "oauth_client clientID =
     mapErr (\<lambda>err. case err of Status NotFound _ \<Rightarrow> oauthInvalidClient | _ \<Rightarrow> err) (fetchOAuthClient clientID)"

record authorize_request =
  az_ResponseType :: string
  az_ClientId :: string
  az_RedirectUri :: string
  az_Scope :: string
  az_State :: string
  az_CodeChallenge :: string
  az_CodeChallengeMethod :: string

record authorize_response =
  ar_Code :: string
  ar_State :: string
  ar_RedirectUrl :: string

definition OAuthAuthorize :: "auth_env \<Rightarrow> call_ctx \<Rightarrow> authorize_request \<Rightarrow> authorize_response auth_go" where
  "OAuthAuthorize E ctx req =
     (let clientID = TrimSpace (az_ClientId req); redirectURI = TrimSpace (az_RedirectUri req) in
      if TrimSpace (az_ResponseType req) \<noteq> ''code'' then throwE (invalidArg ''unsupported response_type'')
      else if clientID = '''' then throwE (invalidArg ''client_id required'')
      else if redirectURI = '''' then throwE (invalidArg ''redirect_uri required'')
      else (case ae_url_Parse E redirectURI of
        None \<Rightarrow> throwE (invalidArg ''invalid redirect_uri'')
      | Some uParsed \<Rightarrow>
          if TrimSpace (ur_Fragment uParsed) \<noteq> '''' then throwE (invalidArg ''redirect_uri must not contain fragment'')
          else
            bindE (oauth_client clientID) (\<lambda>rec.
            let requestedScopes = splitScopes (az_Scope req);
                challenge = TrimSpace (az_CodeChallenge req);
                meth = TrimSpace (az_CodeChallengeMethod req);
                state = TrimSpace (az_State req) in
            if redirectURI \<notin> set (oc_RedirectURIs rec) then throwE (invalidArg ''invalid redirect_uri'')
            else if oc_AllowedScopes rec \<noteq> [] \<and>
              \<not> list_all (\<lambda>s. s \<in> set (not_blank (oc_AllowedScopes rec)))
                  (case requestedScopes of None \<Rightarrow> [] | Some ss \<Rightarrow> ss)
            then throwE (invalidArg ''invalid scope'')
            else if challenge = '''' then throwE (invalidArg ''code_challenge required'')
            else if ae_ToUpper E meth \<noteq> ''S256'' then throwE (invalidArg ''code_challenge_method must be S256'')
            else
              bindE (userIDFromAuthHeader E ctx) (\<lambda>userID.
              bindE (internalE (randomB64URL 32)) (\<lambda>code.
              bindE nowUTC (\<lambda>now.
              bindE (internalE (sql (insert_code
                \<lparr>ac_code_hash = hashB64URLSHA256 E code, ac_client_id = oc_ID rec, ac_user_id = userID,
                 ac_redirect_uri = redirectURI, ac_scopes = [], ac_code_challenge = challenge,
                 ac_code_challenge_method = ''S256'', ac_expires_at = pg_time (now + 5 * minute),
                 ac_consumed_at = None\<rparr> requestedScopes))) (\<lambda>_.
              returnE \<lparr>ar_Code = code, ar_State = state,
                ar_RedirectUrl = ur_with uParsed code (if state \<noteq> '''' then Some state else None)\<rparr>)))))))"

record token_request =
  tr_GrantType :: string
  tr_ClientId :: string
  tr_ClientSecret :: string
  tr_Code :: string
  tr_RedirectUri :: string
  tr_CodeVerifier :: string

text \<open>The client id and secret of the request, or of the \<open>Basic\<close> credentials when it names no client.\<close>

definition token_client :: "call_ctx \<Rightarrow> token_request \<Rightarrow> string \<times> string" where
  "token_client ctx req =
     (let clientID = TrimSpace (tr_ClientId req) in
      if clientID \<noteq> '''' then (clientID, tr_ClientSecret req)
      else (case basicAuthFromMetadata ctx of
        None \<Rightarrow> (clientID, tr_ClientSecret req)
      | Some (u, p) \<Rightarrow> (TrimSpace u, if TrimSpace (tr_ClientSecret req) = '''' then p else tr_ClientSecret req)))"

text \<open>The check of a confidential client's secret.\<close>

definition client_secret_check :: "auth_env \<Rightarrow> call_ctx \<Rightarrow> oauthClientRecord \<Rightarrow> string \<Rightarrow> go_error + unit" where
  "client_secret_check E ctx rec clientSecret =
     (if oc_Type rec \<noteq> ''confidential'' then Inr ()
      else (case oc_SecretHash rec of
        None \<Rightarrow> Inl (internal (ErrorString ''confidential client missing secret''))
      | Some h \<Rightarrow>
          let sec = TrimSpace clientSecret in
          bindS (if sec \<noteq> '''' then Inr sec
                 else (case basicAuthFromMetadata ctx of
                   None \<Rightarrow> Inr sec
                 | Some (u, p) \<Rightarrow>
                     if TrimSpace u \<noteq> '''' \<and> TrimSpace u \<noteq> oc_ID rec then Inl oauthInvalidClient
                     else Inr (TrimSpace p))) (\<lambda>sec.
          if sec = '''' then Inl oauthInvalidClient
          else (case VerifyPassword (ae_argon2 E) sec h of
            Inl err \<Rightarrow> Inl (internal err)
          | Inr ok \<Rightarrow> if ok then Inr () else Inl oauthInvalidClient))))"

text \<open>The checks on the stored code.\<close>

definition code_redeemable :: "auth_env \<Rightarrow> time \<Rightarrow> string \<Rightarrow> string \<Rightarrow> oauth_code \<Rightarrow> bool" where
  "code_redeemable E now redirectURI verifier c \<longleftrightarrow>
     ac_consumed_at c = None \<and> \<not> ac_expires_at c < now \<and> ac_redirect_uri c = redirectURI \<and>
     ae_ToUpper E (TrimSpace (ac_code_challenge_method c)) = ''S256'' \<and>
     TrimSpace (ac_code_challenge c) \<noteq> '''' \<and> hashB64URLSHA256 E verifier \<noteq> '''' \<and>
     TrimSpace (ac_code_challenge c) = hashB64URLSHA256 E verifier"

text \<open>
  The transaction of \<open>OAuthToken\<close>. The code is selected without a lock, and how many rows the update
  of \<open>consumed_at\<close> has changed is not looked at: as with \<open>RefreshToken\<close>, the model has calls one after
  another.
\<close>

definition redeem_code ::
    "auth_env \<Rightarrow> oauthClientRecord \<Rightarrow> string \<Rightarrow> string \<Rightarrow> string \<Rightarrow> auth_tokens auth_go" where
  "redeem_code E rec code redirectURI verifier =
     (let codeHash = hashB64URLSHA256 E code in
      bindE (noRowsE oauthInvalidGrant (sql (queryRow (code_of codeHash (oc_ID rec))))) (\<lambda>c.
      bindE nowUTC (\<lambda>now.
      if \<not> code_redeemable E now redirectURI verifier c then throwE oauthInvalidGrant
      else
        bindE (internalE (sql (consume_code codeHash (pg_time now)))) (\<lambda>_.
        bindE (internalE (getRolesAndPermissions E (ac_user_id c))) (\<lambda>rp.
        bindE (access_token E (ac_user_id c) rp) (\<lambda>(accessNow, access).
        bindE (internalE newRefreshToken) (\<lambda>refresh.
        let refreshExp = accessNow + ae_refreshTTL E; h = HashRefreshToken E refresh in
        bindE (internalE (sql (insert_session
          (new_session h h (ac_user_id c) refreshExp refreshExp None None)))) (\<lambda>_.
        returnE \<lparr>at_AccessToken = access, at_RefreshToken = refresh,
          at_ExpiresIn = whole_seconds (ae_accessTTL E)\<rparr>))))))))"

definition OAuthToken :: "auth_env \<Rightarrow> call_ctx \<Rightarrow> token_request \<Rightarrow> auth_tokens auth_go" where
  "OAuthToken E ctx req =
     (let (clientID, clientSecret) = token_client ctx req;
          code = TrimSpace (tr_Code req);
          redirectURI = TrimSpace (tr_RedirectUri req);
          verifier = TrimSpace (tr_CodeVerifier req) in
      if TrimSpace (tr_GrantType req) \<noteq> ''authorization_code'' then throwE (invalidArg ''unsupported grant_type'')
      else if clientID = '''' then throwE (invalidArg ''client_id required'')
      else if code = '''' then throwE (invalidArg ''code required'')
      else if redirectURI = '''' then throwE (invalidArg ''redirect_uri required'')
      else (case ae_url_Parse E redirectURI of
        None \<Rightarrow> throwE (invalidArg ''invalid redirect_uri'')
      | Some rParsed \<Rightarrow>
          if TrimSpace (ur_Fragment rParsed) \<noteq> '''' then throwE (invalidArg ''redirect_uri must not contain fragment'')
          else if verifier = '''' then throwE (invalidArg ''code_verifier required'')
          else
            bindE (oauth_client clientID) (\<lambda>rec.
            bindE (liftE (client_secret_check E ctx rec clientSecret)) (\<lambda>_.
            txE (redeem_code E rec code redirectURI verifier)))))"

section \<open>Facts\<close>

lemma mapErr_inv [go_inv]: "mapErr f m w = (Inr y, w') \<longleftrightarrow> m w = (Inr y, w')"
  by (auto simp: mapErr_def split: prod.splits sum.splits)

lemma internalE_inv [go_inv]: "internalE m w = (Inr y, w') \<longleftrightarrow> m w = (Inr y, w')"
  by (simp add: internalE_def mapErr_inv)

lemma noRowsE_inv [go_inv]: "noRowsE e m w = (Inr y, w') \<longleftrightarrow> m w = (Inr y, w')"
  by (simp add: noRowsE_def mapErr_inv)

lemma txE_inv [go_inv]: "txE m w = (Inr y, w') \<longleftrightarrow> withTx auth_rb m w = (Inr y, w')"
  by (simp add: txE_def mapErr_inv)

lemma randRead_inv [go_inv]:
  "randRead n w = (Inr y, w') \<longleftrightarrow>
     fault w (tick w) = None \<and> y = rand_bytes n (uuid w (tick w)) \<and> w' = w\<lparr>tick := Suc (tick w)\<rparr>"
  by (auto simp: randRead_def Let_def split: option.splits)

lemma newRefreshToken_inv [go_inv]:
  "newRefreshToken w = (Inr y, w') \<longleftrightarrow>
     fault w (tick w) = None \<and> y = EncodeToString RawURLEncoding (rand_bytes 32 (uuid w (tick w))) \<and>
     w' = w\<lparr>tick := Suc (tick w)\<rparr>"
  by (auto simp: newRefreshToken_def go_inv)

lemma queryRow_Inr [simp]: "queryRow q d = Inr (x, d') \<longleftrightarrow> q d = Some x \<and> d' = d"
  by (auto simp: queryRow_def split: option.splits)

lemma queryRows_Inr [simp]: "queryRows q d = Inr (x, d') \<longleftrightarrow> x = q d \<and> d' = d"
  by (auto simp: queryRows_def)

lemma HashRefreshToken_trim [simp]: "HashRefreshToken E (TrimSpace t) = HashRefreshToken E t"
  by (simp add: HashRefreshToken_def TrimSpace_idem)

text \<open>Reading roles and making an access token leave the database alone.\<close>

lemma getRolesAndPermissions_inv:
  "getRolesAndPermissions E u w = (Inr rp, w') \<Longrightarrow>
     db w' = db w \<and> rp = (ae_order E (role_names u (db w)), ae_order E (permission_names u (db w))) \<and> fst rp \<noteq> []"
  by (auto simp: getRolesAndPermissions_def go_inv split: if_splits)

lemma access_token_inv:
  "access_token E u rp w = (Inr (now, tok), w') \<Longrightarrow>
     db w' = db w \<and> now = clock w (tick w) \<and>
     ae_CreateToken E \<lparr>tp_UserID = u, tp_Roles = fst rp, tp_Permissions = snd rp, tp_LSN = 0,
       tp_IssuedAt = now, tp_ExpiredAt = now + ae_accessTTL E\<rparr> = Inr tok"
  by (auto simp: access_token_def go_inv)

text \<open>What a successful check and a successful rotation mean.\<close>

lemma refresh_check_inv:
  "refresh_check h w = (Inr (now, s), w') \<Longrightarrow>
     session_of h (db w) = Some s \<and> rs_revoked_at s = None \<and> rs_replaced_by_hash s = None \<and>
     now \<le> rs_expires_at s \<and> now \<le> rs_absolute_expires_at s \<and> db w' = db w \<and>
     now = clock w (Suc (tick w))"
  unfolding refresh_check_def by (auto simp: go_inv split: if_splits)

end
