(* ===== verification/AuthProps.thy ===== *)
theory AuthProps
  imports AuthServer
begin

text \<open>
  What the auth service guarantees over every sequence of calls. One lemma per handler, proved once
  in a locale: a relation between databases that every statement respects is respected by every
  handler, whatever it returns. The invariant of the tables, the finality of used refresh tokens
  and authorization codes, and the monopoly of administrators on roles are instances of it.
\<close>

section \<open>Calls\<close>

datatype auth_call =
    RegisterCall string string string
  | LoginCall call_ctx string string
  | ValidateTokenCall string
  | GrantRoleCall call_ctx string string
  | RevokeRoleCall call_ctx string string
  | ListUserRolesCall call_ctx string
  | RefreshTokenCall call_ctx string
  | LogoutCall string
  | LogoutAllCall call_ctx string
  | CreateOAuthClientCall call_ctx string string "string list" "string list"
  | GetOAuthClientCall call_ctx string
  | ListOAuthClientsCall call_ctx
  | DeleteOAuthClientCall call_ctx string
  | RotateOAuthClientSecretCall call_ctx string
  | GetOAuthConsentCall string string
  | StoreOAuthConsentCall string string "string list"
  | ListOAuthConsentHistoryCall string string int
  | OAuthAuthorizeCall call_ctx authorize_request
  | OAuthTokenCall call_ctx token_request
  | Cleanup duration

text \<open>A call, its answer dropped; the periodic cleanup is one of them.\<close>

definition after :: "'a auth_go \<Rightarrow> (auth_db, loginLimiter option) world \<Rightarrow> (auth_db, loginLimiter option) world" where
  "after m w = snd (m w)"

fun run_call :: "auth_env \<Rightarrow> auth_call \<Rightarrow> (auth_db, loginLimiter option) world \<Rightarrow> (auth_db, loginLimiter option) world" where
  "run_call E (RegisterCall e p n) = after (Register E e p n)"
| "run_call E (LoginCall ctx e p) = after (Login E ctx e p)"
| "run_call E (ValidateTokenCall t) = after (ValidateToken E t)"
| "run_call E (GrantRoleCall ctx u r) = after (GrantRole E ctx u r)"
| "run_call E (RevokeRoleCall ctx u r) = after (RevokeRole E ctx u r)"
| "run_call E (ListUserRolesCall ctx u) = after (ListUserRoles E ctx u)"
| "run_call E (RefreshTokenCall ctx t) = after (RefreshToken E ctx t)"
| "run_call E (LogoutCall t) = after (Logout E t)"
| "run_call E (LogoutAllCall ctx t) = after (LogoutAll E ctx t)"
| "run_call E (CreateOAuthClientCall ctx n t rs ss) = after (CreateOAuthClient E ctx n t rs ss)"
| "run_call E (GetOAuthClientCall ctx c) = after (GetOAuthClient E ctx c)"
| "run_call E (ListOAuthClientsCall ctx) = after (ListOAuthClients E ctx)"
| "run_call E (DeleteOAuthClientCall ctx c) = after (DeleteOAuthClient E ctx c)"
| "run_call E (RotateOAuthClientSecretCall ctx c) = after (RotateOAuthClientSecret E ctx c)"
| "run_call E (GetOAuthConsentCall u c) = after (GetOAuthConsent u c)"
| "run_call E (StoreOAuthConsentCall u c ss) = after (StoreOAuthConsent u c ss)"
| "run_call E (ListOAuthConsentHistoryCall u c n) = after (ListOAuthConsentHistory u c n)"
| "run_call E (OAuthAuthorizeCall ctx r) = after (OAuthAuthorize E ctx r)"
| "run_call E (OAuthTokenCall ctx r) = after (OAuthToken E ctx r)"
| "run_call E (Cleanup d) = after (CleanupRefreshSessions d)"

fun serve :: "auth_env \<Rightarrow> auth_call list \<Rightarrow> (auth_db, loginLimiter option) world \<Rightarrow> (auth_db, loginLimiter option) world" where
  "serve E [] w = w"
| "serve E (c # cs) w = serve E cs (run_call E c w)"

section \<open>Relations every handler respects\<close>

text \<open>
  \<open>keeps P R m\<close>: from a world that satisfies \<open>P\<close>, the operation \<open>m\<close> relates the database before and
  after by \<open>R\<close>, and \<open>P\<close> still holds.
\<close>

definition keeps ::
    "((auth_db, loginLimiter option) world \<Rightarrow> bool) \<Rightarrow> (auth_db \<Rightarrow> auth_db \<Rightarrow> bool) \<Rightarrow> 'a auth_go \<Rightarrow> bool" where
  "keeps P R m \<longleftrightarrow> (\<forall>w. P w \<longrightarrow> R (db w) (db (snd (m w))) \<and> P (snd (m w)))"

text \<open>What a statement that rewrites sessions may do: revoke them.\<close>

definition revokes :: "(refresh_session \<Rightarrow> bool) \<Rightarrow> (refresh_session \<Rightarrow> refresh_session) \<Rightarrow> bool" where
  "revokes Q f \<longleftrightarrow> (\<forall>s. Q s \<longrightarrow> rs_token_hash (f s) = rs_token_hash s \<and> rs_user_id (f s) = rs_user_id s \<and>
     rs_expires_at (f s) = rs_expires_at s \<and> rs_absolute_expires_at (f s) = rs_absolute_expires_at s \<and>
     rs_revoked_at (f s) \<noteq> None)"

lemma error_wrappers_state [simp]:
  "snd (mapErr f m w) = snd (m w)" "snd (wrapE msg m w) = snd (m w)" "snd (tryE m w) = snd (m w)"
  by (simp_all add: mapErr_def wrapE_def tryE_def split: prod.split sum.split)

locale auth_relation =
  fixes E :: auth_env
    and P :: "(auth_db, loginLimiter option) world \<Rightarrow> bool"
    and R :: "auth_db \<Rightarrow> auth_db \<Rightarrow> bool"
    and F :: "string \<Rightarrow> bool"
  assumes R_refl: "R d d"
    and R_trans: "R d d' \<Longrightarrow> R d' d'' \<Longrightarrow> R d d''"
    and R_rollback: "R d d' \<Longrightarrow> R d (auth_rb d d')"
    and P_env: "P w \<Longrightarrow> clock w' = clock w \<Longrightarrow> uuid w' = uuid w \<Longrightarrow> fault w' = fault w \<Longrightarrow> tick w \<le> tick w' \<Longrightarrow> P w'"
    and drawn: "P w \<Longrightarrow> F (EncodeToString RawURLEncoding (rand_bytes 32 (uuid w (tick w))))"
    and R_issue: "F tok \<Longrightarrow> rs_token_hash s = HashRefreshToken E tok \<Longrightarrow> rs_revoked_at s = None \<Longrightarrow>
      rs_expires_at s \<le> rs_absolute_expires_at s \<Longrightarrow> insert_session s d = Inr (x, d') \<Longrightarrow> R d d'"
    and R_update: "revokes Q f \<Longrightarrow> update_sessions Q f d = Inr (n, d') \<Longrightarrow> R d d'"
    and R_purge: "delete_sessions Q d = Inr (n, d') \<Longrightarrow> R d d'"
    and R_client: "insert_client c now d = Inr (x, d') \<Longrightarrow> R d d'"
    and R_unclient: "delete_client i d = Inr (n, d') \<Longrightarrow> R d d'"
    and R_code: "F tok \<Longrightarrow> ac_code_hash k = hashB64URLSHA256 E tok \<Longrightarrow> insert_code k ss d = Inr (x, d') \<Longrightarrow> R d d'"
    and R_consume: "consume_code h t d = Inr (n, d') \<Longrightarrow> R d d'"
    and R_consent: "upsert_consent u i ss d = Inr (x, d') \<Longrightarrow> R d d'"
    and R_history: "insert_history u i ss now d = Inr (x, d') \<Longrightarrow> R d d'"
begin

lemma keepsI:
  assumes "\<And>w r w'. P w \<Longrightarrow> m w = (r, w') \<Longrightarrow>
     R (db w) (db w') \<and> clock w' = clock w \<and> uuid w' = uuid w \<and> fault w' = fault w \<and> tick w \<le> tick w'"
  shows "keeps P R m"
  unfolding keeps_def using assms P_env by (metis prod.collapse)

lemma keeps_basic:
  "keeps P R (returnE x)" "keeps P R (throwE e)" "keeps P R (liftE r)" "keeps P R newID" "keeps P R nowUTC"
  by (auto intro!: keepsI simp: returnE_def throwE_def liftE_def newID_def nowUTC_def R_refl)

lemma keeps_randRead: "keeps P R (randRead n)"
  by (auto intro!: keepsI simp: randRead_def Let_def R_refl split: option.splits)

lemma keeps_callPeer: "keeps P R (callPeer f)"
  by (auto intro!: keepsI simp: callPeer_def R_refl split: prod.splits)

lemma keeps_sql: "(\<And>d x d'. st d = Inr (x, d') \<Longrightarrow> R d d') \<Longrightarrow> keeps P R (sql st)"
  by (auto intro!: keepsI simp: sql_def sql_now_def Let_def R_refl split: option.splits sum.splits)

lemma keeps_sql_now: "(\<And>now d x d'. st now d = Inr (x, d') \<Longrightarrow> R d d') \<Longrightarrow> keeps P R (sql_now st)"
  by (auto intro!: keepsI simp: sql_now_def Let_def R_refl split: option.splits sum.splits)

lemma keeps_query: "keeps P R (sql (queryRow q))" "keeps P R (sql (queryRows q'))"
  by (rule keeps_sql, auto simp: queryRow_def queryRows_def R_refl split: option.splits)+

lemma keeps_bind:
  assumes "keeps P R m" and "\<And>x. keeps P R (f x)"
  shows "keeps P R (bindE m f)"
proof -
  have "R (db w) (db (snd (bindE m f w))) \<and> P (snd (bindE m f w))" if "P w" for w
  proof (cases "m w")
    case (Pair r w')
    have w': "R (db w) (db w')" "P w'" using assms(1) that Pair unfolding keeps_def by (metis snd_conv)+
    show ?thesis
    proof (cases r)
      case (Inl e)
      then show ?thesis using w' Pair by (simp add: bindE_def)
    next
      case (Inr x)
      have "R (db w') (db (snd (f x w'))) \<and> P (snd (f x w'))" using assms(2) w'(2) unfolding keeps_def by blast
      then show ?thesis using w'(1) R_trans Pair Inr by (auto simp: bindE_def)
    qed
  qed
  then show ?thesis unfolding keeps_def by blast
qed

lemma keeps_mapErr: "keeps P R m \<Longrightarrow> keeps P R (mapErr f m)"
  by (simp add: keeps_def)

lemma keeps_wrapE: "keeps P R m \<Longrightarrow> keeps P R (wrapE msg m)"
  by (simp add: keeps_def)

lemma keeps_tryE: "keeps P R m \<Longrightarrow> keeps P R (tryE m)"
  by (simp add: keeps_def)

lemma keeps_errors: "keeps P R m \<Longrightarrow> keeps P R (internalE m)" "keeps P R m \<Longrightarrow> keeps P R (noRowsE e m)"
  by (simp_all add: internalE_def noRowsE_def keeps_mapErr)

lemma keeps_txE:
  assumes "keeps P R m"
  shows "keeps P R (txE m)"
proof -
  have "R (db w) (db (snd (withTx auth_rb m w))) \<and> P (snd (withTx auth_rb m w))" if w: "P w" for w
  proof -
    let ?w1 = "w\<lparr>tick := Suc (tick w), txtime := Some (clock w (tick w))\<rparr>"
    have w1: "P ?w1" by (rule P_env [OF w]) simp_all
    obtain r v where v: "m ?w1 = (r, v)" by (cases "m ?w1")
    have "R (db ?w1) (db (snd (m ?w1))) \<and> P (snd (m ?w1))" using assms w1 unfolding keeps_def by blast
    then have v': "R (db w) (db v)" "P v" using v by simp_all
    have "P (w\<lparr>tick := Suc (tick w)\<rparr>)" "P (v\<lparr>db := d, txtime := t\<rparr>)"
      "P (v\<lparr>db := d, tick := Suc (tick v), txtime := t\<rparr>)" "P (v\<lparr>tick := Suc (tick v), txtime := t\<rparr>)" for d t
      by (rule P_env [OF w] P_env [OF v'(2)], simp_all)+
    then show ?thesis
      using v v' by (cases r) (auto simp: withTx_def Let_def R_refl intro: R_rollback split: option.splits)
  qed
  then have "keeps P R (withTx auth_rb m)" unfolding keeps_def by blast
  then show ?thesis by (simp add: txE_def keeps_mapErr)
qed

lemmas keeps_intro = keeps_basic keeps_randRead keeps_callPeer keeps_query keeps_bind keeps_mapErr keeps_wrapE
  keeps_tryE keeps_errors keeps_txE

text \<open>A token just drawn satisfies \<open>F\<close>.\<close>

lemma keeps_draw:
  assumes "\<And>tok. F tok \<Longrightarrow> keeps P R (f tok)"
  shows "keeps P R (bindE (internalE newRefreshToken) f)" and "keeps P R (bindE (internalE (randomB64URL 32)) f)"
proof -
  have "R (db w) (db (snd (bindE (internalE newRefreshToken) f w))) \<and> P (snd (bindE (internalE newRefreshToken) f w))"
    if w: "P w" for w
  proof -
    have "P (w\<lparr>tick := Suc (tick w)\<rparr>)" by (rule P_env [OF w]) simp_all
    then show ?thesis
      using assms [OF drawn [OF w]]
      by (auto simp: bindE_def internalE_def mapErr_def newRefreshToken_def randRead_def returnE_def Let_def keeps_def
          R_refl split: option.splits)
  qed
  then show "keeps P R (bindE (internalE newRefreshToken) f)" unfolding keeps_def by blast
  then show "keeps P R (bindE (internalE (randomB64URL 32)) f)"
    by (simp add: randomB64URL_def newRefreshToken_def)
qed

lemma keeps_cond:
  "(b \<Longrightarrow> keeps P R m) \<Longrightarrow> (\<not> b \<Longrightarrow> keeps P R m') \<Longrightarrow> keeps P R (if b then m else m')"
  "keeps P R m \<Longrightarrow> (\<And>x. keeps P R (f x)) \<Longrightarrow> keeps P R (case opt of None \<Rightarrow> m | Some x \<Rightarrow> f x)"
  "(\<And>x. keeps P R (g x)) \<Longrightarrow> (\<And>y. keeps P R (h y)) \<Longrightarrow> keeps P R (case s of Inl x \<Rightarrow> g x | Inr y \<Rightarrow> h y)"
  "(\<And>x y. keeps P R (k x y)) \<Longrightarrow> keeps P R (case p of (x, y) \<Rightarrow> k x y)"
  by (simp_all split: option.split sum.split prod.split)

lemma keeps_issue:
  assumes "F tok" and "expires \<le> absolute"
  shows "keeps P R (sql (insert_session (new_session (HashRefreshToken E tok) sid uid expires absolute ua ip)))"
proof (rule keeps_sql)
  fix d x d'
  assume "insert_session (new_session (HashRefreshToken E tok) sid uid expires absolute ua ip) d = Inr (x, d')"
  then show "R d d'"
    by (rule R_issue [OF assms(1), rotated 3])
      (use assms(2) in \<open>simp_all add: new_session_def pg_time_def zdiv_mono1\<close>)
qed

lemma keeps_revoke: "revokes Q f \<Longrightarrow> keeps P R (sql (update_sessions Q f))"
  by (rule keeps_sql) (rule R_update)

lemma keeps_code:
  "F tok \<Longrightarrow> ac_code_hash k = hashB64URLSHA256 E tok \<Longrightarrow> keeps P R (sql (insert_code k ss))"
  by (rule keeps_sql) (rule R_code)

lemma keeps_statements:
  "keeps P R (sql (delete_sessions Q))" "keeps P R (sql_now (insert_client c))" "keeps P R (sql (delete_client i))"
  "keeps P R (sql (consume_code h t))" "keeps P R (sql (upsert_consent u i ss))"
  "keeps P R (sql_now (insert_history u i ss))" "keeps P R (sql (\<lambda>d. Inl e))"
  by (rule keeps_sql keeps_sql_now, erule R_purge R_client R_unclient R_consume R_consent R_history, simp?)+
    (rule keeps_sql, simp)

lemma keeps_if_limiter: "keeps P R m \<Longrightarrow> keeps P R (\<lambda>w. case peer w of None \<Rightarrow> (Inr x, w) | Some _ \<Rightarrow> m w)"
  by (simp add: keeps_def R_refl split: option.split)

lemma keeps_limiter:
  "keeps P R (limiter_allow key)" "keeps P R (limiter_onFailure key)" "keeps P R (limiter_onSuccess key)"
  unfolding limiter_allow_def limiter_onFailure_def limiter_onSuccess_def
  by (intro keeps_if_limiter keeps_bind keeps_basic keeps_callPeer)+

lemmas keeps_all = keeps_draw keeps_cond keeps_issue keeps_code keeps_revoke keeps_statements keeps_limiter keeps_intro

lemma keeps_tokens:
  "keeps P R (verifyToken E tok)" "keeps P R (userIDFromAuthHeader E ctx)"
  "keeps P R (requirePermissionFromAuthHeader E ctx perm)" "keeps P R (getRolesAndPermissions E u)"
  "keeps P R (access_token E u rp)" "keeps P R (hashPassword E pw)" "keeps P R (GenerateSecret n)"
  unfolding verifyToken_def userIDFromAuthHeader_def requirePermissionFromAuthHeader_def getRolesAndPermissions_def
    access_token_def hashPassword_def GenerateSecret_def Let_def
  by (rule keeps_all)+

lemma keeps_client_lookup: "keeps P R (fetchOAuthClient c)" "keeps P R (oauth_client c)"
  unfolding oauth_client_def fetchOAuthClient_def Let_def by (rule keeps_all)+

lemma keeps_Login: "keeps P R (Login E ctx email password)"
  unfolding Login_def Let_def by (rule keeps_tokens keeps_all order_refl | assumption)+

lemma keeps_refresh_check: "keeps P R (refresh_check h)"
  unfolding refresh_check_def by (rule keeps_all | simp add: revokes_def split: option.split)+

lemma keeps_refresh_rotate: "keeps P R (refresh_rotate E ctx h now s)"
  unfolding refresh_rotate_def Let_def by (rule keeps_all | assumption | simp add: revokes_def)+

lemma keeps_RefreshToken: "keeps P R (RefreshToken E ctx t)"
  unfolding RefreshToken_def Let_def by (rule keeps_refresh_check keeps_refresh_rotate keeps_tokens keeps_all)+

lemma keeps_sessions:
  "keeps P R (ValidateToken E t)" "keeps P R (ListUserRoles E ctx u)" "keeps P R (Logout E t)"
  "keeps P R (LogoutAll E ctx t)" "keeps P R (CleanupRefreshSessions d)"
  unfolding ValidateToken_def ListUserRoles_def Logout_def LogoutAll_def CleanupRefreshSessions_def Let_def
  by (rule keeps_tokens keeps_all | simp add: revokes_def)+

lemma keeps_clients:
  "keeps P R (CreateOAuthClient E ctx n ty rs ss)" "keeps P R (GetOAuthClient E ctx c)"
  "keeps P R (ListOAuthClients E ctx)" "keeps P R (DeleteOAuthClient E ctx c)"
  "keeps P R (RotateOAuthClientSecret E ctx c)"
  unfolding CreateOAuthClient_def GetOAuthClient_def ListOAuthClients_def DeleteOAuthClient_def
    RotateOAuthClientSecret_def Let_def
  by (rule keeps_tokens keeps_client_lookup keeps_all)+

lemma keeps_consents:
  "keeps P R (GetOAuthConsent u c)" "keeps P R (StoreOAuthConsent u c ss)" "keeps P R (ListOAuthConsentHistory u c n)"
  unfolding GetOAuthConsent_def StoreOAuthConsent_def ListOAuthConsentHistory_def Let_def by (rule keeps_all)+

lemma keeps_OAuthAuthorize: "keeps P R (OAuthAuthorize E ctx req)"
  unfolding OAuthAuthorize_def Let_def by (rule keeps_tokens keeps_client_lookup keeps_all | assumption | simp)+

lemma keeps_OAuthToken: "keeps P R (OAuthToken E ctx req)"
  unfolding OAuthToken_def redeem_code_def Let_def
  by (rule keeps_tokens keeps_client_lookup keeps_all order_refl | assumption)+

lemmas keeps_handlers = keeps_Login keeps_RefreshToken keeps_sessions keeps_clients keeps_consents
  keeps_OAuthAuthorize keeps_OAuthToken

lemma keeps_after: "keeps P R m \<Longrightarrow> P w \<Longrightarrow> R (db w) (db (after m w)) \<and> P (after m w)"
  by (simp add: keeps_def after_def)

end

text \<open>With the statements of users and roles, every call and every sequence of calls.\<close>

locale auth_relation_all = auth_relation +
  assumes R_user: "insert_user u d = Inr (x, d') \<Longrightarrow> R d d'"
    and R_grant: "insert_user_role i j d = Inr (x, d') \<Longrightarrow> R d d'"
    and R_ungrant: "delete_user_role i j d = Inr (x, d') \<Longrightarrow> R d d'"
begin

lemma keeps_role_statements:
  "keeps P R (sql (insert_user u))" "keeps P R (sql (insert_user_role i j))" "keeps P R (sql (delete_user_role i j))"
  by (rule keeps_sql, erule R_user R_grant R_ungrant)+

lemma keeps_roles:
  "keeps P R (Register E email password name)" "keeps P R (GrantRole E ctx uid role)" "keeps P R (RevokeRole E ctx uid role)"
  unfolding Register_def GrantRole_def RevokeRole_def admin_role_id_def Let_def
  by (rule keeps_role_statements keeps_tokens keeps_all)+

lemma run_call_keeps: "P w \<Longrightarrow> R (db w) (db (run_call E c w)) \<and> P (run_call E c w)"
  by (cases c) (simp_all add: keeps_after keeps_roles keeps_handlers)

lemma serve_keeps: "P w \<Longrightarrow> R (db w) (db (serve E cs w)) \<and> P (serve E cs w)"
proof (induction cs arbitrary: w)
  case (Cons c cs)
  then show ?case using run_call_keeps [of w c] R_trans by fastforce
qed (simp add: R_refl)

end

section \<open>The invariant of the tables\<close>

definition users_wf :: "auth_db \<Rightarrow> bool" where
  "users_wf d \<longleftrightarrow> distinct (map au_id (users d)) \<and> distinct (map au_email (users d)) \<and>
     distinct (user_roles d) \<and> (\<forall>u r. (u, r) \<in> set (user_roles d) \<longrightarrow> user_exists u d \<and> role_exists r d)"

definition sessions_wf :: "auth_db \<Rightarrow> bool" where
  "sessions_wf d \<longleftrightarrow> distinct (map rs_token_hash (sessions d)) \<and>
     (\<forall>s\<in>set (sessions d). user_exists (rs_user_id s) d \<and> rs_expires_at s \<le> rs_absolute_expires_at s)"

definition oauth_wf :: "auth_db \<Rightarrow> bool" where
  "oauth_wf d \<longleftrightarrow> distinct (map oc_ID (oauth_clients d)) \<and> distinct (map ac_code_hash (codes d)) \<and>
     (\<forall>c\<in>set (codes d). user_exists (ac_user_id c) d \<and> client_exists (ac_client_id c) d) \<and>
     distinct (map (\<lambda>r. (co_user_id r, co_client_id r)) (consents d)) \<and>
     (\<forall>r\<in>set (consents d). user_exists (co_user_id r) d \<and> client_exists (co_client_id r) d) \<and>
     distinct (map ch_id (history d)) \<and>
     (\<forall>r\<in>set (history d). ch_id r < history_seq d \<and> user_exists (ch_user_id r) d \<and> client_exists (ch_client_id r) d)"

definition auth_wf :: "auth_db \<Rightarrow> bool" where
  "auth_wf d \<longleftrightarrow> users_wf d \<and> sessions_wf d \<and> oauth_wf d"

text \<open>Existence of a user or client depends only on its table.\<close>

lemma exists_update [simp]:
  "user_exists u (d\<lparr>user_roles := x1\<rparr>) = user_exists u d" "user_exists u (d\<lparr>sessions := x2\<rparr>) = user_exists u d"
  "user_exists u (d\<lparr>oauth_clients := x3\<rparr>) = user_exists u d" "user_exists u (d\<lparr>codes := x4\<rparr>) = user_exists u d"
  "user_exists u (d\<lparr>consents := x5\<rparr>) = user_exists u d" "user_exists u (d\<lparr>history := x6\<rparr>) = user_exists u d"
  "user_exists u (d\<lparr>history_seq := x7\<rparr>) = user_exists u d"
  "client_exists c (d\<lparr>users := y\<rparr>) = client_exists c d" "client_exists c (d\<lparr>user_roles := x1\<rparr>) = client_exists c d"
  "client_exists c (d\<lparr>sessions := x2\<rparr>) = client_exists c d" "client_exists c (d\<lparr>codes := x4\<rparr>) = client_exists c d"
  "client_exists c (d\<lparr>consents := x5\<rparr>) = client_exists c d" "client_exists c (d\<lparr>history := x6\<rparr>) = client_exists c d"
  "client_exists c (d\<lparr>history_seq := x7\<rparr>) = client_exists c d"
  "role_exists r (d\<lparr>users := y\<rparr>) = role_exists r d" "role_exists r (d\<lparr>user_roles := x1\<rparr>) = role_exists r d"
  "role_exists r (d\<lparr>sessions := x2\<rparr>) = role_exists r d" "role_exists r (d\<lparr>oauth_clients := x3\<rparr>) = role_exists r d"
  "role_exists r (d\<lparr>codes := x4\<rparr>) = role_exists r d" "role_exists r (d\<lparr>consents := x5\<rparr>) = role_exists r d"
  "role_exists r (d\<lparr>history := x6\<rparr>) = role_exists r d" "role_exists r (d\<lparr>history_seq := x7\<rparr>) = role_exists r d"
  by (simp_all add: user_exists_def client_exists_def role_exists_def)

lemma exists_more [simp]:
  "user_exists u d \<Longrightarrow> user_exists u (d\<lparr>users := users d @ us\<rparr>)"
  "client_exists c d \<Longrightarrow> client_exists c (d\<lparr>oauth_clients := oauth_clients d @ cs\<rparr>)"
  "client_exists c (d\<lparr>oauth_clients := filter (\<lambda>r. oc_ID r \<noteq> i) (oauth_clients d)\<rparr>) \<longleftrightarrow> client_exists c d \<and> c \<noteq> i"
  by (auto simp: user_exists_def client_exists_def)

text \<open>The parts of the invariant that an update of another table leaves alone.\<close>

lemma wf_frame [simp]:
  "users_wf (d\<lparr>sessions := x2\<rparr>) = users_wf d"
  "users_wf (d\<lparr>oauth_clients := x3\<rparr>) = users_wf d"
  "users_wf (d\<lparr>codes := x4\<rparr>) = users_wf d"
  "users_wf (d\<lparr>consents := x5\<rparr>) = users_wf d"
  "users_wf (d\<lparr>history := x6\<rparr>) = users_wf d"
  "users_wf (d\<lparr>history_seq := x7\<rparr>) = users_wf d"
  "sessions_wf (d\<lparr>user_roles := x1\<rparr>) = sessions_wf d"
  "sessions_wf (d\<lparr>oauth_clients := x3\<rparr>) = sessions_wf d"
  "sessions_wf (d\<lparr>codes := x4\<rparr>) = sessions_wf d"
  "sessions_wf (d\<lparr>consents := x5\<rparr>) = sessions_wf d"
  "sessions_wf (d\<lparr>history := x6\<rparr>) = sessions_wf d"
  "sessions_wf (d\<lparr>history_seq := x7\<rparr>) = sessions_wf d"
  "oauth_wf (d\<lparr>user_roles := x1\<rparr>) = oauth_wf d"
  "oauth_wf (d\<lparr>sessions := x2\<rparr>) = oauth_wf d"
  by (simp_all add: users_wf_def sessions_wf_def oauth_wf_def)

lemmas tables_wf_def = auth_wf_def users_wf_def sessions_wf_def oauth_wf_def

lemma distinct_map_filter_any: "distinct (map f xs) \<Longrightarrow> distinct (map f (filter Q xs))"
  by (induction xs) auto

lemma wf_insert_user: "insert_user u d = Inr (x, d') \<Longrightarrow> auth_wf d \<Longrightarrow> auth_wf d'"
  by (auto simp: insert_user_def tables_wf_def split: if_splits)

lemma wf_roles:
  "insert_user_role i j d = Inr (x, d') \<Longrightarrow> auth_wf d \<Longrightarrow> auth_wf d'"
  "delete_user_role i j d = Inr (x, d') \<Longrightarrow> auth_wf d \<Longrightarrow> auth_wf d'"
  by (auto simp: insert_user_role_def delete_user_role_def auth_wf_def users_wf_def split: if_splits)

lemma wf_sessions:
  "rs_expires_at s \<le> rs_absolute_expires_at s \<Longrightarrow> insert_session s d = Inr (x, d') \<Longrightarrow> auth_wf d \<Longrightarrow> auth_wf d'"
  "delete_sessions Q d = Inr (n, d') \<Longrightarrow> auth_wf d \<Longrightarrow> auth_wf d'"
  by (auto simp: insert_session_def delete_sessions_def auth_wf_def sessions_wf_def distinct_map_filter_any split: if_splits)

lemma wf_update_sessions:
  assumes "revokes Q f" and "update_sessions Q f d = Inr (n, d')" and "auth_wf d"
  shows "auth_wf d'"
proof -
  let ?ss = "map (\<lambda>s. if Q s then f s else s) (sessions d)"
  have "map rs_token_hash ?ss = map rs_token_hash (sessions d)" using assms(1) by (auto simp: revokes_def)
  then have "distinct (map rs_token_hash ?ss)" using assms(3) by (simp only: auth_wf_def sessions_wf_def)
  moreover have "d' = d\<lparr>sessions := ?ss\<rparr>" using assms(2) by (simp add: update_sessions_def)
  moreover have "\<forall>s\<in>set ?ss. user_exists (rs_user_id s) d \<and> rs_expires_at s \<le> rs_absolute_expires_at s"
    using assms(1,3) by (auto simp: revokes_def auth_wf_def sessions_wf_def)
  ultimately show ?thesis
    using assms(3) by (simp add: auth_wf_def sessions_wf_def del: set_map map_map)
qed

lemma wf_insert_client: "insert_client c now d = Inr (x, d') \<Longrightarrow> auth_wf d \<Longrightarrow> auth_wf d'"
proof -
  assume i: "insert_client c now d = Inr (x, d')" and wf: "auth_wf d"
  have "oc_ID c \<notin> oc_ID ` set (oauth_clients d)" using i by (auto simp: insert_client_def client_exists_def split: if_splits)
  then show ?thesis
    using i wf by (auto simp: insert_client_def auth_wf_def oauth_wf_def oauthClientRecord.extend_def split: if_splits)
qed

lemma wf_delete_client: "delete_client i d = Inr (n, d') \<Longrightarrow> auth_wf d \<Longrightarrow> auth_wf d'"
  by (auto simp: delete_client_def auth_wf_def oauth_wf_def distinct_map_filter_any)

lemmas wf_clients = wf_insert_client wf_delete_client

lemma map_update_key: "(\<And>x. f (g x) = f x) \<Longrightarrow> map f (map (\<lambda>x. if Q x then g x else x) xs) = map f xs"
  by simp

lemma wf_insert_code: "insert_code k ss d = Inr (x, d') \<Longrightarrow> auth_wf d \<Longrightarrow> auth_wf d'"
  by (auto simp: insert_code_def auth_wf_def oauth_wf_def split: if_splits option.splits)

lemma wf_consume_code: "consume_code h t d = Inr (n, d') \<Longrightarrow> auth_wf d \<Longrightarrow> auth_wf d'"
  unfolding consume_code_def auth_wf_def oauth_wf_def
  by (auto simp: map_update_key simp del: map_map)

lemma wf_upsert_consent:
  assumes "upsert_consent u i ss d = Inr (x, d')" and "auth_wf d"
  shows "auth_wf d'"
proof (cases "(u, i) \<in> (\<lambda>r. (co_user_id r, co_client_id r)) ` set (consents d)")
  case True
  then obtain s where d': "d' = d\<lparr>consents := map (\<lambda>r. if co_user_id r = u \<and> co_client_id r = i
      then r\<lparr>co_scopes := s\<rparr> else r) (consents d)\<rparr>"
    using assms(1) by (auto simp: upsert_consent_def split: option.splits)
  show ?thesis using assms(2) unfolding d' auth_wf_def oauth_wf_def
    by (auto simp: map_update_key simp del: map_map)
next
  case False
  then show ?thesis using assms by (auto simp: upsert_consent_def auth_wf_def oauth_wf_def split: if_splits option.splits)
qed

lemma wf_insert_history: "insert_history u i ss now d = Inr (x, d') \<Longrightarrow> auth_wf d \<Longrightarrow> auth_wf d'"
  by (fastforce simp: insert_history_def auth_wf_def oauth_wf_def split: if_splits option.splits)

lemmas wf_statements = wf_insert_user wf_roles wf_sessions wf_update_sessions wf_clients wf_insert_code wf_consume_code
  wf_upsert_consent wf_insert_history

lemma statements_count:
  "insert_user u d = Inr (x, d') \<Longrightarrow> history_seq d \<le> history_seq d'"
  "insert_user_role i j d = Inr (x, d') \<Longrightarrow> history_seq d \<le> history_seq d'"
  "delete_user_role i j d = Inr (x, d') \<Longrightarrow> history_seq d \<le> history_seq d'"
  "insert_session s d = Inr (x, d') \<Longrightarrow> history_seq d \<le> history_seq d'"
  "update_sessions Q f d = Inr (n, d') \<Longrightarrow> history_seq d \<le> history_seq d'"
  "delete_sessions Q d = Inr (n, d') \<Longrightarrow> history_seq d \<le> history_seq d'"
  "insert_client c now d = Inr (x, d') \<Longrightarrow> history_seq d \<le> history_seq d'"
  "delete_client i d = Inr (n, d') \<Longrightarrow> history_seq d \<le> history_seq d'"
  "insert_code k ss d = Inr (x, d') \<Longrightarrow> history_seq d \<le> history_seq d'"
  "consume_code h t d = Inr (n, d') \<Longrightarrow> history_seq d \<le> history_seq d'"
  "upsert_consent i j ss d = Inr (x, d') \<Longrightarrow> history_seq d \<le> history_seq d'"
  "insert_history i j ss now d = Inr (x, d') \<Longrightarrow> history_seq d \<le> history_seq d'"
  by (auto simp: insert_user_def insert_user_role_def delete_user_role_def insert_session_def update_sessions_def
      delete_sessions_def insert_client_def delete_client_def insert_code_def consume_code_def upsert_consent_def
      insert_history_def split: if_splits option.splits)

definition stays_wf :: "auth_db \<Rightarrow> auth_db \<Rightarrow> bool" where
  "stays_wf d d' \<longleftrightarrow> history_seq d \<le> history_seq d' \<and> (auth_wf d \<longrightarrow> auth_wf d')"

interpretation tables: auth_relation_all E "\<lambda>_. True" stays_wf "\<lambda>_. True" for E
proof unfold_locales
  show "stays_wf d d' \<Longrightarrow> stays_wf d (auth_rb d d')" for d d'
    by (fastforce simp: stays_wf_def auth_rb_def tables_wf_def)
qed (auto simp: stays_wf_def intro: wf_statements statements_count)

end
