(* ===== verification/AuthSafety.thy ===== *)
theory AuthSafety
  imports AuthProps
begin

text \<open>
  The claims about the auth service: its tables stay consistent, a refresh token and an
  authorization code are good for one use, roles change only by registration or by an
  administrator, and what detecting a reused token does not achieve.
\<close>

section \<open>Used refresh tokens and codes stay used\<close>

definition dead_token :: "string \<Rightarrow> auth_db \<Rightarrow> bool" where
  "dead_token h d \<longleftrightarrow> (\<forall>s\<in>set (sessions d). rs_token_hash s = h \<longrightarrow> rs_revoked_at s \<noteq> None)"

definition spent_code :: "string \<Rightarrow> auth_db \<Rightarrow> bool" where
  "spent_code k d \<longleftrightarrow> (\<forall>c\<in>set (codes d). ac_code_hash c = k \<longrightarrow> ac_consumed_at c \<noteq> None)"

text \<open>No token drawn from now on collides with the given hash.\<close>

definition drawn_token :: "(auth_db, loginLimiter option) world \<Rightarrow> nat \<Rightarrow> string" where
  "drawn_token w n = EncodeToString RawURLEncoding (rand_bytes 32 (uuid w n))"

definition fresh_tokens :: "auth_env \<Rightarrow> string \<Rightarrow> (auth_db, loginLimiter option) world \<Rightarrow> bool" where
  "fresh_tokens E h w \<longleftrightarrow> (\<forall>n. tick w \<le> n \<longrightarrow> HashRefreshToken E (drawn_token w n) \<noteq> h)"

definition fresh_codes :: "auth_env \<Rightarrow> string \<Rightarrow> (auth_db, loginLimiter option) world \<Rightarrow> bool" where
  "fresh_codes E k w \<longleftrightarrow> (\<forall>n. tick w \<le> n \<longrightarrow> hashB64URLSHA256 E (drawn_token w n) \<noteq> k)"

interpretation tokens: auth_relation_all E "fresh_tokens E h" "\<lambda>d d'. dead_token h d \<longrightarrow> dead_token h d'"
    "\<lambda>tok. HashRefreshToken E tok \<noteq> h" for E h
proof unfold_locales
  fix tok s d x d'
  assume "HashRefreshToken E tok \<noteq> h" "rs_token_hash s = HashRefreshToken E tok" "insert_session s d = Inr (x, d')"
  then show "dead_token h d \<longrightarrow> dead_token h d'"
    by (auto simp: insert_session_def dead_token_def split: if_splits)
next
  fix Q f d n d'
  assume "revokes Q f" "update_sessions Q f d = Inr (n, d')"
  then show "dead_token h d \<longrightarrow> dead_token h d'"
    by (auto simp: update_sessions_def dead_token_def revokes_def split: if_splits)
qed (auto simp: fresh_tokens_def drawn_token_def dead_token_def auth_rb_def delete_sessions_def insert_client_def delete_client_def
      insert_code_def consume_code_def upsert_consent_def insert_history_def insert_user_def insert_user_role_def
      delete_user_role_def split: if_splits option.splits)

interpretation grants: auth_relation_all E "fresh_codes E k" "\<lambda>d d'. spent_code k d \<longrightarrow> spent_code k d'"
    "\<lambda>tok. hashB64URLSHA256 E tok \<noteq> k" for E k
proof unfold_locales
  fix tok c ss d x d'
  assume "hashB64URLSHA256 E tok \<noteq> k" "ac_code_hash c = hashB64URLSHA256 E tok" "insert_code c ss d = Inr (x, d')"
  then show "spent_code k d \<longrightarrow> spent_code k d'"
    by (auto simp: insert_code_def spent_code_def split: if_splits option.splits)
qed (auto simp: fresh_codes_def drawn_token_def spent_code_def auth_rb_def delete_sessions_def update_sessions_def insert_session_def
      insert_client_def delete_client_def consume_code_def upsert_consent_def insert_history_def insert_user_def
      insert_user_role_def delete_user_role_def split: if_splits option.splits)

section \<open>Successful runs\<close>

lemma find_member: "find Q xs = Some x \<Longrightarrow> x \<in> set xs \<and> Q x"
  by (auto simp: find_Some_iff)

lemma find_last: "\<forall>x\<in>set xs. \<not> Q x \<Longrightarrow> Q y \<Longrightarrow> find Q (xs @ [y]) = Some y"
  by (induction xs) auto

lemma session_of_insert:
  "insert_session s d = Inr (x, d') \<Longrightarrow> session_of (rs_token_hash s) d' = Some s \<and> d' = d\<lparr>sessions := sessions d @ [s]\<rparr>"
  by (auto simp: insert_session_def session_of_def intro!: find_last split: if_splits) (metis image_eqI)

lemma refresh_rotate_inv:
  assumes "refresh_rotate E ctx h now s w = (Inr tok, w')"
  shows "tok = drawn_token w (tick w) \<and>
    (\<exists>s'. session_of (HashRefreshToken E tok) (db w') = Some s' \<and> rs_user_id s' = rs_user_id s \<and>
       rs_session_id s' = rs_session_id s \<and> rs_absolute_expires_at s' = pg_time (rs_absolute_expires_at s) \<and>
       rs_expires_at s' \<le> rs_absolute_expires_at s' \<and> rs_expires_at s' \<le> pg_time (now + ae_refreshTTL E) \<and>
       rs_revoked_at s' = None \<and> rs_replaced_by_hash s' = None) \<and>
    (session_of h (db w) \<noteq> None \<longrightarrow> dead_token h (db w'))"
proof -
  define e where "e = (if rs_absolute_expires_at s < now + ae_refreshTTL E then rs_absolute_expires_at s
    else now + ae_refreshTTL E)"
  obtain ua ip where meta: "clientMetaFromContext ctx = (ua, ip)" by fastforce
  define s' where "s' = new_session (HashRefreshToken E tok) (rs_session_id s) (rs_user_id s) e
    (rs_absolute_expires_at s) (nullIfEmpty ua) (nullIfEmpty ip)"
  define g where "g = (\<lambda>r :: refresh_session. r\<lparr>rs_last_used_at := Some (pg_time now), rs_revoked_at := Some (pg_time now),
      rs_replaced_by_hash := Some (HashRefreshToken E tok),
      rs_user_agent := (case nullIfEmpty ua of None \<Rightarrow> rs_user_agent r | v \<Rightarrow> v),
      rs_ip := (case nullIfEmpty ip of None \<Rightarrow> rs_ip r | v \<Rightarrow> v)\<rparr>)"
  obtain n d1 x where tok: "tok = drawn_token w (tick w)"
    and d1: "update_sessions (\<lambda>r. rs_token_hash r = h) g (db w) = Inr (n, d1)"
    and ins: "insert_session s' d1 = Inr (x, db w')"
    using assms [unfolded refresh_rotate_def Let_def meta prod.case, folded e_def]
    by (auto simp: go_inv drawn_token_def s'_def g_def)
  have le: "pg_time e \<le> pg_time (rs_absolute_expires_at s)" "pg_time e \<le> pg_time (now + ae_refreshTTL E)"
    by (simp_all add: e_def pg_time_def zdiv_mono1)
  have hash: "rs_token_hash s' = HashRefreshToken E tok" by (simp add: s'_def new_session_def)
  have new: "session_of (HashRefreshToken E tok) (db w') = Some s'" "db w' = d1\<lparr>sessions := sessions d1 @ [s']\<rparr>"
    using session_of_insert [OF ins, unfolded hash] by blast+
  have g: "rs_revoked_at (g r) \<noteq> None" "rs_token_hash (g r) = rs_token_hash r" for r by (simp_all add: g_def)
  have rows: "sessions d1 = map (\<lambda>r. if rs_token_hash r = h then g r else r) (sessions (db w))"
    using d1 unfolding update_sessions_def by auto
  have "dead_token h d1" unfolding dead_token_def rows using g by auto
  moreover have "HashRefreshToken E tok \<noteq> h" if known: "session_of h (db w) \<noteq> None"
  proof -
    obtain r where "r \<in> set (sessions (db w))" "rs_token_hash r = h"
      using known by (auto simp: session_of_def dest: find_member)
    then have "g r \<in> set (sessions d1)" "rs_token_hash (g r) = h" unfolding rows by (force simp: g)+
    then show ?thesis using ins hash by (auto simp: insert_session_def split: if_splits)
  qed
  ultimately have "session_of h (db w) \<noteq> None \<Longrightarrow> dead_token h (db w')"
    using new(2) hash by (auto simp: dead_token_def)
  then show ?thesis using tok new(1) le by (auto simp: s'_def new_session_def)
qed

lemma RefreshToken_inv:
  assumes "RefreshToken E ctx t w = (Inr toks, w')"
  obtains s now where "session_of (HashRefreshToken E t) (db w) = Some s"
    "rs_revoked_at s = None" "rs_replaced_by_hash s = None" "now \<le> rs_expires_at s" "now \<le> rs_absolute_expires_at s"
    "now = clock w (tick w + 2)" "dead_token (HashRefreshToken E t) (db w')"
    "\<exists>s'. session_of (HashRefreshToken E (at_RefreshToken toks)) (db w') = Some s' \<and> rs_user_id s' = rs_user_id s \<and>
       rs_session_id s' = rs_session_id s \<and> rs_absolute_expires_at s' = pg_time (rs_absolute_expires_at s) \<and>
       rs_expires_at s' \<le> rs_absolute_expires_at s' \<and> rs_expires_at s' \<le> pg_time (now + ae_refreshTTL E) \<and>
       rs_revoked_at s' = None \<and> rs_replaced_by_hash s' = None"
proof -
  let ?w1 = "w\<lparr>tick := Suc (tick w), txtime := Some (clock w (tick w))\<rparr>"
  from assms obtain now s w2 tok w3 rp w4 a b
    where chk: "refresh_check (HashRefreshToken E t) ?w1 = (Inr (now, s), w2)"
      and rot: "refresh_rotate E ctx (HashRefreshToken E t) now s w2 = (Inr tok, w3)"
      and roles: "getRolesAndPermissions E (rs_user_id s) (w3\<lparr>tick := Suc (tick w3), txtime := txtime w\<rparr>) = (Inr rp, w4)"
      and acc: "access_token E (rs_user_id s) rp w4 = (Inr (a, b), w')" and tok: "at_RefreshToken toks = tok"
    by (auto simp: RefreshToken_def Let_def go_inv split: if_splits prod.splits)
  note c = refresh_check_inv [OF chk] and r = refresh_rotate_inv [OF rot]
  have "db w' = db w3"
    using getRolesAndPermissions_inv [OF roles] access_token_inv [OF acc] by simp
  then show thesis using c r tok by (intro that [of s now]) auto
qed

text \<open>A dead token is refused; with a working database, as unauthenticated.\<close>

lemma dead_token_checked:
  assumes "dead_token h (db w)"
  shows "\<exists>e w'. refresh_check h w = (Inl e, w') \<and> (healthy w \<longrightarrow> (\<exists>m. e = Status Unauthenticated m))"
proof -
  have "fst (refresh_check h w) \<noteq> Inr x" for x
  proof
    assume "fst (refresh_check h w) = Inr x"
    then obtain now s w' where "refresh_check h w = (Inr (now, s), w')" by (metis prod.collapse)
    then have "session_of h (db w) = Some s" "rs_revoked_at s = None" using refresh_check_inv by blast+
    then show False using assms by (auto simp: session_of_def dead_token_def dest: find_member)
  qed
  then obtain e w' where e: "refresh_check h w = (Inl e, w')" by (metis prod.collapse sum.exhaust)
  moreover have "\<exists>m. e = Status Unauthenticated m" if "healthy w"
    using e that
    by (auto simp: refresh_check_def bindE_def noRowsE_def mapErr_def sql_def sql_now_def tryE_def nowUTC_def throwE_def
        returnE_def queryRow_def update_sessions_def unauth_def healthy_def Let_def ErrNoRows_def
        split: option.splits if_splits)
  ultimately show ?thesis by blast
qed

lemma dead_token_refused:
  assumes "dead_token (HashRefreshToken E t) (db w)"
  shows "\<exists>e w'. RefreshToken E ctx t w = (Inl e, w') \<and>
    (healthy w \<and> TrimSpace t \<noteq> '''' \<longrightarrow> (\<exists>m. e = Status Unauthenticated m))"
proof -
  let ?w1 = "w\<lparr>tick := Suc (tick w), txtime := Some (clock w (tick w))\<rparr>"
  obtain e v where e: "refresh_check (HashRefreshToken E t) ?w1 = (Inl e, v)"
    "healthy w \<Longrightarrow> \<exists>m. e = Status Unauthenticated m"
    using dead_token_checked [of "HashRefreshToken E t" ?w1] assms by auto
  then show ?thesis
    by (cases "fault w (tick w)")
      (auto simp: RefreshToken_def Let_def bindE_def txE_def mapErr_def withTx_def throwE_def healthy_def)
qed

lemma redeem_code_inv:
  assumes "redeem_code E rec code redirectURI verifier w = (Inr toks, w')"
  obtains c now s where "code_of (hashB64URLSHA256 E code) (oc_ID rec) (db w) = Some c"
    "code_redeemable E now redirectURI verifier c" "now = clock w (Suc (tick w))"
    "spent_code (hashB64URLSHA256 E code) (db w')"
    "session_of (HashRefreshToken E (at_RefreshToken toks)) (db w') = Some s" "rs_user_id s = ac_user_id c"
proof -
  from assms obtain c n rp v2 a b refresh v3 x d1 d2
    where c: "code_of (hashB64URLSHA256 E code) (oc_ID rec) (db w) = Some c"
      "code_redeemable E (clock w (Suc (tick w))) redirectURI verifier c"
      and con: "consume_code (hashB64URLSHA256 E code) (pg_time (clock w (Suc (tick w)))) (db w) = Inr (n, d1)"
      and rp: "getRolesAndPermissions E (ac_user_id c) (w\<lparr>tick := Suc (Suc (Suc (tick w))), db := d1\<rparr>) = (Inr rp, v2)"
      and acc: "access_token E (ac_user_id c) rp v2 = (Inr (a, b), v3)"
      and toks: "at_RefreshToken toks = refresh"
      and ins: "insert_session (new_session (HashRefreshToken E refresh) (HashRefreshToken E refresh) (ac_user_id c)
        (a + ae_refreshTTL E) (a + ae_refreshTTL E) None None) (db v3) = Inr (x, d2)" "w' = v3\<lparr>tick := Suc (Suc (tick v3)), db := d2\<rparr>"
    by (auto simp: redeem_code_def Let_def go_inv split: if_splits)
  have dbs: "db v3 = d1" using getRolesAndPermissions_inv [OF rp] access_token_inv [OF acc] by simp
  have "spent_code (hashB64URLSHA256 E code) d1"
    using con unfolding consume_code_def spent_code_def by (auto split: if_splits)
  then have "spent_code (hashB64URLSHA256 E code) (db w')"
    using session_of_insert [OF ins(1)] dbs by (simp add: spent_code_def ins(2))
  then show thesis
    using c toks session_of_insert [OF ins(1)] ins(2) by (intro that) (auto simp: new_session_def)
qed

lemma token_client_trimmed: "TrimSpace (fst (token_client ctx req)) = fst (token_client ctx req)"
  by (auto simp: token_client_def TrimSpace_idem Let_def split: option.splits)

lemma oauth_client_inv:
  "oauth_client c w = (Inr rec, w') \<Longrightarrow>
     (\<exists>row. client_of (TrimSpace c) (db w) = Some row \<and> rec = oauthClientRecord.truncate row) \<and>
     db w' = db w \<and> tick w' = Suc (tick w) \<and> clock w' = clock w"
  by (auto simp: oauth_client_def fetchOAuthClient_def Let_def go_inv split: if_splits)

lemma OAuthToken_inv:
  assumes "OAuthToken E ctx req w = (Inr toks, w')"
  obtains rec w1 w2 where "client_of (fst (token_client ctx req)) (db w) = Some rec"
    "client_secret_check E ctx (oauthClientRecord.truncate rec) (snd (token_client ctx req)) = Inr ()"
    "redeem_code E (oauthClientRecord.truncate rec) (TrimSpace (tr_Code req)) (TrimSpace (tr_RedirectUri req))
       (TrimSpace (tr_CodeVerifier req)) w1 = (Inr toks, w2)"
    "db w1 = db w" "db w' = db w2" "tick w1 = tick w + 2" "clock w1 = clock w"
proof -
  obtain cid sec where tc: "token_client ctx req = (cid, sec)" by fastforce
  from assms obtain rec v v2 where f: "oauth_client cid w = (Inr rec, v)"
    and cs: "client_secret_check E ctx rec sec = Inr ()"
    and rc: "redeem_code E rec (TrimSpace (tr_Code req)) (TrimSpace (tr_RedirectUri req)) (TrimSpace (tr_CodeVerifier req))
      (v\<lparr>tick := Suc (tick v), txtime := Some (clock v (tick v))\<rparr>) = (Inr toks, v2)"
    and w': "w' = v2\<lparr>tick := Suc (tick v2), txtime := txtime v\<rparr>"
    by (auto simp: OAuthToken_def tc Let_def go_inv split: if_splits option.splits)
  have "TrimSpace cid = cid" using token_client_trimmed [of ctx req] by (simp add: tc)
  then obtain row where "client_of cid (db w) = Some row" "rec = oauthClientRecord.truncate row" "db v = db w"
      "tick v = Suc (tick w)" "clock v = clock w"
    using oauth_client_inv [OF f] by auto
  then show thesis
    using cs rc w' tc
    by (intro that [of row "v\<lparr>tick := Suc (tick v), txtime := Some (clock v (tick v))\<rparr>" v2]) simp_all
qed

text \<open>The secret that a token request presents: the form's, or else that of the \<open>Basic\<close> credentials.\<close>

definition presented_secret :: "call_ctx \<Rightarrow> token_request \<Rightarrow> string" where
  "presented_secret ctx req =
     (if TrimSpace (tr_ClientSecret req) \<noteq> '''' then TrimSpace (tr_ClientSecret req)
      else case basicAuthFromMetadata ctx of None \<Rightarrow> '''' | Some (u, p) \<Rightarrow> TrimSpace p)"

lemma client_secret_checked:
  assumes "client_secret_check E ctx rec (snd (token_client ctx req)) = Inr ()" and "oc_Type rec = ''confidential''"
  shows "presented_secret ctx req \<noteq> '''' \<and>
    (\<exists>h. oc_SecretHash rec = Some h \<and> VerifyPassword (ae_argon2 E) (presented_secret ctx req) h = Inr True)"
proof -
  obtain h where h: "oc_SecretHash rec = Some h"
    using assms by (cases "oc_SecretHash rec") (simp_all add: client_secret_check_def)
  have "presented_secret ctx req \<noteq> '''' \<and> VerifyPassword (ae_argon2 E) (presented_secret ctx req) h = Inr True"
    using assms h
    by (cases "basicAuthFromMetadata ctx")
      (auto simp: client_secret_check_def token_client_def presented_secret_def Let_def bindS_Inr_iff
        split: if_splits sum.splits)
  then show ?thesis using h by blast
qed

lemma spent_code_refused:
  assumes "spent_code (hashB64URLSHA256 E (TrimSpace (tr_Code req))) (db w)"
  shows "\<exists>e w'. OAuthToken E ctx req w = (Inl e, w')"
proof (rule ccontr)
  assume "\<not> ?thesis"
  then obtain toks w' where "OAuthToken E ctx req w = (Inr toks, w')" by (metis prod.collapse sum.exhaust)
  then obtain rec :: oauth_client_row and w1 w2 where "redeem_code E (oauthClientRecord.truncate rec) (TrimSpace (tr_Code req))
       (TrimSpace (tr_RedirectUri req)) (TrimSpace (tr_CodeVerifier req)) w1 = (Inr toks, w2)" "db w1 = db w"
    by (rule OAuthToken_inv)
  moreover from this(1) obtain c now where
    "code_of (hashB64URLSHA256 E (TrimSpace (tr_Code req))) (oc_ID (oauthClientRecord.truncate rec)) (db w1) = Some c"
    "code_redeemable E now (TrimSpace (tr_RedirectUri req)) (TrimSpace (tr_CodeVerifier req)) c"
    by (rule redeem_code_inv)
  ultimately show False
    using assms by (auto simp: code_of_def spent_code_def code_redeemable_def dest: find_member)
qed

section \<open>Claims\<close>

lemma migrated_wf: "auth_wf migrated"
  by (simp add: tables_wf_def migrated_def)

text \<open>
  C21. The tables of the auth service stay consistent over every sequence of calls and cleanups,
  whatever they return and wherever the database fails: identifiers, e-mail addresses, token and
  code hashes are unique, every role, session, code, consent and history entry refers to an
  existing user, role and client, and no session outlives its absolute expiry.
\<close>

theorem auth_tables_consistent:
  assumes "auth_wf (db w)"
  shows "auth_wf (db (serve E calls w))"
  using assms tables.serve_keeps [of w E calls] by (simp add: stays_wf_def)

definition sample_url :: url where
  "sample_url = \<lparr>ur_Scheme = ''https'', ur_Host = ''app'', ur_Fragment = '''',
     ur_with = (\<lambda>code state. ''https://app/cb?code='' @ code)\<rparr>"

definition sample_auth :: auth_env where
  "sample_auth =
     \<lparr>ae_CreateToken = (\<lambda>p. Inr (''tok:'' @ tp_UserID p)),
      ae_VerifyToken = (\<lambda>now tok. if tok = ''adm''
        then Inr \<lparr>tp_UserID = ''root'', tp_Roles = [], tp_Permissions = [''auth:admin''], tp_LSN = 0,
                  tp_IssuedAt = 0, tp_ExpiredAt = now\<rparr>
        else Inl ErrInvalidToken),
      ae_argon2 = sample_argon2, ae_sha256 = (\<lambda>s. s), ae_url_Parse = (\<lambda>_. Some sample_url), ae_ParseAddress = (\<lambda>_. True),
      ae_ToLower = ToLower, ae_ToUpper = (\<lambda>s. s), ae_order = (\<lambda>s. s), ae_accessTTL = 900 * second,
      ae_refreshTTL = 3600 * second\<rparr>"

definition sample_ctx :: call_ctx where
  "sample_ctx = \<lparr>cc_metadata = None, cc_peer = None\<rparr>"

text \<open>A user with one session, whose token is \<open>T\<close>, and an issued code \<open>K\<close> for the client \<open>app\<close>.\<close>

definition sample_auth_db :: auth_db where
  "sample_auth_db = migrated\<lparr>
     users := [\<lparr>au_id = ''u'', au_email = ''u@x'', au_full_name = ''U'', au_password_hash = ''''\<rparr>],
     user_roles := [(''u'', ''role_customer'')],
     sessions := [new_session (HashRefreshToken sample_auth ''T'') ''S'' ''u'' (1000 * second) (1000 * second) None None],
     oauth_clients := [\<lparr>oc_ID = ''app'', oc_Name = ''App'', oc_Type = ''public'', oc_SecretHash = None,
       oc_RedirectURIs = [''cb''], oc_AllowedScopes = [], oc_created_at = 0\<rparr>],
     codes := [\<lparr>ac_code_hash = hashB64URLSHA256 sample_auth ''K'', ac_client_id = ''app'', ac_user_id = ''u'',
       ac_redirect_uri = ''cb'', ac_scopes = [], ac_code_challenge = hashB64URLSHA256 sample_auth ''V'',
       ac_code_challenge_method = ''S256'', ac_expires_at = 1000 * second, ac_consumed_at = None\<rparr>]\<rparr>"

definition sample_auth_world :: "(auth_db, loginLimiter option) world" where
  "sample_auth_world = \<lparr>db = sample_auth_db, peer = None, clock = (\<lambda>_. 0), uuid = (\<lambda>_. ''r''), fault = (\<lambda>_. None),
     tick = 0, txtime = None\<rparr>"

lemma sample_auth_wf: "auth_wf sample_auth_db"
  by (simp add: tables_wf_def sample_auth_db_def migrated_def new_session_def user_exists_def role_exists_def client_exists_def)

lemma auth_tables_consistent_witness:
  "auth_wf (db (serve sample_auth
     [RefreshTokenCall sample_ctx ''T'', LogoutCall ''T'', Cleanup 1] sample_auth_world))"
  by (rule auth_tables_consistent) (simp add: sample_auth_world_def sample_auth_wf)

text \<open>
  C18. A refresh token is good for one use, and sessions never outlive their absolute expiry. When
  \<open>RefreshToken\<close> succeeds, the session was known, neither revoked nor replaced, and not expired;
  its successor belongs to the same user and login, keeps the absolute expiry and expires no
  later; and from then on, after any sequence of calls and cleanups, the token is refused, as
  unauthenticated when the database works. The hypothesis is that no token drawn later has the
  same hash.
\<close>

theorem refresh_token_single_use:
  assumes "RefreshToken E ctx t w = (Inr toks, w')" and "fresh_tokens E (HashRefreshToken E t) w'"
  shows "(\<exists>s s'. session_of (HashRefreshToken E t) (db w) = Some s \<and>
        rs_revoked_at s = None \<and> rs_replaced_by_hash s = None \<and>
        clock w (tick w + 2) \<le> rs_expires_at s \<and> clock w (tick w + 2) \<le> rs_absolute_expires_at s \<and>
        session_of (HashRefreshToken E (at_RefreshToken toks)) (db w') = Some s' \<and>
        rs_user_id s' = rs_user_id s \<and> rs_session_id s' = rs_session_id s \<and>
        rs_absolute_expires_at s' = pg_time (rs_absolute_expires_at s) \<and>
        rs_expires_at s' \<le> rs_absolute_expires_at s' \<and> rs_revoked_at s' = None) \<and>
    (\<exists>e w''. RefreshToken E ctx' t (serve E calls w') = (Inl e, w'') \<and>
       (healthy (serve E calls w') \<longrightarrow> (\<exists>m. e = Status Unauthenticated m)))"
proof -
  obtain s now where old: "session_of (HashRefreshToken E t) (db w) = Some s" "rs_revoked_at s = None"
      "rs_replaced_by_hash s = None" "now \<le> rs_expires_at s" "now \<le> rs_absolute_expires_at s" "now = clock w (tick w + 2)"
    and dead: "dead_token (HashRefreshToken E t) (db w')"
    and new: "\<exists>s'. session_of (HashRefreshToken E (at_RefreshToken toks)) (db w') = Some s' \<and> rs_user_id s' = rs_user_id s \<and>
       rs_session_id s' = rs_session_id s \<and> rs_absolute_expires_at s' = pg_time (rs_absolute_expires_at s) \<and>
       rs_expires_at s' \<le> rs_absolute_expires_at s' \<and> rs_expires_at s' \<le> pg_time (now + ae_refreshTTL E) \<and>
       rs_revoked_at s' = None \<and> rs_replaced_by_hash s' = None"
    using assms(1) by (rule RefreshToken_inv)
  have "dead_token (HashRefreshToken E t) (db (serve E calls w'))"
    using tokens.serve_keeps [OF assms(2), of calls] dead by simp
  then have "\<exists>e w''. RefreshToken E ctx' t (serve E calls w') = (Inl e, w'') \<and>
       (healthy (serve E calls w') \<and> TrimSpace t \<noteq> '''' \<longrightarrow> (\<exists>m. e = Status Unauthenticated m))"
    by (rule dead_token_refused)
  moreover have "TrimSpace t \<noteq> ''''" using assms(1) by (auto simp: RefreshToken_def go_inv)
  ultimately show ?thesis using old new by auto
qed

lemma sample_refresh_runs: "case RefreshToken sample_auth sample_ctx ''T'' sample_auth_world of (Inr _, _) \<Rightarrow> True | (Inl _, _) \<Rightarrow> False"
  by code_simp

lemma sample_fresh_tokens: "fresh_tokens sample_auth (HashRefreshToken sample_auth ''T'') sample_auth_world"
proof -
  have "HashRefreshToken sample_auth (EncodeToString RawURLEncoding (rand_bytes 32 ''r'')) \<noteq> HashRefreshToken sample_auth ''T''"
    by code_simp
  then show ?thesis by (simp add: fresh_tokens_def drawn_token_def sample_auth_world_def)
qed

lemma refresh_token_single_use_witness:
  "\<exists>toks w'. RefreshToken sample_auth sample_ctx ''T'' sample_auth_world = (Inr toks, w') \<and>
     (\<exists>e w''. RefreshToken sample_auth sample_ctx ''T'' (serve sample_auth [LogoutCall ''T'', Cleanup 1] w') = (Inl e, w''))"
proof -
  obtain toks w' where run: "RefreshToken sample_auth sample_ctx ''T'' sample_auth_world = (Inr toks, w')"
    using sample_refresh_runs by (auto split: prod.splits sum.splits)
  have "fresh_tokens sample_auth (HashRefreshToken sample_auth ''T'') w'"
    using tokens.keeps_RefreshToken [of sample_auth "HashRefreshToken sample_auth ''T''" sample_ctx "''T''"]
      sample_fresh_tokens run unfolding keeps_def by (metis snd_conv)
  from refresh_token_single_use [OF run this, of sample_ctx "[LogoutCall ''T'', Cleanup 1]"] show ?thesis
    using run by blast
qed

text \<open>
  C37. Reuse detection protects nothing. A replaced or revoked token that comes back is refused, but
  the statements that revoke the user's other sessions run in the transaction that the error
  return rolls back: the database is unchanged, so a thief's session made from the stolen token
  stays alive.
\<close>

theorem reuse_detection_rolled_back:
  assumes "session_of (HashRefreshToken E t) (db w) = Some s" and "rs_revoked_at s \<noteq> None \<or> rs_replaced_by_hash s \<noteq> None"
  shows "\<exists>e w'. RefreshToken E ctx t w = (Inl e, w') \<and> db w' = db w \<and>
    (healthy w \<and> TrimSpace t \<noteq> '''' \<longrightarrow> e = Status Unauthenticated ''refresh token reuse detected'')"
proof -
  let ?w1 = "w\<lparr>tick := Suc (tick w), txtime := Some (clock w (tick w))\<rparr>"
  have "\<exists>e w'. refresh_check (HashRefreshToken E t) v = (Inl e, w') \<and> history_seq (db w') = history_seq (db v) \<and>
      (healthy v \<longrightarrow> e = Status Unauthenticated ''refresh token reuse detected'')"
    if "db v = db w" for v :: "(auth_db, loginLimiter option) world"
    using assms that
    by (auto simp: refresh_check_def bindE_def noRowsE_def mapErr_def sql_def sql_now_def tryE_def nowUTC_def throwE_def
        queryRow_def update_sessions_def unauth_def Let_def healthy_def split: option.splits)
  from this [of ?w1] obtain e v where "refresh_check (HashRefreshToken E t) ?w1 = (Inl e, v)"
    "history_seq (db v) = history_seq (db w)" "healthy w \<Longrightarrow> e = Status Unauthenticated ''refresh token reuse detected''"
    by auto
  then show ?thesis
    by (cases "fault w (tick w)")
      (auto simp: RefreshToken_def Let_def bindE_def txE_def mapErr_def withTx_def throwE_def auth_rb_def healthy_def)
qed

text \<open>After one refresh, the old token is presented again: refused, and the successor still works.\<close>

lemma reuse_detection_rolled_back_witness:
  "\<exists>toks w' e w''. RefreshToken sample_auth sample_ctx ''T'' sample_auth_world = (Inr toks, w') \<and>
     RefreshToken sample_auth sample_ctx ''T'' w' = (Inl e, w'') \<and> db w'' = db w'"
proof -
  obtain toks w' where run: "RefreshToken sample_auth sample_ctx ''T'' sample_auth_world = (Inr toks, w')"
    using sample_refresh_runs by (auto split: prod.splits sum.splits)
  have "case RefreshToken sample_auth sample_ctx ''T'' sample_auth_world of (_, w') \<Rightarrow>
      (case session_of (HashRefreshToken sample_auth ''T'') (db w') of None \<Rightarrow> False | Some s \<Rightarrow> rs_revoked_at s \<noteq> None)"
    by code_simp
  then obtain s where "session_of (HashRefreshToken sample_auth ''T'') (db w') = Some s" "rs_revoked_at s \<noteq> None"
    using run by (auto split: option.splits)
  then show ?thesis using reuse_detection_rolled_back [of sample_auth "''T''" w' s sample_ctx] run by blast
qed

text \<open>
  C19. The authorization code flow. When \<open>OAuthToken\<close> succeeds, the client is registered and, if
  confidential, the secret that the request presents verifies against its hash; the code was issued to
  that client for exactly this redirect URI, was not consumed, and had not expired by the clock when
  it was looked up (the fourth interaction of the call, after the client's row, the start of the
  transaction and the code's row); the verifier hashes to the challenge it was issued with; the
  refresh session belongs to the user the code was issued for. From then on the code is refused,
  whatever calls come in between, one after another. The hypothesis is that no code drawn later has
  the same hash.
\<close>

theorem authorization_code_exchange:
  assumes "OAuthToken E ctx req w = (Inr toks, w')"
    and "fresh_codes E (hashB64URLSHA256 E (TrimSpace (tr_Code req))) w'"
    and "TrimSpace (tr_Code req') = TrimSpace (tr_Code req)"
  shows "(\<exists>client c s.
        client_of (fst (token_client ctx req)) (db w) = Some client \<and>
        (oc_Type client = ''confidential'' \<longrightarrow> presented_secret ctx req \<noteq> '''' \<and>
           (\<exists>h. oc_SecretHash client = Some h \<and> VerifyPassword (ae_argon2 E) (presented_secret ctx req) h = Inr True)) \<and>
        code_of (hashB64URLSHA256 E (TrimSpace (tr_Code req))) (oc_ID client) (db w) = Some c \<and>
        ac_consumed_at c = None \<and> clock w (tick w + 3) \<le> ac_expires_at c \<and>
        ac_redirect_uri c = TrimSpace (tr_RedirectUri req) \<and>
        TrimSpace (ac_code_challenge c) = hashB64URLSHA256 E (TrimSpace (tr_CodeVerifier req)) \<and>
        session_of (HashRefreshToken E (at_RefreshToken toks)) (db w') = Some s \<and> rs_user_id s = ac_user_id c) \<and>
    (\<exists>e w''. OAuthToken E ctx' req' (serve E calls w') = (Inl e, w''))"
proof -
  let ?k = "hashB64URLSHA256 E (TrimSpace (tr_Code req))"
  obtain client w1 w2 where c: "client_of (fst (token_client ctx req)) (db w) = Some client"
      "client_secret_check E ctx (oauthClientRecord.truncate client) (snd (token_client ctx req)) = Inr ()"
    and r: "redeem_code E (oauthClientRecord.truncate client) (TrimSpace (tr_Code req)) (TrimSpace (tr_RedirectUri req))
       (TrimSpace (tr_CodeVerifier req)) w1 = (Inr toks, w2)" and dbs: "db w1 = db w" "db w' = db w2" "tick w1 = tick w + 2" "clock w1 = clock w"
    using assms(1) by (rule OAuthToken_inv)
  have id: "oc_ID (oauthClientRecord.truncate client) = oc_ID client"
    "oc_Type (oauthClientRecord.truncate client) = oc_Type client"
    "oc_SecretHash (oauthClientRecord.truncate client) = oc_SecretHash client"
    by (simp_all add: oauthClientRecord.truncate_def)
  obtain k now s where "code_of ?k (oc_ID (oauthClientRecord.truncate client)) (db w1) = Some k"
      "code_redeemable E now (TrimSpace (tr_RedirectUri req)) (TrimSpace (tr_CodeVerifier req)) k"
      "now = clock w1 (Suc (tick w1))" "session_of (HashRefreshToken E (at_RefreshToken toks)) (db w2) = Some s" "rs_user_id s = ac_user_id k"
      "spent_code ?k (db w2)"
    using r by (rule redeem_code_inv)
  then have k: "code_of ?k (oc_ID client) (db w) = Some k"
      "code_redeemable E (clock w (tick w + 3)) (TrimSpace (tr_RedirectUri req)) (TrimSpace (tr_CodeVerifier req)) k"
      "session_of (HashRefreshToken E (at_RefreshToken toks)) (db w') = Some s" "rs_user_id s = ac_user_id k"
    and spent: "spent_code ?k (db w')"
    using dbs id(1) by (simp_all add: eval_nat_numeral)
  have "oc_Type client = ''confidential'' \<Longrightarrow> presented_secret ctx req \<noteq> '''' \<and>
      (\<exists>h. oc_SecretHash client = Some h \<and> VerifyPassword (ae_argon2 E) (presented_secret ctx req) h = Inr True)"
    using client_secret_checked [OF c(2)] id by simp
  moreover have "spent_code ?k (db (serve E calls w'))"
    using grants.serve_keeps [OF assms(2), of calls] spent by simp
  then have "\<exists>e w''. OAuthToken E ctx' req' (serve E calls w') = (Inl e, w'')"
    by (intro spent_code_refused) (simp add: assms(3))
  ultimately show ?thesis
    using c(1) k unfolding code_redeemable_def by (metis linorder_not_less)
qed

definition sample_token_request :: token_request where
  "sample_token_request = \<lparr>tr_GrantType = ''authorization_code'', tr_ClientId = ''app'', tr_ClientSecret = '''',
     tr_Code = ''K'', tr_RedirectUri = ''cb'', tr_CodeVerifier = ''V''\<rparr>"

lemma authorization_code_exchange_witness:
  "\<exists>toks w'. OAuthToken sample_auth sample_ctx sample_token_request sample_auth_world = (Inr toks, w') \<and>
     (\<exists>e w''. OAuthToken sample_auth sample_ctx sample_token_request
        (serve sample_auth [RefreshTokenCall sample_ctx ''T''] w') = (Inl e, w''))"
proof -
  have "case OAuthToken sample_auth sample_ctx sample_token_request sample_auth_world of (Inr _, _) \<Rightarrow> True | (Inl _, _) \<Rightarrow> False"
    by code_simp
  then obtain toks w' where run: "OAuthToken sample_auth sample_ctx sample_token_request sample_auth_world = (Inr toks, w')"
    by (auto split: prod.splits sum.splits)
  let ?k = "hashB64URLSHA256 sample_auth (TrimSpace (tr_Code sample_token_request))"
  have "hashB64URLSHA256 sample_auth (EncodeToString RawURLEncoding (rand_bytes 32 ''r'')) \<noteq> ?k" by code_simp
  then have "fresh_codes sample_auth ?k sample_auth_world"
    by (simp add: fresh_codes_def drawn_token_def sample_auth_world_def)
  then have "fresh_codes sample_auth ?k w'"
    using grants.keeps_OAuthToken [of sample_auth ?k sample_ctx sample_token_request] run
    unfolding keeps_def by (metis snd_conv)
  from authorization_code_exchange [OF run this refl, of sample_ctx "[RefreshTokenCall sample_ctx ''T'']"] show ?thesis
    using run by blast
qed

section \<open>Who changes roles\<close>

definition same_roles :: "auth_db \<Rightarrow> auth_db \<Rightarrow> bool" where
  "same_roles d d' \<longleftrightarrow> user_roles d' = user_roles d \<and> users d' = users d"

interpretation roleless: auth_relation E "\<lambda>_. True" same_roles "\<lambda>_. True" for E
  by unfold_locales
    (auto simp: same_roles_def auth_rb_def insert_session_def update_sessions_def delete_sessions_def insert_client_def
      delete_client_def insert_code_def consume_code_def upsert_consent_def insert_history_def split: if_splits option.splits)

lemma roleless_run:
  assumes "keeps (\<lambda>_. True) same_roles m" and "m w = (r, w')"
  shows "user_roles (db w') = user_roles (db w)" "users (db w') = users (db w)"
  using assms unfolding keeps_def same_roles_def by (metis snd_conv)+

lemma bindE_error:
  "bindE m f w = (Inl e, w') \<longleftrightarrow> m w = (Inl e, w') \<or> (\<exists>x v. m w = (Inr x, v) \<and> f x v = (Inl e, w'))"
  by (auto simp: bindE_def split: prod.splits sum.splits)

lemma txE_error: "txE m w = (Inl e, w') \<Longrightarrow> user_roles (db w') = user_roles (db w)"
  using withTx_error_db [of auth_rb m w _ w']
  by (auto simp: txE_def mapErr_def auth_rb_def split: prod.splits sum.splits)

lemma Register_roles:
  assumes "Register E email password name w = (r, w')"
  shows "user_roles (db w') = user_roles (db w) \<or>
    (\<exists>uid. \<not> user_exists uid (db w) \<and> user_roles (db w') = user_roles (db w) @ [(uid, ''role_customer'')])"
proof (cases r)
  case (Inl e)
  then show ?thesis
    using assms roleless_run [OF roleless.keeps_errors(1) [OF roleless.keeps_tokens(6)]]
    by (auto simp: Register_def bindE_error Let_def liftE_def throwE_def newID_def dest!: txE_error split: if_splits)
next
  case (Inr uid)
  then obtain em pw v d1 d2 where h: "hashPassword E pw w = (Inr em, v)"
    and d1: "insert_user \<lparr>au_id = uuid v (tick v), au_email = d1, au_full_name = name, au_password_hash = em\<rparr> (db v) = Inr ((), d2)"
    and d2: "insert_user_role (uuid v (tick v)) ''role_customer'' d2 = Inr ((), db w')"
    using assms by (auto simp: Register_def Let_def go_inv split: if_splits)
  have "user_roles (db v) = user_roles (db w)" "users (db v) = users (db w)"
    using roleless_run [OF roleless.keeps_tokens(6) h] by simp_all
  moreover have "\<not> user_exists (uuid v (tick v)) (db v)" "user_roles d2 = user_roles (db v)"
    using d1 by (auto simp: insert_user_def user_exists_def split: if_splits)
  moreover have "db w' = d2 \<or> db w' = d2\<lparr>user_roles := user_roles d2 @ [(uuid v (tick v), ''role_customer'')]\<rparr>"
    using d2 unfolding insert_user_role_def by (simp split: if_splits)
  ultimately show ?thesis by (auto simp: user_exists_def)
qed

text \<open>A role of another user never changes with \<open>GrantRole\<close> or \<open>RevokeRole\<close>.\<close>

definition others_roles :: "id \<Rightarrow> auth_db \<Rightarrow> auth_db \<Rightarrow> bool" where
  "others_roles u d d' \<longleftrightarrow> (\<forall>v q. v \<noteq> u \<longrightarrow> ((v, q) \<in> set (user_roles d') \<longleftrightarrow> (v, q) \<in> set (user_roles d)))"

definition admin_call :: "auth_env \<Rightarrow> time \<Rightarrow> call_ctx \<Rightarrow> bool" where
  "admin_call E now ctx \<longleftrightarrow> (\<exists>payload. ae_VerifyToken E now (bearer_any_case ctx) = Inr payload \<and>
     ''auth:admin'' \<in> set (tp_Permissions payload))"

lemma requirePermission_db: "requirePermissionFromAuthHeader E ctx p w = (r, w') \<Longrightarrow> db w' = db w"
  by (auto simp: requirePermissionFromAuthHeader_def verifyToken_def Let_def bindE_def mapErr_def nowUTC_def liftE_def
      returnE_def throwE_def split: if_splits sum.splits)

lemma requirePermission_inv: "requirePermissionFromAuthHeader E ctx ''auth:admin'' w = (Inr x, w') \<Longrightarrow>
    admin_call E (clock w (tick w)) ctx"
  by (auto simp: requirePermissionFromAuthHeader_def verifyToken_def Let_def go_inv admin_call_def split: if_splits)

lemma role_statements:
  "insert_user_role u q d = Inr (x, d') \<Longrightarrow> others_roles u d d'"
  "delete_user_role u q d = Inr (x, d') \<Longrightarrow> others_roles u d d'"
  by (auto simp: others_roles_def insert_user_role_def delete_user_role_def split: if_splits)

lemma admin_role_id_db: "admin_role_id u q w = (r, w') \<Longrightarrow> db w' = db w"
  by (auto simp: admin_role_id_def throwE_def noRowsE_def mapErr_def sql_def sql_now_def queryRow_def Let_def
      split: if_splits option.splits)

lemma sql_outcome: "sql st w = (r, w') \<Longrightarrow> db w' = db w \<or> (\<exists>x. st (db w) = Inr (x, db w'))"
  by (auto simp: sql_def sql_now_def Let_def split: option.splits sum.splits prod.splits)

lemma internalE_outcome: "internalE m w = (r, w') \<Longrightarrow> \<exists>r'. m w = (r', w')"
  by (auto simp: internalE_def mapErr_def split: prod.splits sum.splits)

lemma role_call:
  assumes "bindE (requirePermissionFromAuthHeader E ctx ''auth:admin'') (\<lambda>_. bindE (admin_role_id u q) (\<lambda>i. internalE (sql (st i)))) w = (r, w')"
    and "\<And>i d x d'. st i d = Inr (x, d') \<Longrightarrow> others_roles u d d'"
  shows "db w' = db w \<or> admin_call E (clock w (tick w)) ctx \<and> others_roles u (db w) (db w')"
proof (cases "requirePermissionFromAuthHeader E ctx ''auth:admin'' w")
  case (Pair p v)
  note db1 = requirePermission_db [OF Pair]
  show ?thesis
  proof (cases p)
    case (Inl e)
    then show ?thesis using assms(1) Pair db1 by (simp add: bindE_def)
  next
    case (Inr y)
    then have adm: "admin_call E (clock w (tick w)) ctx" using Pair requirePermission_inv by blast
    obtain p2 v2 where p2: "admin_role_id u q v = (p2, v2)" by (cases "admin_role_id u q v")
    note db2 = admin_role_id_db [OF p2]
    show ?thesis
    proof (cases p2)
      case (Inl e)
      then show ?thesis using assms(1) Pair Inr p2 db1 db2 by (simp add: bindE_def)
    next
      case (Inr i)
      then obtain r' where "sql (st i) v2 = (r', w')"
        using assms(1) Pair \<open>p = Inr y\<close> p2 internalE_outcome by (fastforce simp: bindE_def)
      then show ?thesis using sql_outcome assms(2) adm db1 db2 by metis
    qed
  qed
qed

text \<open>
  C20. Nobody but an administrator hands out rights. Whatever call is made, with whatever arguments
  and outcome, the assignment of roles to users changes only in two ways: registering a new user
  gives that user the role \<open>role_customer\<close> and nothing else, and \<open>GrantRole\<close> and \<open>RevokeRole\<close>, called
  with a token that verifies at the time of the call and carries \<open>auth:admin\<close>, change the roles of the user they name and of
  no other.
\<close>

theorem roles_change_by_admin_only:
  assumes "user_roles (db (run_call E c w)) \<noteq> user_roles (db w)"
  shows "(\<exists>email password name uid. c = RegisterCall email password name \<and> \<not> user_exists uid (db w) \<and>
      user_roles (db (run_call E c w)) = user_roles (db w) @ [(uid, ''role_customer'')]) \<or>
    (\<exists>ctx u q. (c = GrantRoleCall ctx u q \<or> c = RevokeRoleCall ctx u q) \<and> admin_call E (clock w (tick w)) ctx \<and>
      others_roles (TrimSpace u) (db w) (db (run_call E c w)))"
proof (cases c)
  case (RegisterCall e p n)
  then show ?thesis
    using assms Register_roles [of E e p n w] by (cases "Register E e p n w") (auto simp: after_def)
next
  case (GrantRoleCall ctx u q)
  then show ?thesis
    using assms role_call [of E ctx "TrimSpace u" "TrimSpace q" "insert_user_role (TrimSpace u)" w] role_statements(1)
    by (cases "GrantRole E ctx u q w") (auto simp: after_def GrantRole_def Let_def)
next
  case (RevokeRoleCall ctx u q)
  then show ?thesis
    using assms role_call [of E ctx "TrimSpace u" "TrimSpace q" "delete_user_role (TrimSpace u)" w] role_statements(2)
    by (cases "RevokeRole E ctx u q w") (auto simp: after_def RevokeRole_def Let_def)
qed (use assms roleless.keeps_handlers in \<open>auto simp: keeps_def same_roles_def after_def\<close>)

definition sample_admin :: call_ctx where
  "sample_admin = \<lparr>cc_metadata = Some (\<lambda>k. if k = ''authorization'' then [''Bearer adm''] else []), cc_peer = None\<rparr>"

lemma roles_change_by_admin_only_witness:
  "(''u'', ''role_admin'') \<in> set (user_roles (db (run_call sample_auth (GrantRoleCall sample_admin ''u'' ''admin'') sample_auth_world))) \<and>
   admin_call sample_auth (clock sample_auth_world (tick sample_auth_world)) sample_admin"
proof -
  let ?c = "GrantRoleCall sample_admin ''u'' ''admin''"
  have new: "(''u'', ''role_admin'') \<in> set (user_roles (db (run_call sample_auth ?c sample_auth_world)))" by code_simp
  moreover have "(''u'', ''role_admin'') \<notin> set (user_roles (db sample_auth_world))" by code_simp
  ultimately have "user_roles (db (run_call sample_auth ?c sample_auth_world)) \<noteq> user_roles (db sample_auth_world)" by metis
  from roles_change_by_admin_only [OF this] show ?thesis using new by auto
qed

end
