(* ===== verification/AuditLog.thy ===== *)
theory AuditLog
  imports Prelude GoStrings
begin

text \<open>
  The audit service: the hash chain of audit log entries
  (\<open>services/audit-service/infrastructure/postgres/audit_repository.go\<close>), the gRPC methods
  (\<open>cmd/audit-service/main.go\<close>), and the NATS consumers that feed the log and the reporting table.
  SHA-256, the text \<open>json.Marshal\<close> makes of a payload and what Postgres makes of a JSON value in a
  \<open>jsonb\<close> column are parameters. A payload is the JSON value of its map. Strings are valid UTF-8, as
  \<open>json.Unmarshal\<close> makes them.
\<close>

section \<open>Entries and rows\<close>

record AuditLogEntry =
  al_Id :: id
  al_UserId :: string
  al_Action :: string
  al_ResourceType :: string
  al_ResourceId :: string
  al_Payload :: "json option"
  al_CorrelationId :: string
  al_TraceId :: string
  al_ServiceName :: string

record audit_row = AuditLogEntry +
  al_previous_hash :: string
  al_current_hash :: string
  al_created_at :: time

record money_movement =
  mv_EventType :: string
  mv_AmountKobo :: int64
  mv_Currency :: string
  mv_AccountID :: string
  mv_UserID :: string
  mv_CorrelationID :: string
  mv_TraceID :: string
  mv_OccurredAt :: time

text \<open>The rows of \<open>audit_logs\<close> in the order of \<open>sequence\<close>, and the reporting table.\<close>

record audit_db =
  audit_logs :: "audit_row list"
  money_movements :: "money_movement list"

text \<open>
  \<open>au_jsonb p\<close> is the value that comes back for a payload \<open>p\<close> written to the \<open>jsonb\<close> column, through
  \<open>AsMap\<close>, \<open>structpb.NewStruct\<close> and the column; \<open>None\<close> when Postgres rejects \<open>p\<close>. It need not be \<open>p\<close>:
  \<open>-0\<close> comes back as \<open>0\<close>, and a string with \<open>\u0000\<close> is rejected.
\<close>

record audit_env =
  au_sha256 :: "string \<Rightarrow> string"
  au_Marshal :: "json \<Rightarrow> string"
  au_jsonb :: "json \<Rightarrow> json option"

section \<open>The hash chain\<close>

definition hex_digit :: "nat \<Rightarrow> char" where
  "hex_digit n = ''0123456789abcdef'' ! n"

definition hex_byte :: "char \<Rightarrow> string" where
  "hex_byte c = [hex_digit (of_char c div 16), hex_digit (of_char c mod 16)]"

text \<open>\<open>hex.EncodeToString\<close>.\<close>

definition hex_encode :: "string \<Rightarrow> string" where
  "hex_encode bs = concat (map hex_byte bs)"

text \<open>The text that is hashed: \<open>fmt.Sprintf("%s|%s|%s|%s|%s|%s", ...)\<close>.\<close>

definition dataToHash :: "audit_env \<Rightarrow> 'a AuditLogEntry_scheme \<Rightarrow> string \<Rightarrow> string" where
  "dataToHash E e previousHash =
     al_UserId e @ ''|'' @ al_Action e @ ''|'' @ al_ResourceType e @ ''|'' @ al_ResourceId e @ ''|'' @
     (case al_Payload e of None \<Rightarrow> ''{}'' | Some p \<Rightarrow> au_Marshal E p) @ ''|'' @ previousHash"

definition CalculateHash :: "audit_env \<Rightarrow> 'a AuditLogEntry_scheme \<Rightarrow> string \<Rightarrow> string" where
  "CalculateHash E e previousHash = hex_encode (au_sha256 E (dataToHash E e previousHash))"

text \<open>\<open>select current_hash from audit_logs order by sequence desc limit 1\<close>; \<open>None\<close> is \<open>pgx.ErrNoRows\<close>.\<close>

definition last_hash :: "audit_db \<Rightarrow> string option" where
  "last_hash d = (if audit_logs d = [] then None else Some (al_current_hash (last (audit_logs d))))"

text \<open>The insert: a text column takes no NUL, the payload is what \<open>jsonb\<close> makes of it.\<close>

definition has_nul :: "AuditLogEntry \<Rightarrow> bool" where
  "has_nul e \<longleftrightarrow> list_ex (\<lambda>s. CHR 0x00 \<in> set s)
     [al_UserId e, al_Action e, al_ResourceType e, al_ResourceId e, al_CorrelationId e, al_TraceId e, al_ServiceName e]"

definition insert_audit ::
    "audit_env \<Rightarrow> AuditLogEntry \<Rightarrow> string \<Rightarrow> string \<Rightarrow> time \<Rightarrow> audit_db \<Rightarrow> go_error + unit \<times> audit_db" where
  "insert_audit E e prev cur now d =
     (let row = (\<lambda>payload. d\<lparr>audit_logs := audit_logs d @ [AuditLogEntry.extend (e\<lparr>al_Payload := payload\<rparr>)
            \<lparr>al_previous_hash = prev, al_current_hash = cur, al_created_at = now\<rparr>]\<rparr>) in
      if has_nul e then Inl (DbError ''ERROR: invalid byte sequence for encoding UTF8: 0x00 (SQLSTATE 22021)'')
      else (case al_Payload e of
        None \<Rightarrow> Inr ((), row None)
      | Some p \<Rightarrow>
          (case au_jsonb E p of
             None \<Rightarrow> Inl (DbError ''ERROR: unsupported Unicode escape sequence (SQLSTATE 22P05)'')
           | Some q \<Rightarrow> Inr ((), row (Some q)))))"

text \<open>
  \<open>Save\<close>. An error of the first query is logged and otherwise ignored, with the empty string as the
  last hash. The database draws the id (\<open>gen_random_uuid()\<close>).
\<close>

definition Save :: "audit_env \<Rightarrow> AuditLogEntry \<Rightarrow> (audit_db, 'p, unit) go" where
  "Save E entry =
     bindE (tryE (sql (\<lambda>d. Inr (last_hash d, d)))) (\<lambda>r.
     let lastHash = (case r of Inl _ \<Rightarrow> '''' | Inr None \<Rightarrow> '''' | Inr (Some h) \<Rightarrow> h);
         currentHash = CalculateHash E entry lastHash in
     bindE newID (\<lambda>i.
     sql_now (insert_audit E (entry\<lparr>al_Id := i\<rparr>) lastHash currentHash)))"

text \<open>The loop of \<open>ValidateIntegrity\<close>: verdict, rows processed and the id of the failing row.\<close>

fun validate_rows :: "audit_env \<Rightarrow> string \<Rightarrow> 32 word \<Rightarrow> audit_row list \<Rightarrow> bool \<times> 32 word \<times> string" where
  "validate_rows E expectedPrevHash count [] = (True, count, '''')"
| "validate_rows E expectedPrevHash count (r # rs) =
     (if al_previous_hash r \<noteq> expectedPrevHash then (False, count, al_Id r)
      else if CalculateHash E r (al_previous_hash r) \<noteq> al_current_hash r then (False, count, al_Id r)
      else validate_rows E (al_current_hash r) (count + 1) rs)"

text \<open>\<open>lost\<close> is what reading the rows loses; the ids of the request are not used.\<close>

definition ValidateIntegrity :: "audit_env \<Rightarrow> nat option \<Rightarrow> string \<Rightarrow> string \<Rightarrow> (audit_db, 'p, bool \<times> 32 word \<times> string) go" where
  "ValidateIntegrity E lost startID endID =
     bindE (sql (\<lambda>d. Inr (audit_logs d, d))) (\<lambda>rows. returnE (validate_rows E '''' 0 (received lost rows)))"

definition audit_List :: "nat option \<Rightarrow> string \<Rightarrow> string \<Rightarrow> string \<Rightarrow> int \<Rightarrow> (audit_db, 'p, audit_row list) go" where
  "audit_List lost userId resourceType resourceId reqLimit =
     (let limit = (if reqLimit \<le> 0 then 50 else reqLimit); limit = (if limit > 200 then 200 else limit) in
      bindE (sql (\<lambda>d. Inr (take (nat limit) (rev (filter (\<lambda>r.
        (userId = '''' \<or> al_UserId r = userId) \<and> (resourceType = '''' \<or> al_ResourceType r = resourceType) \<and>
        (resourceId = '''' \<or> al_ResourceId r = resourceId)) (audit_logs d))), d))) (\<lambda>rows.
      returnE (received lost rows)))"

definition audit_Get :: "id \<Rightarrow> (audit_db, 'p, audit_row) go" where
  "audit_Get i =
     sql (\<lambda>d. case find (\<lambda>r. al_Id r = i) (audit_logs d) of
        None \<Rightarrow> Inl (ErrorString ''no rows in result set'')
      | Some r \<Rightarrow> Inr (r, d))"

section \<open>The gRPC methods\<close>

definition status_of :: "code \<Rightarrow> string \<Rightarrow> ('d, 'p, 'a) go \<Rightarrow> ('d, 'p, 'a) go" where
  "status_of c msg m = (\<lambda>w. case m w of
     (Inl e, w') \<Rightarrow> (Inl (Status c (msg @ '': '' @ Error_text e)), w')
   | (Inr x, w') \<Rightarrow> (Inr x, w'))"

definition ListAuditLogs :: "nat option \<Rightarrow> string \<Rightarrow> string \<Rightarrow> string \<Rightarrow> int \<Rightarrow> (audit_db, 'p, audit_row list) go" where
  "ListAuditLogs lost u t i n = status_of Internal ''failed to list audit logs'' (audit_List lost u t i n)"

definition GetAuditLog :: "id \<Rightarrow> (audit_db, 'p, audit_row) go" where
  "GetAuditLog i = status_of NotFound ''audit log not found'' (audit_Get i)"

definition ValidateIntegrity_method ::
    "audit_env \<Rightarrow> nat option \<Rightarrow> string \<Rightarrow> string \<Rightarrow> (audit_db, 'p, bool \<times> 32 word \<times> string) go" where
  "ValidateIntegrity_method E lost startID endID =
     status_of Internal ''failed to validate integrity'' (ValidateIntegrity E lost startID endID)"

section \<open>The consumers\<close>

definition audit_subjects :: "string list" where
  "audit_subjects = [''auth.user.*'', ''auth.client.*'', ''payment.transfer.*'', ''account.transaction.*'']"

definition reporting_subjects :: "string list" where
  "reporting_subjects = [''ledger.entry_posted.v1'', ''payment.settled.v1'']"

text \<open>\<open>json.Unmarshal\<close> into the generated struct; a payload and a timestamp must be
  objects, the latter with the numbers \<open>seconds\<close> and \<open>nanos\<close>; it is not used afterwards.\<close>

definition dec_payload :: "json option \<Rightarrow> go_error + json option" where
  "dec_payload v = (case v of
     None \<Rightarrow> Inr None | Some JNull \<Rightarrow> Inr None | Some (JObj kvs) \<Rightarrow> Inr (Some (JObj kvs)) | Some _ \<Rightarrow> Inl JsonError)"

definition dec_timestamp :: "json option \<Rightarrow> go_error + unit" where
  "dec_timestamp v = (case v of
     None \<Rightarrow> Inr () | Some JNull \<Rightarrow> Inr ()
   | Some (JObj kvs) \<Rightarrow>
       bindS (dec_int64 (jmember kvs ''seconds'')) (\<lambda>_.
       bindS (dec_int (jmember kvs ''nanos'')) (\<lambda>n.
       if - (2 ^ 31) \<le> n \<and> n < 2 ^ 31 then Inr () else Inl JsonError))
   | Some _ \<Rightarrow> Inl JsonError)"

definition dec_audit_entry :: "json \<Rightarrow> go_error + AuditLogEntry" where
  "dec_audit_entry j =
     bindS (dec_obj j) (\<lambda>kvs.
     bindS (dec_string (jmember kvs ''id'')) (\<lambda>i.
     bindS (dec_string (jmember kvs ''user_id'')) (\<lambda>u.
     bindS (dec_string (jmember kvs ''action'')) (\<lambda>a.
     bindS (dec_string (jmember kvs ''resource_type'')) (\<lambda>rt.
     bindS (dec_string (jmember kvs ''resource_id'')) (\<lambda>ri.
     bindS (dec_timestamp (jmember kvs ''timestamp'')) (\<lambda>_.
     bindS (dec_payload (jmember kvs ''payload'')) (\<lambda>p.
     bindS (dec_string (jmember kvs ''correlation_id'')) (\<lambda>c.
     bindS (dec_string (jmember kvs ''trace_id'')) (\<lambda>t.
     bindS (dec_string (jmember kvs ''service_name'')) (\<lambda>s.
     Inr \<lparr>al_Id = i, al_UserId = u, al_Action = a, al_ResourceType = rt, al_ResourceId = ri, al_Payload = p,
          al_CorrelationId = c, al_TraceId = t, al_ServiceName = s\<rparr>)))))))))))"

text \<open>The callbacks log their errors and go on.\<close>

definition AuditConsumer_receive :: "audit_env \<Rightarrow> json \<Rightarrow> (audit_db, 'p, unit) go" where
  "AuditConsumer_receive E msg =
     (case dec_audit_entry msg of
        Inl _ \<Rightarrow> returnE ()
      | Inr entry \<Rightarrow> bindE (tryE (Save E entry)) (\<lambda>_. returnE ()))"

definition UpsertMovement :: "money_movement \<Rightarrow> (audit_db, 'p, unit) go" where
  "UpsertMovement m = sql (\<lambda>d. Inr ((), d\<lparr>money_movements := money_movements d @ [m\<lparr>mv_OccurredAt := pg_time (mv_OccurredAt m)\<rparr>]\<rparr>))"

definition dec_movement :: "json \<Rightarrow> go_error + money_movement" where
  "dec_movement j =
     bindS (dec_obj j) (\<lambda>kvs.
     bindS (dec_string (jmember kvs ''type'')) (\<lambda>ty.
     bindS (dec_int64 (jmember kvs ''amount_kobo'')) (\<lambda>amt.
     bindS (dec_string (jmember kvs ''currency'')) (\<lambda>cur.
     bindS (dec_string (jmember kvs ''account_id'')) (\<lambda>acc.
     bindS (dec_string (jmember kvs ''user_id'')) (\<lambda>u.
     bindS (dec_string (jmember kvs ''correlation_id'')) (\<lambda>c.
     bindS (dec_string (jmember kvs ''trace_id'')) (\<lambda>t.
     bindS (dec_time (jmember kvs ''occurred_at'')) (\<lambda>at.
     Inr \<lparr>mv_EventType = ty, mv_AmountKobo = amt, mv_Currency = cur, mv_AccountID = acc, mv_UserID = u,
          mv_CorrelationID = c, mv_TraceID = t, mv_OccurredAt = at\<rparr>)))))))))"

definition ReportingConsumer_receive :: "json \<Rightarrow> (audit_db, 'p, unit) go" where
  "ReportingConsumer_receive msg =
     (case dec_movement msg of
        Inl _ \<Rightarrow> returnE ()
      | Inr m \<Rightarrow> bindE (tryE (UpsertMovement m)) (\<lambda>_. returnE ()))"

text \<open>NATS subjects: tokens between dots, \<open>*\<close> for any one token.\<close>

fun tokens_match :: "string list \<Rightarrow> string list \<Rightarrow> bool" where
  "tokens_match [] [] = True"
| "tokens_match (p # ps) (t # ts) = ((p = ''*'' \<or> p = t) \<and> tokens_match ps ts)"
| "tokens_match _ _ = False"

definition subject_matches :: "string \<Rightarrow> string \<Rightarrow> bool" where
  "subject_matches pat subj = tokens_match (split_on (CHR ''.'') pat) (split_on (CHR ''.'') subj)"

section \<open>Chains\<close>

text \<open>The relation the loop checks, and the hash a chain ends with.\<close>

fun linked :: "audit_env \<Rightarrow> string \<Rightarrow> audit_row list \<Rightarrow> bool" where
  "linked E h [] \<longleftrightarrow> True"
| "linked E h (r # rs) \<longleftrightarrow>
     al_previous_hash r = h \<and> al_current_hash r = CalculateHash E r h \<and> linked E (al_current_hash r) rs"

definition head_hash :: "string \<Rightarrow> audit_row list \<Rightarrow> string" where
  "head_hash h rs = (if rs = [] then h else al_current_hash (last rs))"

lemma validate_linked: "linked E h rs \<Longrightarrow> validate_rows E h n rs = (True, n + of_nat (length rs), '''')"
  by (induction rs arbitrary: h n) (auto simp: algebra_simps)

lemma validate_not_linked: "\<not> linked E h rs \<Longrightarrow> \<not> fst (validate_rows E h n rs)"
  by (induction rs arbitrary: h n) auto

lemma validate_iff: "fst (validate_rows E h n rs) \<longleftrightarrow> linked E h rs"
  using validate_linked validate_not_linked by (metis fst_conv)

lemma linked_snoc:
  "linked E h (rs @ [r]) \<longleftrightarrow>
     linked E h rs \<and> al_previous_hash r = head_hash h rs \<and> al_current_hash r = CalculateHash E r (al_previous_hash r)"
  by (induction rs arbitrary: h) (auto simp: head_hash_def)

lemma linked_split:
  "linked E h (rs @ r # later) \<longleftrightarrow> linked E h rs \<and> al_previous_hash r = head_hash h rs \<and>
     al_current_hash r = CalculateHash E r (al_previous_hash r) \<and> linked E (al_current_hash r) later"
  by (induction rs arbitrary: h) (auto simp: head_hash_def)

lemma linked_append: "linked E h (rs @ later) \<Longrightarrow> linked E h rs"
  by (induction rs arbitrary: h) auto

lemma validate_prefix:
  "linked E h rs \<Longrightarrow> validate_rows E h n (rs @ later) = validate_rows E (head_hash h rs) (n + of_nat (length rs)) later"
  by (induction rs arbitrary: h n) (auto simp: head_hash_def algebra_simps)

text \<open>What \<open>Save\<close> stores of an entry, when the insert takes it.\<close>

definition stored_row :: "AuditLogEntry \<Rightarrow> json option \<Rightarrow> id \<Rightarrow> string \<Rightarrow> string \<Rightarrow> time \<Rightarrow> audit_row" where
  "stored_row e payload i prev cur now = AuditLogEntry.extend (e\<lparr>al_Id := i, al_Payload := payload\<rparr>)
     \<lparr>al_previous_hash = prev, al_current_hash = cur, al_created_at = now\<rparr>"

definition takes :: "audit_env \<Rightarrow> AuditLogEntry \<Rightarrow> json option \<Rightarrow> bool" where
  "takes E e payload \<longleftrightarrow> \<not> has_nul e \<and>
     (case al_Payload e of None \<Rightarrow> payload = None | Some p \<Rightarrow> payload \<noteq> None \<and> au_jsonb E p = payload)"

lemma Save_run:
  assumes "fault w (tick w + 2) = None" and "takes E e payload"
  shows "\<exists>now. Save E e w = (Inr (), w\<lparr>tick := tick w + 3, db := (db w)\<lparr>audit_logs := audit_logs (db w) @
    [let h = (if fault w (tick w) = None then head_hash '''' (audit_logs (db w)) else '''')
     in stored_row e payload (uuid w (Suc (tick w))) h (CalculateHash E e h) now]\<rparr>\<rparr>)"
proof -
  have "has_nul (e\<lparr>al_Id := i\<rparr>) = has_nul e" for i by (simp add: has_nul_def)
  then have "insert_audit E (e\<lparr>al_Id := i\<rparr>) h c t d =
      Inr ((), d\<lparr>audit_logs := audit_logs d @ [stored_row e payload i h c t]\<rparr>)" for i h c t d
    using assms(2)
    by (auto simp: insert_audit_def takes_def stored_row_def Let_def split: option.splits)
  then show ?thesis
    using assms(1)
    by (auto simp: Save_def bindE_def tryE_def sql_def sql_now_def newID_def last_hash_def head_hash_def Let_def
        eval_nat_numeral split: option.split)
qed

text \<open>The text that is hashed of the payload.\<close>

definition payload_text :: "audit_env \<Rightarrow> json option \<Rightarrow> string" where
  "payload_text E payload = (case payload of None \<Rightarrow> ''{}'' | Some p \<Rightarrow> au_Marshal E p)"

lemma CalculateHash_stored:
  "payload_text E payload = payload_text E (al_Payload e) \<Longrightarrow>
     CalculateHash E (stored_row e payload i p c t) h = CalculateHash E e h"
  by (simp add: CalculateHash_def dataToHash_def stored_row_def AuditLogEntry.extend_def payload_text_def)

lemma stored_row_simps [simp]:
  "al_previous_hash (stored_row e payload i p c t) = p" "al_current_hash (stored_row e payload i p c t) = c"
  "al_Id (stored_row e payload i p c t) = i"
  by (simp_all add: stored_row_def AuditLogEntry.extend_def)

text \<open>Entries that the table takes and whose payload comes back with the same text.\<close>

definition storable :: "audit_env \<Rightarrow> AuditLogEntry \<Rightarrow> bool" where
  "storable E e \<longleftrightarrow> (\<exists>payload. takes E e payload \<and> payload_text E payload = payload_text E (al_Payload e))"

text \<open>Entries saved one after another.\<close>

definition save_all :: "audit_env \<Rightarrow> AuditLogEntry list \<Rightarrow> (audit_db, 'p, unit) go" where
  "save_all E es = forE (Save E) es"

lemma Save_appends:
  assumes "healthy w" and "linked E '''' (audit_logs (db w))" and "storable E e"
  obtains w' where "Save E e w = (Inr (), w')" "healthy w'" "linked E '''' (audit_logs (db w'))"
    "length (audit_logs (db w')) = Suc (length (audit_logs (db w)))"
proof -
  let ?h = "head_hash '''' (audit_logs (db w))"
  obtain payload where p: "takes E e payload" "payload_text E payload = payload_text E (al_Payload e)"
    using assms(3) unfolding storable_def by blast
  obtain now where "Save E e w = (Inr (), w\<lparr>tick := tick w + 3, db := (db w)\<lparr>audit_logs := audit_logs (db w) @
      [stored_row e payload (uuid w (Suc (tick w))) ?h (CalculateHash E e ?h) now]\<rparr>\<rparr>)"
    using Save_run [OF _ p(1), of w] assms(1) by (auto simp: Let_def)
  moreover have "linked E '''' (audit_logs (db w) @ [stored_row e payload (uuid w (Suc (tick w))) ?h (CalculateHash E e ?h) now])"
    using assms(2) by (simp add: linked_snoc CalculateHash_stored [OF p(2)])
  ultimately show thesis using assms(1) that by simp
qed

lemma save_all_appends:
  "healthy w \<Longrightarrow> linked E '''' (audit_logs (db w)) \<Longrightarrow> \<forall>e\<in>set es. storable E e \<Longrightarrow>
     \<exists>w'. save_all E es w = (Inr (), w') \<and> healthy w' \<and> linked E '''' (audit_logs (db w')) \<and>
       length (audit_logs (db w')) = length (audit_logs (db w)) + length es"
proof (induction es arbitrary: w)
  case (Cons e es)
  obtain v where v: "Save E e w = (Inr (), v)" "healthy v" "linked E '''' (audit_logs (db v))"
    "length (audit_logs (db v)) = Suc (length (audit_logs (db w)))"
    using Save_appends [OF Cons.prems(1,2)] Cons.prems(3) by (metis list.set_intros(1))
  then show ?case using Cons.IH [of v] Cons.prems(3) by (simp add: save_all_def bindE_def)
qed (simp add: save_all_def returnE_def)

section \<open>What the hash determines\<close>

lemma hex_digit_inj: "a < 16 \<Longrightarrow> b < 16 \<Longrightarrow> hex_digit a = hex_digit b \<Longrightarrow> a = b"
proof -
  have "distinct ''0123456789abcdef''" by simp
  then show "a < 16 \<Longrightarrow> b < 16 \<Longrightarrow> hex_digit a = hex_digit b \<Longrightarrow> a = b"
    by (simp add: hex_digit_def nth_eq_iff_index_eq)
qed

lemma hex_byte_inj: "hex_byte a = hex_byte b \<Longrightarrow> a = b"
proof -
  assume h: "hex_byte a = hex_byte b"
  have "(of_char a :: nat) div 16 < 16" "(of_char b :: nat) div 16 < 16"
    using nat_of_char_less_256 [of a] nat_of_char_less_256 [of b] by linarith+
  then have "(of_char a :: nat) div 16 = of_char b div 16" "(of_char a :: nat) mod 16 = of_char b mod 16"
    using h hex_digit_inj by (simp_all add: hex_byte_def)
  then have "(of_char a :: nat) = of_char b" by (metis div_mult_mod_eq)
  then show ?thesis by simp
qed

lemma hex_encode_inj: "hex_encode a = hex_encode b \<Longrightarrow> a = b"
proof (induction a arbitrary: b)
  case Nil
  then show ?case by (cases b) (auto simp: hex_encode_def hex_byte_def)
next
  case (Cons x xs)
  then obtain y ys where b: "b = y # ys" by (cases b) (auto simp: hex_encode_def hex_byte_def)
  then have "hex_byte x = hex_byte y" "hex_encode xs = hex_encode ys"
    using Cons.prems by (auto simp: hex_encode_def hex_byte_def)
  then show ?case using Cons.IH hex_byte_inj b by blast
qed

lemma hex_no_bar: "CHR ''|'' \<notin> set (hex_encode s)"
proof -
  have "CHR ''|'' \<notin> set ''0123456789abcdef''" by simp
  then have bar: "CHR ''|'' \<noteq> hex_digit n" if "n < 16" for n
    using that nth_mem [of n "''0123456789abcdef''"] by (auto simp: hex_digit_def)
  have "(of_char c :: nat) div 16 < 16" for c
    using nat_of_char_less_256 [of c] by linarith
  then show ?thesis by (simp add: hex_encode_def hex_byte_def bar)
qed

lemma first_sep: "c \<notin> set a \<Longrightarrow> c \<notin> set b \<Longrightarrow> a @ c # x = b @ c # y \<longleftrightarrow> a = b \<and> x = y"
proof (induction a arbitrary: b)
  case Nil
  then show ?case by (cases b) auto
next
  case (Cons d a)
  then show ?case by (cases b) auto
qed

lemma last_bar:
  assumes "CHR ''|'' \<notin> set p" and "CHR ''|'' \<notin> set q" and "x @ CHR ''|'' # p = y @ CHR ''|'' # q"
  shows "x = y \<and> p = q"
proof -
  have "rev p @ CHR ''|'' # rev x = rev q @ CHR ''|'' # rev y"
    using arg_cong [OF assms(3), of rev] by simp
  moreover have "CHR ''|'' \<notin> set (rev p)" "CHR ''|'' \<notin> set (rev q)" using assms(1,2) by simp_all
  ultimately show ?thesis by (simp add: first_sep)
qed

text \<open>The fields the hash covers.\<close>

definition covered :: "audit_env \<Rightarrow> 'a AuditLogEntry_scheme \<Rightarrow> string \<times> string \<times> string \<times> string \<times> string" where
  "covered E e = (al_UserId e, al_Action e, al_ResourceType e, al_ResourceId e, payload_text E (al_Payload e))"

text \<open>None of the fields in front of the payload contains the separator.\<close>

definition plain :: "'a AuditLogEntry_scheme \<Rightarrow> bool" where
  "plain e \<longleftrightarrow> CHR ''|'' \<notin> set (al_UserId e) \<union> set (al_Action e) \<union> set (al_ResourceType e) \<union> set (al_ResourceId e)"

lemma dataToHash_inj:
  assumes "dataToHash E e p = dataToHash E e' q" and "plain e" and "plain e'"
    and "CHR ''|'' \<notin> set p" and "CHR ''|'' \<notin> set q"
  shows "covered E e = covered E e' \<and> p = q"
proof -
  have "payload_text E (al_Payload e) @ CHR ''|'' # p = payload_text E (al_Payload e') @ CHR ''|'' # q \<and> al_UserId e = al_UserId e' \<and>
      al_Action e = al_Action e' \<and> al_ResourceType e = al_ResourceType e' \<and> al_ResourceId e = al_ResourceId e'"
    using assms(1-3) by (simp add: dataToHash_def plain_def first_sep payload_text_def [symmetric])
  then show ?thesis
    using last_bar [OF assms(4,5), of "payload_text E (al_Payload e)" "payload_text E (al_Payload e')"] by (simp add: covered_def)
qed

definition hashed_texts :: "audit_env \<Rightarrow> audit_row list \<Rightarrow> string set" where
  "hashed_texts E rs = (\<lambda>r. dataToHash E r (al_previous_hash r)) ` set rs"

lemma head_hash_hex:
  "linked E '''' rs \<Longrightarrow> rs \<noteq> [] \<Longrightarrow> \<exists>s\<in>hashed_texts E rs. head_hash '''' rs = hex_encode (au_sha256 E s)"
  by (induction rs rule: rev_induct)
    (auto simp: linked_snoc head_hash_def hashed_texts_def CalculateHash_def)

lemma head_hash_no_bar: "linked E '''' rs \<Longrightarrow> CHR ''|'' \<notin> set (head_hash '''' rs)"
proof (cases "rs = []")
  case False
  assume "linked E '''' rs"
  then show ?thesis using head_hash_hex [of E rs] False hex_no_bar by auto
qed (simp add: head_hash_def)

lemma hex_encode_Nil: "hex_encode s = '''' \<longleftrightarrow> s = ''''"
  by (cases s) (simp_all add: hex_encode_def hex_byte_def)

text \<open>Two chains that end in the same hash agree in everything the hash covers.\<close>

lemma chains_agree:
  assumes "linked E '''' rs" and "linked E '''' rs'" and "head_hash '''' rs = head_hash '''' rs'"
    and "\<forall>r\<in>set rs. plain r" and "\<forall>r\<in>set rs'. plain r"
    and "inj_on (au_sha256 E) (hashed_texts E rs \<union> hashed_texts E rs')" and "\<forall>s. au_sha256 E s \<noteq> ''''"
  shows "map (covered E) rs = map (covered E) rs'"
  using assms
proof (induction rs arbitrary: rs' rule: rev_induct)
  case Nil
  have "rs' = []"
  proof (rule ccontr)
    assume "rs' \<noteq> []"
    then obtain s where "head_hash '''' rs' = hex_encode (au_sha256 E s)" using head_hash_hex Nil by blast
    then have "hex_encode (au_sha256 E s) = ''''" using Nil by (simp add: head_hash_def)
    then show False using Nil by (simp add: hex_encode_Nil)
  qed
  then show ?case by simp
next
  case (snoc r rs)
  obtain s where s: "head_hash '''' (rs @ [r]) = hex_encode (au_sha256 E s)" using head_hash_hex snoc.prems(1) by blast
  have "rs' \<noteq> []"
  proof
    assume "rs' = []"
    then have "hex_encode (au_sha256 E s) = ''''" using s snoc.prems(3) by (simp add: head_hash_def)
    then show False using snoc.prems(7) by (simp add: hex_encode_Nil)
  qed
  then obtain us u where rs': "rs' = us @ [u]" by (cases rs' rule: rev_cases) auto
  have r: "linked E '''' rs" "al_previous_hash r = head_hash '''' rs" "al_current_hash r = CalculateHash E r (al_previous_hash r)"
    and u: "linked E '''' us" "al_previous_hash u = head_hash '''' us" "al_current_hash u = CalculateHash E u (al_previous_hash u)"
    using snoc.prems(1,2) by (simp_all add: rs' linked_snoc)
  have "au_sha256 E (dataToHash E r (al_previous_hash r)) = au_sha256 E (dataToHash E u (al_previous_hash u))"
    using snoc.prems(3) r(3) u(3) hex_encode_inj by (simp add: rs' head_hash_def CalculateHash_def)
  then have "dataToHash E r (al_previous_hash r) = dataToHash E u (al_previous_hash u)"
    by (rule inj_onD [OF snoc.prems(6)]) (simp_all add: rs' hashed_texts_def)
  then have last: "covered E r = covered E u" "al_previous_hash r = al_previous_hash u"
    using dataToHash_inj snoc.prems(4,5) head_hash_no_bar [OF r(1)] head_hash_no_bar [OF u(1)] r(2) u(2)
    by (metis in_set_conv_decomp rs')+
  have "map (covered E) rs = map (covered E) us"
  proof (rule snoc.IH [OF r(1) u(1)])
    show "inj_on (au_sha256 E) (hashed_texts E rs \<union> hashed_texts E us)"
      using snoc.prems(6) by (rule inj_on_subset) (auto simp: hashed_texts_def rs')
  qed (use r(2) u(2) last(2) snoc.prems(4,5,7) rs' in auto)
  then show ?case using last(1) by (simp add: rs')
qed

section \<open>Claims\<close>

text \<open>
  C24. The log verifies. Entries saved one after another, with a database in which no statement fails,
  extend a valid chain to a valid chain: \<open>ValidateIntegrity\<close> afterwards says so, counts every entry (in
  32 bits) and names no failing one. The entries must have texts without NUL and payloads that the
  \<open>jsonb\<close> column takes and gives back with the same JSON text.
\<close>

theorem audit_chain_verifies:
  assumes "healthy w" and "fst (validate_rows E '''' 0 (audit_logs (db w)))" and "\<forall>e\<in>set entries. storable E e"
  shows "\<exists>w' w''. save_all E entries w = (Inr (), w') \<and>
    ValidateIntegrity E None startID endID w' =
      (Inr (True, of_nat (length (audit_logs (db w)) + length entries), ''''), w'')"
proof -
  obtain w' where w': "save_all E entries w = (Inr (), w')" "healthy w'" "linked E '''' (audit_logs (db w'))"
    "length (audit_logs (db w')) = length (audit_logs (db w)) + length entries"
    using save_all_appends assms validate_iff by blast
  then have "ValidateIntegrity E None startID endID w' =
      (Inr (True, of_nat (length (audit_logs (db w)) + length entries), ''''), w'\<lparr>tick := Suc (tick w'), db := db w'\<rparr>)"
    using validate_linked [OF w'(3), of 0]
    by (simp add: ValidateIntegrity_def bindE_def sql_def sql_now_def returnE_def received_def Let_def)
  then show ?thesis using w'(1) by blast
qed

definition sample_audit :: audit_env where
  "sample_audit = \<lparr>au_sha256 = (\<lambda>s. CHR ''x'' # s), au_Marshal = (\<lambda>_. ''{}''), au_jsonb = Some\<rparr>"

definition sample_entry :: AuditLogEntry where
  "sample_entry = \<lparr>al_Id = '''', al_UserId = ''u'', al_Action = ''login'', al_ResourceType = ''user'', al_ResourceId = ''u'',
     al_Payload = Some (JObj []), al_CorrelationId = ''c'', al_TraceId = ''t'', al_ServiceName = ''auth''\<rparr>"

lemma sample_storable: "storable sample_audit sample_entry"
  by (auto simp: storable_def takes_def has_nul_def sample_audit_def sample_entry_def)

definition sample_audit_world :: "(audit_db, unit) world" where
  "sample_audit_world = \<lparr>db = \<lparr>audit_logs = [], money_movements = []\<rparr>, peer = (), clock = (\<lambda>_. 0), uuid = (\<lambda>_. ''id''),
     fault = (\<lambda>_. None), tick = 0, txtime = None\<rparr>"

lemma audit_chain_verifies_witness:
  "\<exists>w' w''. save_all sample_audit [sample_entry, sample_entry] sample_audit_world = (Inr (), w') \<and>
     ValidateIntegrity sample_audit None '''' '''' w' = (Inr (True, 2, ''''), w'')"
  using audit_chain_verifies [of sample_audit_world sample_audit "[sample_entry, sample_entry]" "''''" "''''"]
  by (simp add: sample_audit_world_def healthy_def sample_storable)

text \<open>
  C25. Tampering shows. Take a log that verifies and put another row in the place of one of its rows,
  such that the text hashed for it is different. Then \<open>ValidateIntegrity\<close> fails and names this row or
  the one after it, and it names this row if the stored hash was not recomputed; or else SHA-256 gives
  the same value for the two texts. The hash of the last row must not have been recomputed: nothing
  follows that would show it.
\<close>

theorem audit_tamper_evident:
  assumes "ValidateIntegrity E None startID endID w = (Inr (True, n, ''''), w1)"
    and "rs = audit_logs (db w)" and "i < length rs"
    and "dataToHash E r' (al_previous_hash r') \<noteq> dataToHash E (rs ! i) (al_previous_hash (rs ! i))"
    and "Suc i < length rs \<or> al_current_hash r' = al_current_hash (rs ! i)"
    and "audit_logs (db v) = rs[i := r']" and "fault v (tick v) = None"
  shows "(\<exists>k. (k = i \<or> k = Suc i \<and> al_current_hash r' \<noteq> al_current_hash (rs ! i)) \<and>
      fst (ValidateIntegrity E None startID endID v) = Inr (False, of_nat k, al_Id (rs[i := r'] ! k))) \<or>
    au_sha256 E (dataToHash E r' (al_previous_hash r')) =
      au_sha256 E (dataToHash E (rs ! i) (al_previous_hash (rs ! i)))"
proof -
  let ?pre = "take i rs" and ?post = "drop (Suc i) rs" and ?r = "rs ! i"
  have rs: "rs = ?pre @ ?r # ?post" using assms(3) by (simp add: id_take_nth_drop)
  have "validate_rows E '''' 0 rs = (True, n, '''')"
    using assms(1,2) by (auto simp: ValidateIntegrity_def go_inv received_def)
  then have "linked E '''' rs" by (metis fst_conv validate_iff)
  then have pre: "linked E '''' ?pre" and r: "al_previous_hash ?r = head_hash '''' ?pre"
      "al_current_hash ?r = CalculateHash E ?r (al_previous_hash ?r)" and post: "linked E (al_current_hash ?r) ?post"
    using linked_split [of E "''''" ?pre ?r ?post] unfolding rs [symmetric] by blast+
  have run: "fst (ValidateIntegrity E None startID endID v) =
      Inr (validate_rows E (head_hash '''' ?pre) (of_nat i) (r' # ?post))"
    using assms(3,6,7) validate_prefix [OF pre, of 0 "r' # ?post"]
    by (simp add: ValidateIntegrity_def bindE_def sql_def sql_now_def returnE_def received_def Let_def upd_conv_take_nth_drop)
  have here: "rs[i := r'] ! i = r'" "rs[i := r'] ! Suc i = rs ! Suc i" using assms(3) by simp_all
  show ?thesis
  proof (cases "al_previous_hash r' = head_hash '''' ?pre \<and> al_current_hash r' = CalculateHash E r' (al_previous_hash r')")
    case False
    then have "fst (ValidateIntegrity E None startID endID v) = Inr (False, of_nat i, al_Id r')"
      using run by auto
    then show ?thesis using here by auto
  next
    case True
    show ?thesis
    proof (cases "al_current_hash r' = al_current_hash ?r")
      case same: True
      then show ?thesis using True r(2) hex_encode_inj by (simp add: CalculateHash_def)
    next
      case other: False
      then obtain r2 later where post': "?post = r2 # later" "r2 = rs ! Suc i"
        using assms(5) by (metis Cons_nth_drop_Suc)
      then have "fst (ValidateIntegrity E None startID endID v) = Inr (False, of_nat (Suc i), al_Id (rs ! Suc i))"
        using run True other post by (auto simp: add.commute)
      then show ?thesis using here other by (intro disjI1 exI [of _ "Suc i"]) simp
    qed
  qed
qed

definition sample_log :: "string \<Rightarrow> audit_row list" where
  "sample_log user = [stored_row (sample_entry\<lparr>al_UserId := user\<rparr>) (Some (JObj [])) ''id'' ''''
     (CalculateHash sample_audit sample_entry '''') 0]"

definition audit_world_of :: "audit_row list \<Rightarrow> (audit_db, unit) world" where
  "audit_world_of rs = sample_audit_world\<lparr>db := \<lparr>audit_logs = rs, money_movements = []\<rparr>\<rparr>"

text \<open>The user of the only entry is changed from \<open>u\<close> to \<open>v\<close>.\<close>

lemma audit_tamper_evident_witness:
  "fst (ValidateIntegrity sample_audit None '''' '''' (audit_world_of (sample_log ''v''))) = Inr (False, 0, ''id'')"
proof -
  let ?u = "audit_world_of (sample_log ''u'')" and ?v = "audit_world_of (sample_log ''v'')"
  let ?r = "\<lambda>user. hd (sample_log user)"
  have ok: "fst (ValidateIntegrity sample_audit None '''' '''' ?u) = Inr (True, 1, '''')" by code_simp
  then obtain w1 where run: "ValidateIntegrity sample_audit None '''' '''' ?u = (Inr (True, 1, ''''), w1)"
    by (metis prod.collapse)
  have texts: "au_sha256 sample_audit (dataToHash sample_audit (?r ''v'') '''') \<noteq>
      au_sha256 sample_audit (dataToHash sample_audit (?r ''u'') '''')" by code_simp
  then have "dataToHash sample_audit (?r ''v'') '''' \<noteq> dataToHash sample_audit (?r ''u'') ''''" by metis
  then show ?thesis
    using audit_tamper_evident [OF run refl, of 0 "?r ''v''" ?v] texts
    by (auto simp: audit_world_of_def sample_log_def sample_audit_world_def)
qed

text \<open>
  Nor does a rewritten tail help somebody who cannot change the last hash. If two logs verify and end
  in the same hash, they have the same entries, in number, order, user, action, resource and payload,
  provided that SHA-256 has no collision among the texts hashed in the two logs and never returns
  nothing, and that the fields in front of the payload do not contain the separator \<open>|\<close>.
\<close>

lemma audit_same_head:
  assumes "fst (validate_rows E '''' 0 rs)" and "fst (validate_rows E '''' 0 rs')"
    and "rs \<noteq> []" and "rs' \<noteq> []" and "al_current_hash (last rs) = al_current_hash (last rs')"
    and "inj_on (au_sha256 E) (hashed_texts E rs \<union> hashed_texts E rs')" and "\<forall>s. au_sha256 E s \<noteq> ''''"
    and "\<forall>r\<in>set rs \<union> set rs'. plain r"
  shows "map (covered E) rs = map (covered E) rs'"
  by (rule chains_agree) (use assms validate_iff in \<open>auto simp: head_hash_def\<close>)

text \<open>
  What the verification does not see. Rewriting the service name, the correlation and trace ids
  and the time of any entries leaves the verdict as it is; moving the separator between fields
  leaves the hash as it is; and when the connection breaks after some rows, only those are checked.
\<close>

lemma audit_uncovered_fields:
  "validate_rows E h n (map (\<lambda>r. r\<lparr>al_ServiceName := f r, al_CorrelationId := g r, al_TraceId := k r, al_created_at := t r\<rparr>) rs) =
     validate_rows E h n rs"
  by (induction rs arbitrary: h n) (simp_all add: CalculateHash_def dataToHash_def)

lemma audit_separator_ambiguous:
  "CalculateHash E (e\<lparr>al_UserId := a @ ''|'' @ b, al_Action := c\<rparr>) p = CalculateHash E (e\<lparr>al_UserId := a, al_Action := b @ ''|'' @ c\<rparr>) p"
  by (simp add: CalculateHash_def dataToHash_def)

lemma audit_partial_verdict:
  "fault w (tick w) = None \<Longrightarrow> linked E '''' (take j (audit_logs (db w))) \<Longrightarrow>
     \<exists>n w'. ValidateIntegrity E (Some j) s e w = (Inr (True, n, ''''), w')"
  using validate_linked
  by (fastforce simp: ValidateIntegrity_def bindE_def sql_def sql_now_def returnE_def received_def Let_def)

text \<open>
  A failed read breaks the chain for good. When reading the last hash fails while the insert
  succeeds, \<open>Save\<close> reports success and stores the entry with an empty link; from then on
  \<open>ValidateIntegrity\<close> reports the log as tampered with, and keeps doing so whatever is saved later.
\<close>

theorem audit_read_failure_breaks_chain:
  assumes "fault w (tick w) = Some m" and "fault w (tick w + 2) = None" and "takes E e payload"
    and "audit_logs (db w) \<noteq> []" and "al_current_hash (last (audit_logs (db w))) \<noteq> ''''"
  shows "\<exists>w'. Save E e w = (Inr (), w') \<and>
    (\<forall>later. \<not> fst (validate_rows E '''' 0 (audit_logs (db w') @ later)))"
proof -
  obtain now where save: "Save E e w = (Inr (), w\<lparr>tick := tick w + 3, db := (db w)\<lparr>audit_logs := audit_logs (db w) @
      [stored_row e payload (uuid w (Suc (tick w))) '''' (CalculateHash E e '''') now]\<rparr>\<rparr>)"
    using Save_run [OF assms(2,3)] assms(1) by (auto simp: Let_def)
  let ?r = "stored_row e payload (uuid w (Suc (tick w))) '''' (CalculateHash E e '''') now"
  have "al_previous_hash ?r \<noteq> head_hash '''' (audit_logs (db w))" using assms(4,5) by (simp add: head_hash_def)
  then have "\<not> linked E '''' (audit_logs (db w) @ [?r])" by (simp add: linked_snoc)
  then have "\<not> linked E '''' ((audit_logs (db w) @ [?r]) @ later)" for later using linked_append by blast
  then show ?thesis using save by (simp add: validate_iff)
qed

text \<open>
  Neither is a payload harmless that \<open>jsonb\<close> changes. When it comes back with another JSON text, such
  as \<open>0\<close> for \<open>-0\<close>, \<open>Save\<close> reports success, and from then on the log does not verify, whatever is saved
  later, unless SHA-256 gives the same value for the two texts.
\<close>

theorem audit_changed_payload_breaks_chain:
  assumes "healthy w" and "takes E e payload" and "payload_text E payload \<noteq> payload_text E (al_Payload e)"
  shows "\<exists>w'. Save E e w = (Inr (), w') \<and>
    ((\<forall>later. \<not> fst (validate_rows E '''' 0 (audit_logs (db w') @ later))) \<or>
     (\<exists>s t. s \<noteq> t \<and> au_sha256 E s = au_sha256 E t))"
proof -
  let ?h = "head_hash '''' (audit_logs (db w))"
  obtain now where save: "Save E e w = (Inr (), w\<lparr>tick := tick w + 3, db := (db w)\<lparr>audit_logs := audit_logs (db w) @
      [stored_row e payload (uuid w (Suc (tick w))) ?h (CalculateHash E e ?h) now]\<rparr>\<rparr>)"
    using Save_run [OF _ assms(2), of w] assms(1) by (auto simp: Let_def)
  let ?r = "stored_row e payload (uuid w (Suc (tick w))) ?h (CalculateHash E e ?h) now"
  have texts: "dataToHash E ?r ?h \<noteq> dataToHash E e ?h"
    using assms(3) by (simp add: dataToHash_def stored_row_def AuditLogEntry.extend_def payload_text_def)
  show ?thesis
  proof (cases "au_sha256 E (dataToHash E ?r ?h) = au_sha256 E (dataToHash E e ?h)")
    case True
    then show ?thesis using save texts by blast
  next
    case False
    then have "CalculateHash E ?r ?h \<noteq> CalculateHash E e ?h" using hex_encode_inj by (auto simp: CalculateHash_def)
    then have "\<not> linked E '''' (audit_logs (db w) @ [?r])" by (simp add: linked_snoc)
    then have "\<not> linked E '''' ((audit_logs (db w) @ [?r]) @ later)" for later using linked_append by blast
    then show ?thesis using save by (simp add: validate_iff)
  qed
qed

end
