(* ===== verification/Gateway.thy ===== *)
theory Gateway
  imports Complex_Main Tokens
begin

text \<open>
  The HTTP side of the gateway, \<open>src/services/api-gateway/cmd/api-gateway/main.go\<close>: the token
  buckets, the middleware and the order in which \<open>main\<close> stacks it. The state is the two limiters
  and the JWKS verifier; the peer is the JWKS endpoint. The \<open>float64\<close> quantities of a bucket are
  exact rationals: rounding is left out. A handler's result is the error it answers or the request
  that the last handler, the proxy, is given.
\<close>

section \<open>Requests\<close>

text \<open>\<open>http.CanonicalHeaderKey\<close> on the valid header names the gateway uses.\<close>

definition upper_char :: "char \<Rightarrow> char" where
  "upper_char c = (let n = of_char c :: nat in if 97 \<le> n \<and> n \<le> 122 then char_of (n - 32) else c)"

fun canonical :: "bool \<Rightarrow> string \<Rightarrow> string" where
  "canonical up [] = []"
| "canonical up (c # cs) = (if up then upper_char c else lower_char c) # canonical (c = CHR ''-'') cs"

definition CanonicalHeaderKey :: "string \<Rightarrow> string" where
  "CanonicalHeaderKey s = canonical True s"

record http_request =
  rq_Path :: string
  rq_Header :: "string \<Rightarrow> string list"
  rq_RemoteAddr :: string

definition Header_Get :: "http_request \<Rightarrow> string \<Rightarrow> string" where
  "Header_Get r k = (case rq_Header r (CanonicalHeaderKey k) of [] \<Rightarrow> '''' | v # _ \<Rightarrow> v)"

definition Header_Set :: "string \<Rightarrow> string \<Rightarrow> http_request \<Rightarrow> http_request" where
  "Header_Set k v r = r\<lparr>rq_Header := (rq_Header r)(CanonicalHeaderKey k := [v])\<rparr>"

definition Header_Del :: "string \<Rightarrow> http_request \<Rightarrow> http_request" where
  "Header_Del k r = r\<lparr>rq_Header := (rq_Header r)(CanonicalHeaderKey k := [])\<rparr>"

datatype http_result = HttpError nat string | Forwarded http_request

section \<open>Token buckets\<close>

record tokenBucket =
  tb_capacity :: rat
  tb_rate :: rat
  tb_tokens :: rat
  tb_last :: time

definition newTokenBucket :: "rat \<Rightarrow> int \<Rightarrow> time \<Rightarrow> tokenBucket" where
  "newTokenBucket reqPerSec burst now =
     (let reqPerSec = (if reqPerSec \<le> 0 then 20 else reqPerSec);
          burst = (if burst \<le> 0 then 40 else burst)
      in \<lparr>tb_capacity = of_int burst, tb_rate = reqPerSec, tb_tokens = of_int burst, tb_last = now\<rparr>)"

definition Seconds :: "duration \<Rightarrow> rat" where
  "Seconds d = of_int d / 1000000000"

definition bucket_allow :: "time \<Rightarrow> tokenBucket \<Rightarrow> bool \<times> tokenBucket" where
  "bucket_allow now b =
     (let elapsed = Seconds (now - tb_last b);
          tokens = min (tb_capacity b) (tb_tokens b + elapsed * tb_rate b);
          b = b\<lparr>tb_last := now, tb_tokens := tokens\<rparr>
      in if tokens < 1 then (False, b) else (True, b\<lparr>tb_tokens := tokens - 1\<rparr>))"

record rateLimiter =
  rl_buckets :: "string \<rightharpoonup> tokenBucket"
  rl_reqPerSec :: rat
  rl_burst :: int

definition newRateLimiter :: "rat \<Rightarrow> int \<Rightarrow> rateLimiter" where
  "newRateLimiter reqPerSec burst = \<lparr>rl_buckets = Map.empty, rl_reqPerSec = reqPerSec, rl_burst = burst\<rparr>"

text \<open>\<open>now\<close> is the clock reading of \<open>newTokenBucket\<close>, made for a new bucket only.\<close>

definition bucketFor :: "string \<Rightarrow> time \<Rightarrow> rateLimiter \<Rightarrow> tokenBucket \<times> rateLimiter" where
  "bucketFor key now l =
     (case rl_buckets l key of
        Some b \<Rightarrow> (b, l)
      | None \<Rightarrow>
          let b = newTokenBucket (rl_reqPerSec l) (rl_burst l) now
          in (b, l\<lparr>rl_buckets := (rl_buckets l)(key \<mapsto> b)\<rparr>))"

text \<open>\<open>l.bucketFor(key).allow()\<close>; the bucket is shared with the map, so the map sees the update.\<close>

definition rl_allow :: "string \<Rightarrow> time \<Rightarrow> time \<Rightarrow> rateLimiter \<Rightarrow> bool \<times> rateLimiter" where
  "rl_allow key t0 t1 l =
     (case bucketFor key t0 l of
        (b, l) \<Rightarrow> (case bucket_allow t1 b of (ok, b') \<Rightarrow> (ok, l\<lparr>rl_buckets := (rl_buckets l)(key \<mapsto> b')\<rparr>)))"

section \<open>The middleware\<close>

record gateway =
  gw_default :: rateLimiter
  gw_strict :: rateLimiter
  gw_verifier :: JWKSVerifier

type_synonym 'a gw_go = "(gateway, jwks_endpoint, 'a) go"
type_synonym handler = "http_request \<Rightarrow> http_result gw_go"

text \<open>
  What the process is started with: the two environment variables and the JWT library. \<open>ge_Float32\<close>
  is what \<open>rand.Float32\<close> yields at the \<open>n\<close>-th interaction with the outside.
\<close>

record gw_env =
  ge_jwt :: jwt_lib
  ge_PublicPrefixes :: string
  ge_EnableChaos :: string
  ge_Float32 :: "nat \<Rightarrow> rat"

text \<open>A call of the verifier, on the part of the state that is the verifier's.\<close>

definition onVerifier :: "'a jwks_go \<Rightarrow> 'a gw_go" where
  "onVerifier m = (\<lambda>w.
     case m \<lparr>db = gw_verifier (db w), peer = peer w, clock = clock w, uuid = uuid w, fault = fault w,
             tick = tick w, txtime = txtime w\<rparr> of
       (r, v) \<Rightarrow> (r, w\<lparr>tick := tick v, peer := peer v, db := (db w)\<lparr>gw_verifier := db v\<rparr>\<rparr>))"

definition limiter_step ::
    "(gateway \<Rightarrow> rateLimiter) \<Rightarrow> (rateLimiter \<Rightarrow> gateway \<Rightarrow> gateway) \<Rightarrow> string \<Rightarrow> bool gw_go" where
  "limiter_step get put key =
     bindE (\<lambda>w. (Inr (rl_buckets (get (db w)) key = None), w)) (\<lambda>new.
     bindE (if new then nowUTC else returnE 0) (\<lambda>t0.
     bindE nowUTC (\<lambda>t1. \<lambda>w.
       case rl_allow key t0 t1 (get (db w)) of (ok, l) \<Rightarrow> (Inr ok, w\<lparr>db := put l (db w)\<rparr>))))"

definition rate_key :: "http_request \<Rightarrow> string" where
  "rate_key r =
     (let key = TrimSpace (Header_Get r ''X-Fincore-Subject'');
          key = (if key = '''' then TrimSpace (rq_RemoteAddr r) else key)
      in if key = '''' then ''anonymous'' else key)"

definition withRateLimit ::
    "(gateway \<Rightarrow> rateLimiter) \<Rightarrow> (rateLimiter \<Rightarrow> gateway \<Rightarrow> gateway) \<Rightarrow> handler \<Rightarrow> handler" where
  "withRateLimit get put next r =
     bindE (limiter_step get put (rate_key r)) (\<lambda>ok.
       if \<not> ok then returnE (HttpError 429 ''rate limit exceeded'') else next r)"

definition path_matches :: "string list \<Rightarrow> string \<Rightarrow> bool" where
  "path_matches prefixes path \<longleftrightarrow> (\<exists>p\<in>set prefixes. p \<noteq> '''' \<and> HasPrefix path p)"

definition withRateLimitByPath :: "string list \<Rightarrow> handler \<Rightarrow> handler" where
  "withRateLimitByPath strictPrefixes next r =
     (if path_matches strictPrefixes (rq_Path r)
      then withRateLimit gw_strict (\<lambda>l g. g\<lparr>gw_strict := l\<rparr>) next r
      else withRateLimit gw_default (\<lambda>l g. g\<lparr>gw_default := l\<rparr>) next r)"

definition Float32 :: "gw_env \<Rightarrow> rat gw_go" where
  "Float32 env = (\<lambda>w. (Inr (ge_Float32 env (tick w)), w\<lparr>tick := Suc (tick w)\<rparr>))"

text \<open>The sleep of the second branch only lets time pass, which the clock may do between readings anyway.\<close>

definition withChaos :: "gw_env \<Rightarrow> handler \<Rightarrow> handler" where
  "withChaos env next r =
     (if ge_EnableChaos env \<noteq> ''true'' \<and> Header_Get r ''X-Chaos-Enable'' \<noteq> ''true'' then next r
      else bindE (Float32 env) (\<lambda>x.
        if x < 2 / 100 then returnE (HttpError 500 ''CHAOS_MONKEY: Simulated Network Partition'')
        else bindE (Float32 env) (\<lambda>_. next r)))"

definition stripUntrustedIdentityHeaders :: "handler \<Rightarrow> handler" where
  "stripUntrustedIdentityHeaders next r =
     next (Header_Del ''X-Fincore-Permissions'' (Header_Del ''X-Fincore-Roles'' (Header_Del ''X-Fincore-Subject'' r)))"

text \<open>\<open>strconv.FormatUint(n, 10)\<close> and \<open>strings.Join(xs, ",")\<close>.\<close>

fun decimal :: "nat \<Rightarrow> string" where
  "decimal n = (if n < 10 then [char_of (48 + n)] else decimal (n div 10) @ [char_of (48 + n mod 10)])"

fun join_comma :: "string list \<Rightarrow> string" where
  "join_comma [] = ''''"
| "join_comma [x] = x"
| "join_comma (x # xs) = x @ '','' @ join_comma xs"

definition identity_headers :: "TokenPayload \<Rightarrow> http_request \<Rightarrow> http_request" where
  "identity_headers payload r =
     (let r = (if tp_LSN payload \<noteq> 0 then Header_Set ''X-Fincore-LSN'' (decimal (unat (tp_LSN payload))) r else r);
          r = Header_Set ''X-Fincore-Subject'' (tp_UserID payload) r;
          r = (if tp_Roles payload \<noteq> [] then Header_Set ''X-Fincore-Roles'' (join_comma (tp_Roles payload)) r else r)
      in if tp_Permissions payload \<noteq> []
         then Header_Set ''X-Fincore-Permissions'' (join_comma (tp_Permissions payload)) r else r)"

definition withJWTAuth :: "jwt_lib \<Rightarrow> string list \<Rightarrow> handler \<Rightarrow> handler" where
  "withJWTAuth L publicPrefixes next r =
     (if path_matches publicPrefixes (rq_Path r) then next r
      else
        let v = TrimSpace (Header_Get r ''Authorization'') in
        if \<not> HasPrefix v ''Bearer '' then returnE (HttpError 401 ''missing authorization'')
        else
          let tok = TrimSpace (TrimPrefix v ''Bearer '') in
          if tok = '''' then returnE (HttpError 401 ''missing authorization'')
          else bindE (tryE (onVerifier (jwks_VerifyToken L tok))) (\<lambda>res.
            case res of
              Inl _ \<Rightarrow> returnE (HttpError 401 ''invalid token'')
            | Inr payload \<Rightarrow> next (identity_headers payload r)))"

definition parsePublicPrefixesEnv :: "string \<Rightarrow> string list" where
  "parsePublicPrefixesEnv env =
     (let v = TrimSpace env;
          v = (if v = '''' then ''/.well-known,/oauth/,/v1/auth/register,/v1/auth/login,/v1/auth/refresh,/v1/auth/logout,/v1/auth/logout_all'' else v)
      in filter (\<lambda>p. p \<noteq> '''') (map TrimSpace (split_on (CHR 0x2C) v)))"

text \<open>\<open>gatewayHeaderForwarder\<close>: the metadata key of a header, over the library's default matcher.\<close>

definition gatewayHeaderForwarder :: "(string \<Rightarrow> string option) \<Rightarrow> string \<Rightarrow> string option" where
  "gatewayHeaderForwarder DefaultHeaderMatcher key =
     (if EqualFold key ''Authorization'' then Some ''authorization''
      else if EqualFold key ''X-Fincore-Subject'' then Some ''x-fincore-subject''
      else if EqualFold key ''X-Fincore-Roles'' then Some ''x-fincore-roles''
      else if EqualFold key ''X-Fincore-Permissions'' then Some ''x-fincore-permissions''
      else DefaultHeaderMatcher key)"

text \<open>The handler \<open>main\<close> builds, outermost middleware last, and the state it starts with.\<close>

definition strict_prefixes :: "string list" where
  "strict_prefixes = [''/oauth/token'', ''/v1/auth/login'', ''/v1/auth/register'']"

definition gateway_handler :: "gw_env \<Rightarrow> handler" where
  "gateway_handler env =
     (let h = (\<lambda>r. returnE (Forwarded r));
          h = withChaos env h;
          h = stripUntrustedIdentityHeaders h;
          h = withJWTAuth (ge_jwt env) (parsePublicPrefixesEnv (ge_PublicPrefixes env)) h
      in withRateLimitByPath strict_prefixes h)"

definition gateway_init :: "JWKSVerifier \<Rightarrow> gateway" where
  "gateway_init v = \<lparr>gw_default = newRateLimiter 20 40, gw_strict = newRateLimiter 5 10, gw_verifier = v\<rparr>"

section \<open>How much a limiter grants\<close>

definition eff_rate :: "rateLimiter \<Rightarrow> rat" where
  "eff_rate l = (if rl_reqPerSec l \<le> 0 then 20 else rl_reqPerSec l)"

definition eff_burst :: "rateLimiter \<Rightarrow> rat" where
  "eff_burst l = of_int (if rl_burst l \<le> 0 then 40 else rl_burst l)"

lemma eff_pos: "0 < eff_rate l" "1 \<le> eff_burst l"
  by (auto simp: eff_rate_def eff_burst_def)

text \<open>The buckets of a limiter at time \<open>s\<close>: filled between empty and full, last used before.\<close>

definition bucket_ok :: "time \<Rightarrow> rateLimiter \<Rightarrow> tokenBucket \<Rightarrow> bool" where
  "bucket_ok s l b \<longleftrightarrow> tb_capacity b = eff_burst l \<and> tb_rate b = eff_rate l \<and>
     0 \<le> tb_tokens b \<and> tb_tokens b \<le> eff_burst l \<and> tb_last b \<le> s"

definition rl_ok :: "time \<Rightarrow> rateLimiter \<Rightarrow> bool" where
  "rl_ok s l \<longleftrightarrow> (\<forall>k b. rl_buckets l k = Some b \<longrightarrow> bucket_ok s l b)"

text \<open>What a key could spend at time \<open>t\<close>.\<close>

definition filled :: "tokenBucket \<Rightarrow> time \<Rightarrow> rat" where
  "filled b t = min (tb_capacity b) (tb_tokens b + Seconds (t - tb_last b) * tb_rate b)"

definition available :: "rateLimiter \<Rightarrow> string \<Rightarrow> time \<Rightarrow> rat" where
  "available l k t = (case rl_buckets l k of None \<Rightarrow> eff_burst l | Some b \<Rightarrow> filled b t)"

lemma Seconds_nonneg: "0 \<le> d \<Longrightarrow> 0 \<le> Seconds d"
  by (simp add: Seconds_def)

lemma Seconds_split: "Seconds (c - a) = Seconds (b - a) + Seconds (c - b)"
  by (simp add: Seconds_def diff_divide_distrib)

lemma filled_nonneg:
  assumes "bucket_ok s l b" and "s \<le> t"
  shows "0 \<le> filled b t"
proof -
  have "0 \<le> Seconds (t - tb_last b) * tb_rate b"
    using assms eff_pos(1) [of l] by (intro mult_nonneg_nonneg Seconds_nonneg) (auto simp: bucket_ok_def)
  then show ?thesis
    using assms(1) eff_pos(2) [of l] by (simp add: filled_def bucket_ok_def)
qed

lemma filled_grows:
  assumes "0 \<le> tb_rate b" and "s \<le> t"
  shows "filled b t \<le> filled b s + tb_rate b * Seconds (t - s)"
proof -
  have e: "tb_tokens b + Seconds (t - tb_last b) * tb_rate b =
      (tb_tokens b + Seconds (s - tb_last b) * tb_rate b) + tb_rate b * Seconds (t - s)"
    by (simp add: Seconds_split [of t "tb_last b" s] algebra_simps)
  have "0 \<le> tb_rate b * Seconds (t - s)"
    using assms by (intro mult_nonneg_nonneg Seconds_nonneg) auto
  then show ?thesis
    unfolding filled_def e by (simp add: min_def)
qed

lemma bucket_allow_eq:
  "bucket_allow t b = (1 \<le> filled b t, b\<lparr>tb_last := t, tb_tokens := filled b t - (if 1 \<le> filled b t then 1 else 0)\<rparr>)"
  by (simp add: bucket_allow_def filled_def Let_def not_less)

lemma bucket_allow_spends:
  assumes "bucket_ok s l b" and "s \<le> t" and "bucket_allow t b = (ok, b')"
  shows "bucket_ok t l b'" and "filled b' t + (if ok then 1 else 0) = filled b t"
proof -
  have f: "0 \<le> filled b t" "filled b t \<le> eff_burst l"
    using filled_nonneg [OF assms(1,2)] assms(1) by (simp_all add: filled_def bucket_ok_def)
  have b': "b' = b\<lparr>tb_last := t, tb_tokens := filled b t - (if ok then 1 else 0)\<rparr>" "ok \<longleftrightarrow> 1 \<le> filled b t"
    using assms(3) by (auto simp: bucket_allow_eq)
  have c: "tb_capacity b = eff_burst l" "tb_rate b = eff_rate l"
    using assms(1) by (simp_all add: bucket_ok_def)
  show "bucket_ok t l b'"
    using c f b' by (simp add: bucket_ok_def)
  have "filled b' t = filled b t - (if ok then 1 else 0)"
    unfolding filled_def [of b'] using c f b' by (simp add: Seconds_def min_def)
  then show "filled b' t + (if ok then 1 else 0) = filled b t" by simp
qed

lemma bucket_ok_mono: "bucket_ok s l b \<Longrightarrow> s \<le> t \<Longrightarrow> bucket_ok t l b"
  by (simp add: bucket_ok_def)

lemma new_bucket_ok:
  "bucket_ok t l (newTokenBucket (rl_reqPerSec l) (rl_burst l) t)"
  "filled (newTokenBucket (rl_reqPerSec l) (rl_burst l) s) t \<le> eff_burst l"
  "s \<le> t \<Longrightarrow> filled (newTokenBucket (rl_reqPerSec l) (rl_burst l) s) t = eff_burst l"
proof -
  show ok: "bucket_ok t l (newTokenBucket (rl_reqPerSec l) (rl_burst l) t)" for t
    using eff_pos(2) [of l]
    by (simp add: bucket_ok_def newTokenBucket_def Let_def eff_rate_def eff_burst_def)
  let ?b = "newTokenBucket (rl_reqPerSec l) (rl_burst l) s"
  have b: "tb_capacity ?b = eff_burst l" "tb_tokens ?b = eff_burst l" "tb_rate ?b = eff_rate l" "tb_last ?b = s"
    by (simp_all add: newTokenBucket_def Let_def eff_burst_def eff_rate_def)
  show "filled ?b t \<le> eff_burst l" by (simp add: filled_def b)
  assume "s \<le> t"
  then have "0 \<le> Seconds (t - s) * eff_rate l"
    using eff_pos(1) [of l] by (intro mult_nonneg_nonneg Seconds_nonneg) auto
  then show "filled ?b t = eff_burst l" by (simp add: filled_def b)
qed

text \<open>The bucket \<open>bucketFor\<close> returns is in order and can spend what was available.\<close>

lemma bucketFor_ok:
  assumes "rl_ok s l" and "s \<le> t" and "t \<le> u" and "bucketFor k t l = (b, l')"
  shows "bucket_ok t l b" and "filled b u = available l k u" and "l' = l\<lparr>rl_buckets := (rl_buckets l)(k \<mapsto> b)\<rparr>"
proof -
  have "bucket_ok t l b \<and> filled b u = available l k u \<and> l' = l\<lparr>rl_buckets := (rl_buckets l)(k \<mapsto> b)\<rparr>"
  proof (cases "rl_buckets l k")
    case None
    then show ?thesis
      using assms(3,4) new_bucket_ok(1) [of t l] new_bucket_ok(3) [of t u l]
      by (auto simp: bucketFor_def Let_def available_def)
  next
    case (Some c)
    then have "b = c" "l' = l" using assms(4) by (simp_all add: bucketFor_def)
    moreover have "bucket_ok t l c" using assms(1) Some bucket_ok_mono [OF _ assms(2)] by (auto simp: rl_ok_def)
    ultimately show ?thesis using Some by (simp add: available_def map_upd_triv)
  qed
  then show "bucket_ok t l b" and "filled b u = available l k u" and "l' = l\<lparr>rl_buckets := (rl_buckets l)(k \<mapsto> b)\<rparr>"
    by simp_all
qed

lemma available_bounds:
  assumes "rl_ok s l" and "s \<le> t"
  shows "0 \<le> available l k t" and "available l k t \<le> eff_burst l"
    and "available l k t \<le> available l k s + eff_rate l * Seconds (t - s)"
proof -
  have n: "0 \<le> eff_rate l * Seconds (t - s)"
    using assms(2) eff_pos(1) [of l] by (intro mult_nonneg_nonneg Seconds_nonneg) auto
  show "0 \<le> available l k t"
    using assms(1) eff_pos(2) [of l] filled_nonneg [OF _ assms(2)] by (auto simp: available_def rl_ok_def split: option.split)
  show "available l k t \<le> eff_burst l"
    using assms by (auto simp: available_def rl_ok_def bucket_ok_def filled_def split: option.split)
  show "available l k t \<le> available l k s + eff_rate l * Seconds (t - s)"
  proof (cases "rl_buckets l k")
    case (Some b)
    then have "tb_rate b = eff_rate l" using assms(1) by (auto simp: rl_ok_def bucket_ok_def)
    then show ?thesis
      using filled_grows [of b s t] assms(2) eff_pos(1) [of l] Some by (simp add: available_def)
  qed (simp add: available_def n)
qed

lemma rl_allow_spends:
  assumes ok: "rl_ok s l" and t: "s \<le> t0" "t0 \<le> t1" and a: "rl_allow k t0 t1 l = (g, l')"
  shows "rl_ok t1 l'" and "eff_rate l' = eff_rate l" and "eff_burst l' = eff_burst l"
    and "available l' j t1 + (if g \<and> j = k then 1 else 0) \<le> available l j s + eff_rate l * Seconds (t1 - s)"
proof -
  obtain b l1 where f: "bucketFor k t0 l = (b, l1)" by fastforce
  note b = bucketFor_ok [OF ok t f]
  obtain b' where s: "bucket_allow t1 b = (g, b')" and l': "l' = l\<lparr>rl_buckets := (rl_buckets l)(k \<mapsto> b')\<rparr>"
    using a f b(3) by (auto simp: rl_allow_def split: prod.splits)
  note c = bucket_allow_spends [OF b(1) t(2) s]
  have same: "bucket_ok u l' = bucket_ok u l" for u
    by (simp add: l' bucket_ok_def eff_rate_def eff_burst_def fun_eq_iff)
  show "eff_rate l' = eff_rate l" "eff_burst l' = eff_burst l"
    by (simp_all add: l' eff_rate_def eff_burst_def)
  show "rl_ok t1 l'"
    using ok t c(1) bucket_ok_mono [of s l _ t1] unfolding rl_ok_def same by (auto simp: l')
  have "available l' j t1 + (if g \<and> j = k then 1 else 0) \<le> available l j t1"
    using c(2) b(2) by (cases "j = k") (auto simp: l' available_def eff_burst_def split: option.split)
  also have "\<dots> \<le> available l j s + eff_rate l * Seconds (t1 - s)"
    using available_bounds(3) [OF ok, of t1 j] t by simp
  finally show "available l' j t1 + (if g \<and> j = k then 1 else 0) \<le> available l j s + eff_rate l * Seconds (t1 - s)" .
qed

text \<open>
  A history of a limiter: who asked, the clock readings of \<open>bucketFor\<close> and \<open>allow\<close>. The clock goes
  forward. \<open>granted k\<close> counts the requests of \<open>k\<close> that pass.
\<close>

type_synonym ask = "string \<times> time \<times> time"

fun in_order :: "time \<Rightarrow> ask list \<Rightarrow> bool" where
  "in_order s [] \<longleftrightarrow> True"
| "in_order s ((k, t0, t1) # as) \<longleftrightarrow> s \<le> t0 \<and> t0 \<le> t1 \<and> in_order t1 as"

fun end_time :: "time \<Rightarrow> ask list \<Rightarrow> time" where
  "end_time s [] = s"
| "end_time s ((k, t0, t1) # as) = end_time t1 as"

fun serve_asks :: "ask list \<Rightarrow> rateLimiter \<Rightarrow> rateLimiter" where
  "serve_asks [] l = l"
| "serve_asks ((k, t0, t1) # as) l = serve_asks as (snd (rl_allow k t0 t1 l))"

fun granted :: "string \<Rightarrow> ask list \<Rightarrow> rateLimiter \<Rightarrow> nat" where
  "granted j [] l = 0"
| "granted j ((k, t0, t1) # as) l =
     (case rl_allow k t0 t1 l of (g, l') \<Rightarrow> (if g \<and> j = k then 1 else 0) + granted j as l')"

lemma in_order_append: "in_order s (as @ bs) \<longleftrightarrow> in_order s as \<and> in_order (end_time s as) bs"
  by (induction s as rule: in_order.induct) auto

lemma serve_asks_ok:
  "rl_ok s l \<Longrightarrow> in_order s as \<Longrightarrow>
     rl_ok (end_time s as) (serve_asks as l) \<and> eff_rate (serve_asks as l) = eff_rate l \<and>
     eff_burst (serve_asks as l) = eff_burst l"
proof (induction as arbitrary: s l)
  case (Cons a as)
  obtain k t0 t1 where a: "a = (k, t0, t1)" by (cases a)
  obtain g l' where l': "rl_allow k t0 t1 l = (g, l')" by fastforce
  have t: "s \<le> t0" "t0 \<le> t1" "in_order t1 as" using Cons.prems(2) by (simp_all add: a)
  note s = rl_allow_spends [OF Cons.prems(1) t(1,2) l']
  show ?case
    using Cons.IH [OF s(1) t(3)] s(2,3) by (simp add: a l')
qed simp

lemma granted_bound:
  "rl_ok s l \<Longrightarrow> in_order s as \<Longrightarrow>
     of_nat (granted j as l) \<le> available l j s + eff_rate l * Seconds (end_time s as - s)"
proof (induction as arbitrary: s l)
  case Nil
  then show ?case using available_bounds(1) [of s l s j] by (simp add: Seconds_def)
next
  case (Cons a as)
  obtain k t0 t1 where a: "a = (k, t0, t1)" by (cases a)
  obtain g l' where l': "rl_allow k t0 t1 l = (g, l')" by fastforce
  have t: "s \<le> t0" "t0 \<le> t1" "in_order t1 as" using Cons.prems(2) by (simp_all add: a)
  note s = rl_allow_spends [OF Cons.prems(1) t(1,2) l']
  have "of_nat (granted j (a # as) l) = (if g \<and> j = k then 1 else 0) + of_nat (granted j as l')"
    by (simp add: a l')
  also have "\<dots> \<le> (if g \<and> j = k then 1 else 0) + (available l' j t1 + eff_rate l * Seconds (end_time t1 as - t1))"
    using Cons.IH [OF s(1) t(3)] s(2) by simp
  also have "\<dots> \<le> available l j s + eff_rate l * Seconds (t1 - s) + eff_rate l * Seconds (end_time t1 as - t1)"
    using s(4) [of j] by simp
  also have "\<dots> = available l j s + eff_rate l * Seconds (end_time s (a # as) - s)"
    by (simp add: a Seconds_split [of "end_time t1 as" s t1] algebra_simps)
  finally show ?case .
qed

text \<open>
  C28. The token buckets bound the traffic of a key. Whatever a limiter has served before (\<open>pre\<close>),
  in any window of requests that follows (\<open>asks\<close>), mixed with those of other keys, a key is granted
  at most the burst plus the rate times the length of the window in seconds.
\<close>

theorem rate_limit_bound:
  assumes "in_order s (pre @ asks)"
  shows "of_nat (granted k asks (serve_asks pre (newRateLimiter reqPerSec burst)))
     \<le> of_int (if burst \<le> 0 then 40 else burst)
       + (if reqPerSec \<le> 0 then 20 else reqPerSec) * Seconds (end_time s (pre @ asks) - end_time s pre)"
proof -
  let ?l = "newRateLimiter reqPerSec burst" and ?m = "end_time s pre"
  have "rl_ok s ?l" by (simp add: rl_ok_def newRateLimiter_def)
  moreover have o: "in_order s pre" "in_order ?m asks" using assms by (simp_all add: in_order_append)
  ultimately have m: "rl_ok ?m (serve_asks pre ?l)" "eff_rate (serve_asks pre ?l) = eff_rate ?l"
      "eff_burst (serve_asks pre ?l) = eff_burst ?l"
    using serve_asks_ok by blast+
  have e: "end_time s (pre @ asks) = end_time ?m asks"
    by (induction s pre rule: end_time.induct) auto
  show ?thesis
    using granted_bound [OF m(1) o(2), of k] available_bounds(2) [OF m(1) order.refl, of k] m(2,3)
    by (simp add: e eff_rate_def eff_burst_def newRateLimiter_def split: if_splits)
qed

definition busy_asks :: "ask list" where
  "busy_asks = [(''10.0.0.1'', 0, 1), (''10.0.0.1'', 1, 2), (''10.0.0.2'', 2, 2), (''10.0.0.1'', 3, 4)]"

lemma busy_asks_order: "in_order 0 ([] @ busy_asks)" "end_time 0 busy_asks = 4"
  by (simp_all add: busy_asks_def)

theorem rate_limit_bound_witness:
  "of_nat (granted ''10.0.0.1'' busy_asks (newRateLimiter 1 2)) \<le> 2 + 1 * Seconds 4 \<and>
   granted ''10.0.0.1'' busy_asks (newRateLimiter 1 2) = 2"
  using rate_limit_bound [OF busy_asks_order(1), of "''10.0.0.1''" 1 2] busy_asks_order(2)
  by (simp add: busy_asks_def newRateLimiter_def rl_allow_def bucketFor_def newTokenBucket_def bucket_allow_def
      Seconds_def Let_def)


section \<open>What the stack of middleware does\<close>

text \<open>
  A handler behind the limiters is \<open>quiet\<close>: it always answers, never with status 429, and leaves
  the limiters and the clock alone.
\<close>

definition quiet :: "handler \<Rightarrow> bool" where
  "quiet h \<longleftrightarrow> (\<forall>r w. \<exists>out w'. h r w = (Inr out, w') \<and> (\<forall>m. out \<noteq> HttpError 429 m) \<and> clock w' = clock w \<and>
     gw_default (db w') = gw_default (db w) \<and> gw_strict (db w') = gw_strict (db w))"

lemma quietE:
  assumes "quiet h"
  obtains out w' where "h r w = (Inr out, w')" "\<forall>m. out \<noteq> HttpError 429 m" "clock w' = clock w"
    "gw_default (db w') = gw_default (db w)" "gw_strict (db w') = gw_strict (db w)"
  using assms unfolding quiet_def by blast

lemma quiet_proxy: "quiet (\<lambda>r. returnE (Forwarded r))"
  by (simp add: quiet_def returnE_def)

lemma quiet_chaos: "quiet h \<Longrightarrow> quiet (withChaos env h)"
proof -
  assume h: "quiet h"
  show ?thesis
    unfolding quiet_def
  proof (intro allI)
    fix r and w :: "(gateway, jwks_endpoint) world"
    show "\<exists>out w'. withChaos env h r w = (Inr out, w') \<and> (\<forall>m. out \<noteq> HttpError 429 m) \<and> clock w' = clock w \<and>
       gw_default (db w') = gw_default (db w) \<and> gw_strict (db w') = gw_strict (db w)"
      using quietE [OF h, of r w] quietE [OF h, of r "w\<lparr>tick := Suc (Suc (tick w))\<rparr>"]
      by (simp add: withChaos_def bindE_def Float32_def returnE_def) metis
  qed
qed

lemma quiet_strip: "quiet h \<Longrightarrow> quiet (stripUntrustedIdentityHeaders h)"
  by (simp add: quiet_def stripUntrustedIdentityHeaders_def)

lemma quiet_jwt: "quiet h \<Longrightarrow> quiet (withJWTAuth L pub h)"
proof -
  assume h: "quiet h"
  have v: "\<exists>res w1. tryE (onVerifier m) w = (Inr res, w1) \<and> clock w1 = clock w \<and>
      gw_default (db w1) = gw_default (db w) \<and> gw_strict (db w1) = gw_strict (db w)"
    for m :: "TokenPayload jwks_go" and w
    by (auto simp: tryE_def onVerifier_def split: prod.split)
  show ?thesis
    unfolding quiet_def
  proof (intro allI)
    fix r and w :: "(gateway, jwks_endpoint) world"
    let ?m = "jwks_VerifyToken L (TrimSpace (TrimPrefix (TrimSpace (Header_Get r ''Authorization'')) ''Bearer ''))"
    obtain res w1 where t: "tryE (onVerifier ?m) w = (Inr res, w1)" "clock w1 = clock w"
        "gw_default (db w1) = gw_default (db w)" "gw_strict (db w1) = gw_strict (db w)"
      using v by blast
    obtain out w2 where p: "h r w = (Inr out, w2)" "\<forall>m. out \<noteq> HttpError 429 m" "clock w2 = clock w"
        "gw_default (db w2) = gw_default (db w)" "gw_strict (db w2) = gw_strict (db w)"
      by (rule quietE [OF h, of r w])
    show "\<exists>out w'. withJWTAuth L pub h r w = (Inr out, w') \<and> (\<forall>m. out \<noteq> HttpError 429 m) \<and> clock w' = clock w \<and>
       gw_default (db w') = gw_default (db w) \<and> gw_strict (db w') = gw_strict (db w)"
    proof (cases res)
      case (Inl e)
      then show ?thesis using t p by (simp add: withJWTAuth_def Let_def bindE_def returnE_def)
    next
      case (Inr payload)
      obtain out3 w3 where q: "h (identity_headers payload r) w1 = (Inr out3, w3)" "\<forall>m. out3 \<noteq> HttpError 429 m"
          "clock w3 = clock w1" "gw_default (db w3) = gw_default (db w1)" "gw_strict (db w3) = gw_strict (db w1)"
        by (rule quietE [OF h, of "identity_headers payload r" w1])
      then show ?thesis using t p Inr by (simp add: withJWTAuth_def Let_def bindE_def returnE_def)
    qed
  qed
qed

lemmas quiet_stack = quiet_proxy quiet_chaos quiet_strip quiet_jwt

text \<open>A key a limiter has not seen passes; only that key is added to it.\<close>

lemma rl_allow_new:
  assumes "rl_buckets l k = None" and "t0 \<le> t1" and "rl_allow k t0 t1 l = (g, l')"
  shows "g"
  using assms new_bucket_ok(3) [of t0 t1 l] eff_pos(2) [of l]
  by (simp add: rl_allow_def bucketFor_def Let_def bucket_allow_eq)

lemma rl_allow_dom:
  "rl_allow k t0 t1 l = (g, l') \<Longrightarrow> dom (rl_buckets l') = insert k (dom (rl_buckets l))"
  by (auto simp: rl_allow_def bucketFor_def Let_def split: option.splits prod.splits)

definition known_keys :: "gateway \<Rightarrow> string set" where
  "known_keys g = dom (rl_buckets (gw_default g)) \<union> dom (rl_buckets (gw_strict g))"

lemma limiter_step_run:
  assumes "mono (clock w)"
  obtains g l w' where "limiter_step get put key w = (Inr g, w')" "clock w' = clock w" "db w' = put l (db w)"
    "dom (rl_buckets l) = insert key (dom (rl_buckets (get (db w))))"
    "key \<notin> dom (rl_buckets (get (db w))) \<longrightarrow> g"
proof (cases "rl_buckets (get (db w)) key")
  case None
  obtain g l where l: "rl_allow key (clock w (tick w)) (clock w (Suc (tick w))) (get (db w)) = (g, l)" by fastforce
  have "clock w (tick w) \<le> clock w (Suc (tick w))" using assms by (simp add: monoD)
  from rl_allow_new [OF None this l] have g by simp
  with l None show ?thesis
    using that [of g "w\<lparr>tick := Suc (Suc (tick w)), db := put l (db w)\<rparr>" l] rl_allow_dom [OF l]
    by (simp add: limiter_step_def bindE_def nowUTC_def)
next
  case (Some b)
  obtain g l where l: "rl_allow key 0 (clock w (tick w)) (get (db w)) = (g, l)" by fastforce
  with Some show ?thesis
    using that [of g "w\<lparr>tick := Suc (tick w), db := put l (db w)\<rparr>" l] rl_allow_dom [OF l]
    by (simp add: limiter_step_def bindE_def nowUTC_def returnE_def domIff)
qed

lemma handler_step:
  assumes "mono (clock w)"
  obtains out w' where "gateway_handler env r w = (Inr out, w')" "clock w' = clock w"
    "known_keys (db w') \<subseteq> insert (rate_key r) (known_keys (db w))"
    "rate_key r \<notin> known_keys (db w) \<longrightarrow> (\<forall>m. out \<noteq> HttpError 429 m)"
proof -
  let ?h = "withJWTAuth (ge_jwt env) (parsePublicPrefixesEnv (ge_PublicPrefixes env))
      (stripUntrustedIdentityHeaders (withChaos env (\<lambda>r. returnE (Forwarded r))))"
  have q: "quiet ?h" by (intro quiet_stack)
  note answer = that
  have lim: thesis
    if e: "gateway_handler env r w = withRateLimit get put ?h r w"
      and k: "\<And>l g. known_keys (put l g) = dom (rl_buckets l) \<union> K g"
        "\<And>g. known_keys g = dom (rl_buckets (get g)) \<union> K g"
    for get put and K :: "gateway \<Rightarrow> string set"
  proof -
    obtain g l w1 where s: "limiter_step get put (rate_key r) w = (Inr g, w1)" "clock w1 = clock w"
      "db w1 = put l (db w)" "dom (rl_buckets l) = insert (rate_key r) (dom (rl_buckets (get (db w))))"
      "rate_key r \<notin> dom (rl_buckets (get (db w))) \<longrightarrow> g"
      by (rule limiter_step_run [OF assms])
    obtain out w2 where o: "?h r w1 = (Inr out, w2)" "\<forall>m. out \<noteq> HttpError 429 m" "clock w2 = clock w1"
      "gw_default (db w2) = gw_default (db w1)" "gw_strict (db w2) = gw_strict (db w1)"
      by (rule quietE [OF q])
    have keys: "known_keys (db w1) = insert (rate_key r) (known_keys (db w))"
      using s(3,4) k(1) [of l "db w"] k(2) [of "db w"] by simp
    have "known_keys (db w2) = known_keys (db w1)" using o by (simp add: known_keys_def)
    note keys2 = this [unfolded keys]
    have fresh: "rate_key r \<notin> known_keys (db w) \<longrightarrow> g"
      using s(5) k(2) [of "db w"] by simp
    show ?thesis
    proof (cases g)
      case True
      then have "gateway_handler env r w = (Inr out, w2)"
        using e s(1) o(1) by (simp add: withRateLimit_def bindE_def)
      then show ?thesis using answer s(2) o(2,3) keys2 by simp
    next
      case False
      then have "gateway_handler env r w = (Inr (HttpError 429 ''rate limit exceeded''), w1)"
        using e s(1) by (simp add: withRateLimit_def bindE_def returnE_def)
      then show ?thesis using answer s(2) keys fresh False by simp
    qed
  qed
  show ?thesis
  proof (cases "path_matches strict_prefixes (rq_Path r)")
    case True
    then show ?thesis
      by (intro lim [of gw_strict "\<lambda>l g. g\<lparr>gw_strict := l\<rparr>" "\<lambda>g. dom (rl_buckets (gw_default g))"])
        (auto simp: gateway_handler_def withRateLimitByPath_def Let_def known_keys_def)
  next
    case False
    then show ?thesis
      by (intro lim [of gw_default "\<lambda>l g. g\<lparr>gw_default := l\<rparr>" "\<lambda>g. dom (rl_buckets (gw_strict g))"])
        (auto simp: gateway_handler_def withRateLimitByPath_def Let_def known_keys_def)
  qed
qed


lemma canonical_keys:
  "CanonicalHeaderKey ''X-Fincore-Subject'' = ''X-Fincore-Subject''"
  "CanonicalHeaderKey ''X-Fincore-Roles'' = ''X-Fincore-Roles''"
  "CanonicalHeaderKey ''X-Fincore-Permissions'' = ''X-Fincore-Permissions''"
  "CanonicalHeaderKey ''X-Fincore-LSN'' = ''X-Fincore-Lsn''"
  "CanonicalHeaderKey ''Authorization'' = ''Authorization''"
  by code_simp+

text \<open>Requests with new keys pass both limiters.\<close>

lemma new_keys_pass:
  assumes "mono (clock w)"
    and "distinct (map rate_key rs)" and "\<forall>r\<in>set rs. rate_key r \<notin> known_keys (db w)"
  shows "\<exists>outs w'. mapE (gateway_handler env) rs w = (Inr outs, w') \<and> length outs = length rs \<and>
     (\<forall>m. HttpError 429 m \<notin> set outs)"
  using assms
proof (induction rs arbitrary: w)
  case Nil
  then show ?case by (simp add: returnE_def)
next
  case (Cons r rs)
  obtain out w1 where s: "gateway_handler env r w = (Inr out, w1)" "clock w1 = clock w"
    "known_keys (db w1) \<subseteq> insert (rate_key r) (known_keys (db w))"
    "rate_key r \<notin> known_keys (db w) \<longrightarrow> (\<forall>m. out \<noteq> HttpError 429 m)"
    by (rule handler_step [OF Cons.prems(1)])
  have "\<exists>outs w'. mapE (gateway_handler env) rs w1 = (Inr outs, w') \<and> length outs = length rs \<and>
     (\<forall>m. HttpError 429 m \<notin> set outs)"
  proof (rule Cons.IH)
    show "mono (clock w1)" "distinct (map rate_key rs)" using Cons.prems(1,2) s(2) by simp_all
    show "\<forall>r\<in>set rs. rate_key r \<notin> known_keys (db w1)"
      using Cons.prems(2,3) s(3) by (fastforce simp: image_iff)
  qed
  then show ?case
    using s(1,4) Cons.prems(3) by (auto simp: bindE_def returnE_def)
qed

text \<open>The request of a client that adds the header itself.\<close>

definition claiming :: "http_request \<Rightarrow> string \<Rightarrow> http_request" where
  "claiming q subject = Header_Set ''X-Fincore-Subject'' subject q"

lemma rate_key_claiming: "TrimSpace s \<noteq> '''' \<Longrightarrow> rate_key (claiming q s) = TrimSpace s"
  by (simp add: rate_key_def claiming_def Header_Set_def Header_Get_def canonical_keys Let_def)

text \<open>
  C38. Nobody is limited who does not want to be. The limiter's key is the \<open>X-Fincore-Subject\<close>
  header as the client sent it: the limiter stands outside the middleware that checks the token and
  outside the one that removes the client's identity headers. A client may send one and the same
  request any number of times, from one address and without a token: if it names a different
  subject in each, one that the limiters have not seen, then none of them is refused for its rate.
\<close>

theorem rate_limit_evaded:
  assumes "mono (clock w)"
    and "distinct (map TrimSpace subjects)"
    and "\<forall>s\<in>set subjects. TrimSpace s \<noteq> '''' \<and> TrimSpace s \<notin> known_keys (db w)"
  shows "\<exists>outs w'. mapE (gateway_handler env) (map (claiming q) subjects) w = (Inr outs, w') \<and>
     length outs = length subjects \<and> (\<forall>m. HttpError 429 m \<notin> set outs)"
proof -
  have "map rate_key (map (claiming q) subjects) = map TrimSpace subjects"
    using assms(3) by (simp add: rate_key_claiming)
  then have "distinct (map rate_key (map (claiming q) subjects))" using assms(2) by (simp only:)
  moreover have "\<forall>r\<in>set (map (claiming q) subjects). rate_key r \<notin> known_keys (db w)"
    using assms(3) by (auto simp: rate_key_claiming)
  ultimately show ?thesis using new_keys_pass [OF assms(1), of "map (claiming q) subjects" env] by simp
qed

text \<open>The three identity headers are gone when the proxy is called, and the rest is as it was.\<close>

definition stripped :: "http_request \<Rightarrow> http_request \<Rightarrow> bool" where
  "stripped r r' \<longleftrightarrow> rq_Path r' = rq_Path r \<and> rq_RemoteAddr r' = rq_RemoteAddr r \<and>
     rq_Header r' ''X-Fincore-Subject'' = [] \<and> rq_Header r' ''X-Fincore-Roles'' = [] \<and>
     rq_Header r' ''X-Fincore-Permissions'' = [] \<and>
     (\<forall>h. h \<notin> {''X-Fincore-Subject'', ''X-Fincore-Roles'', ''X-Fincore-Permissions'', ''X-Fincore-Lsn''} \<longrightarrow>
        rq_Header r' h = rq_Header r h)"

lemma strip_stripped:
  assumes "stripUntrustedIdentityHeaders (withChaos env (\<lambda>r. returnE (Forwarded r))) r w = (Inr (Forwarded r'), w')"
  shows "stripped r r'"
  using assms
  by (auto simp: stripUntrustedIdentityHeaders_def withChaos_def bindE_def Float32_def returnE_def stripped_def
      Header_Del_def canonical_keys split: if_splits)

lemma identity_headers_frame:
  "rq_Path (identity_headers p r) = rq_Path r" "rq_RemoteAddr (identity_headers p r) = rq_RemoteAddr r"
  "h \<notin> {''X-Fincore-Subject'', ''X-Fincore-Roles'', ''X-Fincore-Permissions'', ''X-Fincore-Lsn''} \<Longrightarrow>
     rq_Header (identity_headers p r) h = rq_Header r h"
  by (simp_all add: identity_headers_def Header_Set_def canonical_keys Let_def del: decimal.simps)

lemma stripped_identity: "stripped (identity_headers p r) r' \<Longrightarrow> stripped r r'"
  by (simp add: stripped_def identity_headers_frame del: insert_iff)

definition verified_bearer :: "jwt_lib \<Rightarrow> (gateway, jwks_endpoint) world \<Rightarrow> http_request \<Rightarrow> bool" where
  "verified_bearer L w r \<longleftrightarrow>
     (\<exists>tok p v. TrimSpace (Header_Get r ''Authorization'') = ''Bearer '' @ tok \<and>
        db v = gw_verifier (db w) \<and> peer v = peer w \<and> clock v = clock w \<and>
        fst (jwks_VerifyToken L (TrimSpace tok) v) = Inr p)"

lemma jwt_auth_admits:
  assumes "withJWTAuth L pub (stripUntrustedIdentityHeaders (withChaos env (\<lambda>r. returnE (Forwarded r)))) r w
       = (Inr (Forwarded r'), w')"
  shows "stripped r r' \<and> (path_matches pub (rq_Path r) \<or> verified_bearer L w r)"
proof (cases "path_matches pub (rq_Path r)")
  case True
  then show ?thesis using assms strip_stripped by (simp add: withJWTAuth_def)
next
  case False
  let ?v = "TrimSpace (Header_Get r ''Authorization'')"
  let ?u = "\<lparr>db = gw_verifier (db w), peer = peer w, clock = clock w, uuid = uuid w, fault = fault w,
             tick = tick w, txtime = txtime w\<rparr>"
  have p: "HasPrefix ?v ''Bearer ''"
    using assms False by (auto simp: withJWTAuth_def Let_def returnE_def split: if_splits)
  obtain p w1 where v: "fst (jwks_VerifyToken L (TrimSpace (TrimPrefix ?v ''Bearer '')) ?u) = Inr p"
      and s: "stripUntrustedIdentityHeaders (withChaos env (\<lambda>r. returnE (Forwarded r))) (identity_headers p r) w1
        = (Inr (Forwarded r'), w')"
    using assms False p
    by (auto simp: withJWTAuth_def Let_def bindE_def tryE_def onVerifier_def returnE_def
        split: if_splits prod.splits sum.splits)
  have "verified_bearer L w r"
    unfolding verified_bearer_def using TrimPrefix_append [OF p] v
    by (intro exI [of _ "TrimPrefix ?v ''Bearer ''"] exI [of _ p] exI [of _ ?u]) simp
  then show ?thesis using strip_stripped [OF s] stripped_identity by blast
qed

text \<open>
  C27. What reaches the services through the gateway. A request is passed on only if its path is
  public or it carries a bearer token the key set verifies. Its path and other headers are unchanged,
  and no identity header (subject, roles, permissions) of any origin is left on it: neither one the
  client made up nor the one the gateway itself has just written from the verified token, since
  the middleware that removes them runs after the one that sets them.
\<close>

theorem gateway_admits:
  assumes "gateway_handler env r w = (Inr (Forwarded r'), w')"
  shows "stripped r r' \<and>
     (path_matches (parsePublicPrefixesEnv (ge_PublicPrefixes env)) (rq_Path r) \<or>
      (\<exists>v. gw_verifier (db v) = gw_verifier (db w) \<and> peer v = peer w \<and> clock v = clock w \<and>
           verified_bearer (ge_jwt env) v r))"
proof -
  let ?h = "withJWTAuth (ge_jwt env) (parsePublicPrefixesEnv (ge_PublicPrefixes env))
      (stripUntrustedIdentityHeaders (withChaos env (\<lambda>r. returnE (Forwarded r))))"
  obtain w1 where "?h r w1 = (Inr (Forwarded r'), w')" "gw_verifier (db w1) = gw_verifier (db w)"
      "peer w1 = peer w" "clock w1 = clock w"
    using assms
    by (auto simp: gateway_handler_def withRateLimitByPath_def withRateLimit_def limiter_step_def Let_def bindE_def
        nowUTC_def returnE_def split: if_splits prod.splits)
  with jwt_auth_admits show ?thesis by blast
qed


section \<open>Concrete requests\<close>

definition demo_env :: gw_env where
  "demo_env = \<lparr>ge_jwt = demo_jwt, ge_PublicPrefixes = ''/oauth/'', ge_EnableChaos = '''', ge_Float32 = (\<lambda>_. 0)\<rparr>"

definition demo_request :: http_request where
  "demo_request = \<lparr>rq_Path = ''/v1/a'',
     rq_Header = (\<lambda>h. if h = ''Authorization'' then [''Bearer e30.e30.sig''] else
                     if h = ''X-Fincore-Subject'' then [''root''] else []),
     rq_RemoteAddr = ''10.0.0.1''\<rparr>"

definition demo_gw :: "(gateway, jwks_endpoint) world" where
  "demo_gw = \<lparr>db = gateway_init demo_verifier, peer = Inr [demo_jwk], clock = int, uuid = (\<lambda>_. ''''),
     fault = (\<lambda>_. None), tick = 0, txtime = None\<rparr>"

lemma demo_strings:
  "rate_key demo_request = ''root''" "path_matches strict_prefixes (rq_Path demo_request) = False"
  "path_matches (parsePublicPrefixesEnv ''/oauth/'') (rq_Path demo_request) = False"
  "TrimSpace (Header_Get demo_request ''Authorization'') = ''Bearer e30.e30.sig''"
  "HasPrefix ''Bearer e30.e30.sig'' ''Bearer ''"
  "TrimSpace (TrimPrefix ''Bearer e30.e30.sig'' ''Bearer '') = ''e30.e30.sig''"
  "Header_Get (identity_headers demo_payload demo_request) ''X-Chaos-Enable'' = ''''"
  by code_simp+


lemma demo_verify:
  assumes "clock w = int" "db w = demo_verifier" "peer w = Inr [demo_jwk]" "tick w = 2"
  shows "fst (jwks_VerifyToken demo_jwt ''e30.e30.sig'' w) = Inr demo_payload"
proof -
  have "lookupKey (jm_kid \<lparr>jm_kid = ''k'', jm_priv = demo_priv\<rparr>) w =
      (Inr (jl_Public demo_jwt (jm_priv \<lparr>jm_kid = ''k'', jm_priv = demo_priv\<rparr>)), w\<lparr>tick := tick w + 3,
      db := demo_verifier\<lparr>jv_cachedAt := clock w (tick w + 2), jv_cachedKeys := Some [''k'' \<mapsto> jl_Public demo_jwt demo_priv]\<rparr>\<rparr>)"
    using lookup_published [OF demo_facts(3,2) assms(2,3)] by simp
  from verify_made_token [where lookup = lookupKey, OF demo_jwt_ok demo_facts(4) _ this] assms
  show ?thesis by (simp add: jwks_VerifyToken_def demo_payload_def demo_jwt_def dated_def)
qed

lemma demo_run:
  "\<exists>w'. gateway_handler demo_env demo_request demo_gw =
     (Inr (Forwarded (Header_Del ''X-Fincore-Permissions'' (Header_Del ''X-Fincore-Roles''
        (Header_Del ''X-Fincore-Subject'' (identity_headers demo_payload demo_request))))), w')"
proof -
  let ?put = "\<lambda>l g. g\<lparr>gw_default := l\<rparr>"
  obtain w1 where l: "limiter_step gw_default ?put ''root'' demo_gw = (Inr True, w1)"
      and w1: "clock w1 = int" "gw_verifier (db w1) = demo_verifier" "peer w1 = Inr [demo_jwk]" "tick w1 = 2"
    by (simp add: limiter_step_def bindE_def nowUTC_def demo_gw_def gateway_init_def newRateLimiter_def
        rl_allow_def bucketFor_def newTokenBucket_def bucket_allow_def Seconds_def Let_def)
  define u where "u = \<lparr>db = gw_verifier (db w1), peer = peer w1, clock = clock w1, uuid = uuid w1, fault = fault w1,
             tick = tick w1, txtime = txtime w1\<rparr>"
  have "fst (jwks_VerifyToken demo_jwt ''e30.e30.sig'' u) = Inr demo_payload"
    using w1 by (intro demo_verify) (simp_all add: u_def)
  then obtain u' where "jwks_VerifyToken demo_jwt ''e30.e30.sig'' u = (Inr demo_payload, u')"
    by (metis prod.collapse)
  then obtain w2 where v: "tryE (onVerifier (jwks_VerifyToken demo_jwt ''e30.e30.sig'')) w1 = (Inr (Inr demo_payload), w2)"
    by (simp add: tryE_def onVerifier_def u_def)
  have c: "Header_Get (Header_Del ''X-Fincore-Permissions'' (Header_Del ''X-Fincore-Roles''
        (Header_Del ''X-Fincore-Subject'' (identity_headers demo_payload demo_request)))) ''X-Chaos-Enable'' = ''''"
    by code_simp
  have j: "withJWTAuth demo_jwt (parsePublicPrefixesEnv ''/oauth/'') h demo_request w1 =
      h (identity_headers demo_payload demo_request) w2" for h
    unfolding withJWTAuth_def Let_def by (simp add: demo_strings bindE_def v)
  show ?thesis
    unfolding gateway_handler_def withRateLimitByPath_def withRateLimit_def Let_def
    by (simp add: demo_strings bindE_def l j demo_env_def stripUntrustedIdentityHeaders_def withChaos_def c
        returnE_def)
qed

theorem gateway_admits_witness:
  "\<exists>r'. fst (gateway_handler demo_env demo_request demo_gw) = Inr (Forwarded r') \<and> stripped demo_request r'"
  using demo_run gateway_admits [of demo_env demo_request demo_gw] by (metis fst_conv)

text \<open>Fifty requests within a microsecond, from one address: the limiter of this path allows a burst of 40.\<close>

theorem rate_limit_evaded_witness:
  "\<exists>outs w'. mapE (gateway_handler demo_env) (map (claiming demo_request)
       (map (\<lambda>n. replicate (Suc n) CHR ''s'') [0..<50])) demo_gw = (Inr outs, w') \<and>
     length outs = 50 \<and> (\<forall>m. HttpError 429 m \<notin> set outs)"
proof -
  let ?ss = "map (\<lambda>n. replicate (Suc n) CHR ''s'') [0..<50]"
  have "mono (clock demo_gw)" "known_keys (db demo_gw) = {}"
    by (simp_all add: demo_gw_def mono_def known_keys_def gateway_init_def newRateLimiter_def)
  moreover have "map TrimSpace ?ss = ?ss" by code_simp
  moreover have "distinct ?ss" "'''' \<notin> set ?ss" by code_simp+
  ultimately have "distinct (map TrimSpace ?ss)" "\<forall>s\<in>set ?ss. TrimSpace s \<noteq> '''' \<and> TrimSpace s \<notin> known_keys (db demo_gw)"
    by (simp_all only:) (metis (no_types, lifting) empty_iff image_eqI list.set_map)
  with rate_limit_evaded [OF \<open>mono (clock demo_gw)\<close>, of ?ss demo_env demo_request] show ?thesis by simp
qed

end
