(* ===== verification/Identity.thy ===== *)
theory Identity
  imports AuthProps
begin

text \<open>
  The HTTP front of the identity service, \<open>src/services/identity-service/cmd/identity-service/main.go\<close>:
  browser sessions, the token, logout and authorization endpoints and the mapping of gRPC errors.
  It calls the auth service of \<open>AuthServer\<close> through a local connection, with the outgoing
  metadata of the request context only. The state is the auth database with the three further tables
  the service uses. \<open>url.Parse\<close>, the reading of a JSON text and the gRPC gateway are parameters. Response headers other
  than cookies, and the cookie attributes, are left out.
\<close>

section \<open>State\<close>

record browserSession =
  bs_id :: string
  bs_UserID :: id
  bs_AccessToken :: string
  bs_ExpiresAt :: time

text \<open>\<open>webauthn.Credential\<close>: the parts the code reads, and the rest.\<close>

record Credential =
  wk_ID :: string
  wk_SignCount :: nat
  wk_Rest :: string

record webauthn_credential =
  wc_id :: string
  wc_user_id :: id
  wc_credential_id :: string
  wc_credential :: Credential
  wc_sign_count :: nat
  wc_created_at :: time
  wc_updated_at :: time

datatype webAuthnSessionKind = SessionKindLogin | SessionKindRegister

text \<open>The library's session data is opaque.\<close>

record webauthn_session =
  ws_id :: string
  ws_kind :: webAuthnSessionKind
  ws_user_id :: id
  ws_session_data :: string
  ws_expires_at :: time

record identity_db =
  id_auth :: auth_db
  id_browser :: "browserSession list"
  id_credentials :: "webauthn_credential list"
  id_sessions :: "webauthn_session list"

type_synonym 'a id_go = "(identity_db, loginLimiter option, 'a) go"

text \<open>An operation on the auth database.\<close>

definition onAuth :: "'a auth_go \<Rightarrow> 'a id_go" where
  "onAuth m = (\<lambda>w.
     case m \<lparr>db = id_auth (db w), peer = peer w, clock = clock w, uuid = uuid w, fault = fault w,
             tick = tick w, txtime = txtime w\<rparr> of
       (r, v) \<Rightarrow> (r, w\<lparr>tick := tick v, peer := peer v, db := (db w)\<lparr>id_auth := db v\<rparr>\<rparr>))"

text \<open>A call of the local gRPC client: the caller sees a status error as a value.\<close>

definition grpcCall :: "'a auth_go \<Rightarrow> (go_error + 'a) id_go" where
  "grpcCall m = tryE (mapErr to_status (onAuth m))"

section \<open>Browser sessions\<close>

definition newBrowserSessionStore :: "duration \<Rightarrow> duration" where
  "newBrowserSessionStore ttl = (if ttl \<le> 0 then 30 * minute else ttl)"

definition store_get :: "string \<Rightarrow> browserSession option id_go" where
  "store_get sessionID =
     (if TrimSpace sessionID = '''' then returnE None
      else bindE (tryE (sql_now (\<lambda>now d.
          Inr (find (\<lambda>s. bs_id s = sessionID \<and> bs_ExpiresAt s > now) (id_browser d), d)))) (\<lambda>r.
        case r of Inl _ \<Rightarrow> returnE None | Inr found \<Rightarrow> returnE found))"

definition insert_browser_session :: "browserSession \<Rightarrow> identity_db \<Rightarrow> go_error + unit \<times> identity_db" where
  "insert_browser_session s d =
     (if bs_id s \<in> bs_id ` set (id_browser d) then Inl (unique_violation ''browser_sessions_pkey'')
      else if \<not> user_exists (bs_UserID s) (id_auth d) then Inl (foreign_key_violation ''browser_sessions_user_id_fkey'')
      else Inr ((), d\<lparr>id_browser := id_browser d @ [s]\<rparr>))"

definition store_put :: "duration \<Rightarrow> id \<Rightarrow> string \<Rightarrow> (string \<times> bool) id_go" where
  "store_put ttl userID token =
     (let accessToken = TrimSpace token in
      if accessToken = '''' then returnE ('''', False)
      else bindE (tryE (onAuth (randomB64URL 32))) (\<lambda>r.
        case r of
          Inl _ \<Rightarrow> returnE ('''', False)
        | Inr sid \<Rightarrow>
            bindE nowUTC (\<lambda>now.
            bindE (tryE (sql (insert_browser_session
              \<lparr>bs_id = sid, bs_UserID = userID, bs_AccessToken = accessToken, bs_ExpiresAt = pg_time (now + ttl)\<rparr>))) (\<lambda>e.
            case e of Inl _ \<Rightarrow> returnE ('''', False) | Inr _ \<Rightarrow> returnE (sid, True)))))"

definition store_del :: "string \<Rightarrow> unit id_go" where
  "store_del sessionID =
     (if TrimSpace sessionID = '''' then returnE ()
      else bindE (tryE (sql (\<lambda>d. Inr ((), d\<lparr>id_browser := filter (\<lambda>s. bs_id s \<noteq> sessionID) (id_browser d)\<rparr>)))) (\<lambda>_.
        returnE ()))"

section \<open>Requests and responses\<close>

record id_request =
  ir_Method :: string
  ir_Accept :: string
  ir_Authorization :: string
  ir_Cookie :: "string \<Rightarrow> string option"
  ir_Query :: "string \<Rightarrow> string"
  ir_Form :: "(string \<Rightarrow> string) option"
  ir_Body :: string

record authorizePageData =
  pd_Error :: string
  pd_ClientID :: string
  pd_RedirectURI :: string
  pd_Scope :: string
  pd_State :: string
  pd_CodeChallenge :: string
  pd_CodeChallengeMethod :: string
  pd_CSRFToken :: string
  pd_LoggedIn :: bool

datatype id_response =
    Page authorizePageData
  | Redirect string
  | ErrorPage nat string
  | Answer nat string
  | TokenError nat string string
  | TokenAnswer auth_tokens
  | GatewayAnswer "(go_error + authorize_response) option"

text \<open>A response and the cookies set with it; an empty value deletes the cookie.\<close>

type_synonym id_reply = "id_response \<times> (string \<times> string) list"

text \<open>
  The parameters: the auth server's; \<open>url.Parse\<close>, as the fragment of the URL and the URL with query
  parameters set; the members of the JSON object in a text, with the values of the members that are
  strings; the metadata and peer every local call has; and the routing of the gRPC gateway
  (\<open>runtime.ServeMux\<close> with the generated handlers): the call of \<open>OAuthAuthorize\<close> it makes of a request to
  \<open>/oauth/authorize\<close>, with the metadata it takes from the request's headers, and \<open>None\<close> when it
  answers itself.
\<close>

record id_env =
  ie_auth :: auth_env
  ie_url :: "string \<Rightarrow> (string \<times> ((string \<times> string) list \<Rightarrow> string)) option"
  ie_json :: "string \<Rightarrow> (string \<times> string option) list option"
  ie_metadata :: "string \<Rightarrow> string list"
  ie_peer :: "tls_info option option"
  ie_gateway :: "id_request \<Rightarrow> (call_ctx \<times> authorize_request) option"

definition outgoing :: "id_env \<Rightarrow> string list \<Rightarrow> call_ctx" where
  "outgoing N authorization = \<lparr>cc_metadata = Some ((ie_metadata N)(''authorization'' := authorization)), cc_peer = ie_peer N\<rparr>"

section \<open>Errors\<close>

fun Contains :: "string \<Rightarrow> string \<Rightarrow> bool" where
  "Contains [] t \<longleftrightarrow> t = []"
| "Contains (c # s) t \<longleftrightarrow> HasPrefix (c # s) t \<or> Contains s t"

definition oauth2ErrorRedirect :: "id_env \<Rightarrow> string \<Rightarrow> string \<Rightarrow> string \<Rightarrow> string \<Rightarrow> string option" where
  "oauth2ErrorRedirect N redirectURI state code desc =
     (case ie_url N (TrimSpace redirectURI) of
        None \<Rightarrow> None
      | Some (fragment, withQuery) \<Rightarrow>
          if TrimSpace fragment \<noteq> '''' then None
          else Some (withQuery ((''error'', code)
            # (if TrimSpace desc \<noteq> '''' then [(''error_description'', desc)] else [])
            @ (if TrimSpace state \<noteq> '''' then [(''state'', state)] else []))))"

definition default_msg :: "string \<Rightarrow> string" where
  "default_msg msg = (if msg = '''' then ''server error'' else msg)"

fun oauth2ErrorFromGRPC :: "(string \<Rightarrow> string) \<Rightarrow> go_error \<Rightarrow> string \<times> string" where
  "oauth2ErrorFromGRPC lower (Status c m) =
     (let msg = TrimSpace m in
      case c of
        InvalidArgument \<Rightarrow> if Contains (lower msg) ''scope'' then (''invalid_scope'', msg) else (''invalid_request'', msg)
      | PermissionDenied \<Rightarrow> (''access_denied'', msg)
      | Unauthenticated \<Rightarrow> (''unauthorized_client'', msg)
      | NotFound \<Rightarrow> (''unauthorized_client'', msg)
      | _ \<Rightarrow> (''server_error'', default_msg msg))"
| "oauth2ErrorFromGRPC lower _ = (''server_error'', '''')"

fun oauthTokenErrorFromGRPC :: "(string \<Rightarrow> string) \<Rightarrow> go_error \<Rightarrow> string \<times> string \<times> nat" where
  "oauthTokenErrorFromGRPC lower (Status c m) =
     (let msg = TrimSpace m in
      case c of
        Unauthenticated \<Rightarrow>
          if msg = ''invalid_client'' then (''invalid_client'', '''', 401) else (''unauthorized_client'', msg, 401)
      | InvalidArgument \<Rightarrow>
          if msg = ''invalid_grant'' then (''invalid_grant'', '''', 400)
          else if Contains (lower msg) ''unsupported'' \<and> Contains (lower msg) ''grant_type''
          then (''unsupported_grant_type'', '''', 400)
          else (''invalid_request'', msg, 400)
      | PermissionDenied \<Rightarrow> (''access_denied'', msg, 403)
      | _ \<Rightarrow> (''server_error'', default_msg msg, 500))"
| "oauthTokenErrorFromGRPC lower _ = (''server_error'', '''', 500)"

section \<open>The token and logout endpoints\<close>

definition sessionCookieName :: string where
  "sessionCookieName = ''fincore_authorize_session''"

definition csrfCookieName :: string where
  "csrfCookieName = ''fincore_authorize_csrf''"

definition oauth_token :: "id_env \<Rightarrow> id_request \<Rightarrow> id_reply id_go" where
  "oauth_token N r =
     (if ir_Method r \<noteq> ''POST'' then returnE (Answer 405 '''', [])
      else (case ir_Form r of
        None \<Rightarrow> returnE (TokenError 400 ''invalid_request'' ''invalid form'', [])
      | Some form \<Rightarrow>
          let req = \<lparr>tr_GrantType = TrimSpace (form ''grant_type''), tr_ClientId = TrimSpace (form ''client_id''),
                tr_ClientSecret = TrimSpace (form ''client_secret''), tr_Code = TrimSpace (form ''code''),
                tr_RedirectUri = TrimSpace (form ''redirect_uri''), tr_CodeVerifier = TrimSpace (form ''code_verifier'')\<rparr>;
              authHeader = TrimSpace (ir_Authorization r) in
          bindE (grpcCall (OAuthToken (ie_auth N) (outgoing N (if authHeader \<noteq> '''' then [authHeader] else [])) req)) (\<lambda>res.
          case res of
            Inl err \<Rightarrow>
              (case oauthTokenErrorFromGRPC (ae_ToLower (ie_auth N)) err of
                 (code, desc, st) \<Rightarrow> returnE (TokenError st code (TrimSpace desc), []))
          | Inr tokens \<Rightarrow> returnE (TokenAnswer tokens, []))))"

definition oauth_logout :: "id_request \<Rightarrow> id_reply id_go" where
  "oauth_logout r =
     bindE (case ir_Cookie r sessionCookieName of None \<Rightarrow> returnE () | Some c \<Rightarrow> store_del c) (\<lambda>_.
     returnE (Answer 204 '''', [(sessionCookieName, ''''), (csrfCookieName, '''')]))"

section \<open>The authorization endpoint\<close>

definition trimmed_cookie :: "id_request \<Rightarrow> string \<Rightarrow> string" where
  "trimmed_cookie r name = (case ir_Cookie r name of None \<Rightarrow> '''' | Some v \<Rightarrow> TrimSpace v)"

text \<open>The CSRF value: the cookie's, or a new one that is set; empty when the random source fails.\<close>

definition csrf_value :: "id_request \<Rightarrow> (string \<times> (string \<times> string) list) id_go" where
  "csrf_value r =
     (let v = trimmed_cookie r csrfCookieName in
      if v \<noteq> '''' then returnE (v, [])
      else bindE (tryE (onAuth (randomB64URL 32))) (\<lambda>res.
        case res of Inl _ \<Rightarrow> returnE ('''', []) | Inr v \<Rightarrow> returnE (v, [(csrfCookieName, v)])))"

definition default_method :: "string \<Rightarrow> string" where
  "default_method m = (if m = '''' then ''S256'' else m)"

definition page_data :: "(string \<Rightarrow> string) \<Rightarrow> string \<Rightarrow> bool \<Rightarrow> authorizePageData" where
  "page_data q csrf loggedIn =
     \<lparr>pd_Error = '''', pd_ClientID = TrimSpace (q ''client_id''), pd_RedirectURI = TrimSpace (q ''redirect_uri''),
      pd_Scope = TrimSpace (q ''scope''), pd_State = TrimSpace (q ''state''),
      pd_CodeChallenge = TrimSpace (q ''code_challenge''),
      pd_CodeChallengeMethod = default_method (TrimSpace (q ''code_challenge_method'')),
      pd_CSRFToken = csrf, pd_LoggedIn = loggedIn\<rparr>"

definition authorize_req :: "authorizePageData \<Rightarrow> authorize_request" where
  "authorize_req data =
     \<lparr>az_ResponseType = ''code'', az_ClientId = pd_ClientID data, az_RedirectUri = pd_RedirectURI data,
      az_Scope = pd_Scope data, az_State = pd_State data, az_CodeChallenge = pd_CodeChallenge data,
      az_CodeChallengeMethod = pd_CodeChallengeMethod data\<rparr>"

definition get_error :: "id_env \<Rightarrow> (string \<Rightarrow> string) \<Rightarrow> authorizePageData \<Rightarrow> string" where
  "get_error N q data =
     (if TrimSpace (q ''response_type'') \<noteq> ''code'' then ''unsupported response_type''
      else if pd_ClientID data = '''' \<or> pd_RedirectURI data = '''' \<or> pd_CodeChallenge data = ''''
      then ''missing required parameters''
      else if ae_ToUpper (ie_auth N) (TrimSpace (pd_CodeChallengeMethod data)) \<noteq> ''S256''
      then ''code_challenge_method must be S256''
      else '''')"

definition requested_scopes :: "string \<Rightarrow> string list" where
  "requested_scopes scope = (case splitScopes scope of None \<Rightarrow> [] | Some ss \<Rightarrow> ss)"

text \<open>The GET branch; a failed authorization without a usable redirect falls through to the page.\<close>

definition authorize_get ::
    "id_env \<Rightarrow> id_request \<Rightarrow> browserSession option \<Rightarrow> authorizePageData \<Rightarrow> id_response id_go" where
  "authorize_get N r sess data0 =
     (let data = data0\<lparr>pd_Error := get_error N (ir_Query r) data0\<rparr> in
      case sess of
        Some s \<Rightarrow>
          if pd_Error data \<noteq> '''' then returnE (Page data)
          else bindE (grpcCall (GetOAuthConsent (bs_UserID s) (pd_ClientID data))) (\<lambda>res.
            case res of
              Inl _ \<Rightarrow> returnE (Page data)
            | Inr scopes \<Rightarrow>
                if scopes = [] \<or> \<not> list_all (\<lambda>x. x \<in> set scopes) (requested_scopes (pd_Scope data))
                then returnE (Page data)
                else bindE (grpcCall (OAuthAuthorize (ie_auth N) (outgoing N []) (authorize_req data))) (\<lambda>resp.
                  case resp of
                    Inr a \<Rightarrow> returnE (Redirect (ar_RedirectUrl a))
                  | Inl err \<Rightarrow>
                      (case oauth2ErrorFromGRPC (ae_ToLower (ie_auth N)) err of
                         (code, desc) \<Rightarrow>
                           (case oauth2ErrorRedirect N (pd_RedirectURI data) (pd_State data) code desc of
                              Some loc \<Rightarrow> returnE (Redirect loc)
                            | None \<Rightarrow> returnE (Page data)))))
      | None \<Rightarrow> returnE (Page data))"

text \<open>
  The user of an access token, read from its payload without verification: the last member of the
  payload's JSON object that has the field's name, in any case, and is a string.
\<close>

definition token_user_id :: "id_env \<Rightarrow> string \<Rightarrow> string" where
  "token_user_id N token =
     (case split_on (CHR ''.'') token of
        [_, payload, _] \<Rightarrow>
          (case DecodeString RawURLEncoding payload of
             None \<Rightarrow> ''''
           | Some bytes \<Rightarrow>
               (case ie_json N bytes of
                  None \<Rightarrow> ''''
                | Some members \<Rightarrow>
                    (case rev [v. (k, Some v) \<leftarrow> members, EqualFold k ''user_id''] of
                       [] \<Rightarrow> ''''
                     | v # _ \<Rightarrow> v)))
      | _ \<Rightarrow> '''')"

definition csrf_refusal :: "id_env \<Rightarrow> authorizePageData \<Rightarrow> id_response" where
  "csrf_refusal N data =
     (case oauth2ErrorRedirect N (pd_RedirectURI data) (pd_State data) ''invalid_request'' ''csrf required'' of
        Some loc \<Rightarrow> Redirect loc
      | None \<Rightarrow> Page (data\<lparr>pd_Error := ''csrf required''\<rparr>))"

definition rejection :: "id_env \<Rightarrow> authorizePageData \<Rightarrow> id_response" where
  "rejection N data =
     (case oauth2ErrorRedirect N (pd_RedirectURI data) (pd_State data) ''access_denied'' ''user rejected request'' of
        Some loc \<Rightarrow> Redirect loc
      | None \<Rightarrow> ErrorPage 403 ''access denied'')"

text \<open>The tail of the POST branch: the consent is stored, its errors ignored, and a code asked for.\<close>

definition issue_code :: "id_env \<Rightarrow> id \<Rightarrow> authorizePageData \<Rightarrow> id_response id_go" where
  "issue_code N userID data =
     bindE (grpcCall (StoreOAuthConsent userID (pd_ClientID data) (requested_scopes (pd_Scope data)))) (\<lambda>_.
     bindE (grpcCall (OAuthAuthorize (ie_auth N) (outgoing N []) (authorize_req data))) (\<lambda>resp.
     case resp of
       Inr a \<Rightarrow> returnE (Redirect (ar_RedirectUrl a))
     | Inl err \<Rightarrow>
         (case oauth2ErrorFromGRPC (ae_ToLower (ie_auth N)) err of
            (code, desc) \<Rightarrow>
              (case oauth2ErrorRedirect N (pd_RedirectURI data) (pd_State data) code desc of
                 Some loc \<Rightarrow> returnE (Redirect loc)
               | None \<Rightarrow> returnE (ErrorPage 500 (Error_text err))))))"

definition password_login ::
    "id_env \<Rightarrow> (string \<Rightarrow> string) \<Rightarrow> string \<Rightarrow> authorizePageData \<Rightarrow> id_reply id_go" where
  "password_login N form sessionID data =
     bindE (grpcCall (Login (ie_auth N) (outgoing N []) (TrimSpace (form ''email'')) (TrimSpace (form ''password'')))) (\<lambda>res.
     case res of
       Inl _ \<Rightarrow> returnE (Page (data\<lparr>pd_Error := ''Invalid email or password''\<rparr>), [])
     | Inr loginRes \<Rightarrow>
         let userID = token_user_id N (at_AccessToken loginRes) in
         if userID = '''' then returnE (Page (data\<lparr>pd_Error := ''Login failed''\<rparr>), [])
         else
           bindE (if TrimSpace sessionID \<noteq> '''' then store_del sessionID else returnE ()) (\<lambda>_.
           bindE (store_put (newBrowserSessionStore (30 * minute)) userID (at_AccessToken loginRes)) (\<lambda>(sid, _).
           bindE (issue_code N userID data) (\<lambda>resp.
           returnE (resp, [(sessionCookieName, sid)])))))"

definition authorize_post ::
    "id_env \<Rightarrow> id_request \<Rightarrow> string \<Rightarrow> browserSession option \<Rightarrow> authorizePageData \<Rightarrow> id_reply id_go" where
  "authorize_post N r sessionID sess data0 =
     (case ir_Form r of
        None \<Rightarrow> returnE (Page (data0\<lparr>pd_Error := ''invalid form''\<rparr>), [])
      | Some form \<Rightarrow>
          let data = page_data form (TrimSpace (form ''csrf_token'')) (sess \<noteq> None);
              cookieToken = trimmed_cookie r csrfCookieName in
          if cookieToken = '''' \<or> pd_CSRFToken data = '''' \<or> cookieToken \<noteq> pd_CSRFToken data
          then returnE (csrf_refusal N data, [])
          else if form ''approve'' \<noteq> ''yes'' then returnE (rejection N data, [])
          else (case sess of
            Some s \<Rightarrow> bindE (issue_code N (bs_UserID s) data) (\<lambda>resp. returnE (resp, []))
          | None \<Rightarrow> password_login N form sessionID data))"

definition wants_html :: "id_env \<Rightarrow> id_request \<Rightarrow> bool" where
  "wants_html N r \<longleftrightarrow>
     (let accept = ae_ToLower (ie_auth N) (ir_Accept r)
      in Contains accept ''text/html'' \<or> accept = '''' \<or> accept = ''*/*'')"

text \<open>\<open>gw.ServeHTTP\<close>.\<close>

definition gateway_authorize :: "id_env \<Rightarrow> id_request \<Rightarrow> id_reply id_go" where
  "gateway_authorize N r =
     (case ie_gateway N r of
        None \<Rightarrow> returnE (GatewayAnswer None, [])
      | Some (ctx, req) \<Rightarrow>
          bindE (grpcCall (OAuthAuthorize (ie_auth N) ctx req)) (\<lambda>res. returnE (GatewayAnswer (Some res), [])))"

definition oauth_authorize :: "id_env \<Rightarrow> id_request \<Rightarrow> id_reply id_go" where
  "oauth_authorize N r =
     (if \<not> wants_html N r then gateway_authorize N r
      else
        let sessionID = trimmed_cookie r sessionCookieName in
        bindE (store_get sessionID) (\<lambda>sess.
        bindE (csrf_value r) (\<lambda>(csrf, cookies).
        let data = page_data (ir_Query r) csrf (sess \<noteq> None) in
        if ir_Method r = ''GET'' then bindE (authorize_get N r sess data) (\<lambda>resp. returnE (resp, cookies))
        else if ir_Method r = ''POST''
        then bindE (authorize_post N r sessionID sess data) (\<lambda>(resp, cs). returnE (resp, cookies @ cs))
        else returnE (Answer 405 '''', cookies))))"

section \<open>What an operation keeps\<close>

text \<open>\<open>steady I m\<close>: whatever \<open>m\<close> returns, it keeps the predicate \<open>I\<close> of the database.\<close>

definition steady :: "('d \<Rightarrow> bool) \<Rightarrow> ('d, 'p, 'a) go \<Rightarrow> bool" where
  "steady I m \<longleftrightarrow> (\<forall>w. I (db w) \<longrightarrow> I (db (snd (m w))))"

named_theorems steady_intro \<open>operations that keep a predicate of the database\<close>

lemma steadyD: "steady I m \<Longrightarrow> m w = (r, w') \<Longrightarrow> I (db w) \<Longrightarrow> I (db w')"
  unfolding steady_def by (metis snd_conv)

lemma steady_basic [steady_intro]:
  "steady I (returnE x)" "steady I (throwE e)" "steady I (liftE r)" "steady I nowUTC" "steady I (callPeer f)"
  by (simp_all add: steady_def returnE_def throwE_def liftE_def nowUTC_def callPeer_def split: prod.split)

lemma steady_bind [steady_intro]:
  assumes "steady I m" and "\<And>x. steady I (f x)"
  shows "steady I (bindE m f)"
  unfolding steady_def
proof (intro allI impI)
  fix w :: "('a, 'b) world"
  assume "I (db w)"
  then show "I (db (snd (bindE m f w)))"
    using assms by (cases "m w"; cases "fst (m w)") (auto simp: bindE_def steady_def dest: steadyD)
qed

lemma steady_wrap [steady_intro]:
  "steady I m \<Longrightarrow> steady I (tryE m)" "steady I m \<Longrightarrow> steady I (mapErr h m)"
  "steady I m \<Longrightarrow> steady I (internalE m)" "steady I m \<Longrightarrow> steady I (noRowsE e m)"
  by (simp_all add: steady_def internalE_def noRowsE_def)

lemma steady_if [steady_intro]: "steady I m \<Longrightarrow> steady I n \<Longrightarrow> steady I (if b then m else n)"
  by simp

lemma steady_cases [steady_intro]:
  "\<lbrakk>\<And>e. steady I (f e); \<And>x. steady I (g x)\<rbrakk> \<Longrightarrow> steady I (case s of Inl e \<Rightarrow> f e | Inr x \<Rightarrow> g x)"
  "\<lbrakk>steady I m; \<And>x. steady I (k x)\<rbrakk> \<Longrightarrow> steady I (case q of None \<Rightarrow> m | Some x \<Rightarrow> k x)"
  "(\<And>a b. steady I (h a b)) \<Longrightarrow> steady I (case p of (a, b) \<Rightarrow> h a b)"
  by (simp_all split: sum.split option.split prod.split)

lemma steady_sql_now:
  "(\<And>now d x d'. I d \<Longrightarrow> st now d = Inr (x, d') \<Longrightarrow> I d') \<Longrightarrow> steady I (sql_now st)"
  by (auto simp: steady_def sql_now_def Let_def split: option.splits sum.splits)

lemma steady_sql: "(\<And>d x d'. I d \<Longrightarrow> st d = Inr (x, d') \<Longrightarrow> I d') \<Longrightarrow> steady I (sql st)"
  unfolding sql_def by (rule steady_sql_now) blast

lemma steady_query [steady_intro]: "steady I (sql (queryRow q))" "steady I (sql (queryRows qs))"
  by (rule steady_sql; simp)+

lemma steady_tx:
  assumes "steady I body" and "\<And>d d'. I d \<Longrightarrow> I (auth_rb d d')"
  shows "steady I (txE body)"
proof -
  have "I (db (snd (withTx auth_rb body w)))" if i: "I (db w)" for w
  proof (cases "body (w\<lparr>tick := Suc (tick w), txtime := Some (clock w (tick w))\<rparr>)")
    case (Pair r v)
    then have "I (db v)" using steadyD [OF assms(1) Pair] i by simp
    then show ?thesis
      using Pair i assms(2) by (cases r) (auto simp: withTx_def Let_def split: option.split)
  qed
  then show ?thesis by (simp add: steady_def txE_def)
qed

lemma steady_onAuth:
  assumes "\<And>d. I d \<Longrightarrow> steady (J d) m" and "\<And>d. I d \<Longrightarrow> J d (id_auth d)"
    and "\<And>d a. I d \<Longrightarrow> J d a \<Longrightarrow> I (d\<lparr>id_auth := a\<rparr>)"
  shows "steady I (onAuth m)"
  unfolding steady_def
proof (intro allI impI)
  fix w :: "(identity_db, loginLimiter option) world"
  assume i: "I (db w)"
  let ?u = "\<lparr>db = id_auth (db w), peer = peer w, clock = clock w, uuid = uuid w, fault = fault w,
             tick = tick w, txtime = txtime w\<rparr>"
  have "J (db w) (db (snd (m ?u)))"
    using assms(1) [OF i] assms(2) [OF i] by (simp add: steady_def)
  with assms(3) [OF i] show "I (db (snd (onAuth m w)))"
    by (simp add: onAuth_def case_prod_beta)
qed

text \<open>An operation of the auth service keeps what is known of the other tables.\<close>

lemma steady_frame: "(\<And>d a. I (d\<lparr>id_auth := a\<rparr>) = I d) \<Longrightarrow> steady I (onAuth m)"
  by (rule steady_onAuth [where J = "\<lambda>_ _. True"]) (simp_all add: steady_def)

lemma steady_grpc: "steady I (onAuth m) \<Longrightarrow> steady I (grpcCall m)"
  unfolding grpcCall_def by (intro steady_wrap)

section \<open>The authorization endpoint never authorizes\<close>

text \<open>
  The local calls carry no credentials: the request's cookie and the session's access token are not
  put into the outgoing metadata.
\<close>

lemma outgoing_anonymous: "bearer_exact (outgoing N []) = ''''"
  by (simp add: bearer_exact_def authorization_values_def outgoing_def MD_Get_def ToLower_headers)

lemma OAuthAuthorize_anonymous:
  assumes "bearer_exact ctx = ''''"
  shows "\<exists>e w'. OAuthAuthorize E ctx req w = (Inl e, w') \<and> db w' = db w"
proof -
  have "steady (\<lambda>d. d = db w) (oauth_client c)" for c
    unfolding oauth_client_def fetchOAuthClient_def Let_def by (intro steady_intro)
  then have o: "db w' = db w" if "oauth_client c w = (r, w')" for c r w'
    using that steadyD by blast
  show ?thesis
    using assms o
    by (auto simp: OAuthAuthorize_def Let_def throwE_def bindE_def userIDFromAuthHeader_def
        split: option.split prod.split sum.split)
qed


text \<open>
  What is relied on of the JWT format (RFC 7519), of \<open>encoding/json\<close> and of the library's
  \<open>RegisteredClaims\<close>: three parts separated by dots, the middle one the unpadded base64url encoding of
  a JSON object whose members have the names in the tags of \<open>jwtClaims\<close> and the names of the
  registered claims.
\<close>

definition claim_names :: "string list" where
  "claim_names = jwtClaims_tags @ [''iss'', ''sub'', ''aud'', ''exp'', ''nbf'', ''iat'', ''jti'']"

definition jwt_text_ok :: "id_env \<Rightarrow> jwt_lib \<Rightarrow> bool" where
  "jwt_text_ok N L \<longleftrightarrow>
     (\<forall>priv kid c tok. jl_Sign L priv kid c = Inr tok \<longrightarrow>
        (\<exists>h b s members. tok = h @ ''.'' @ EncodeToString RawURLEncoding b @ ''.'' @ s \<and>
           CHR ''.'' \<notin> set h \<and> CHR ''.'' \<notin> set s \<and>
           ie_json N b = Some members \<and> fst ` set members \<subseteq> set claim_names))"

lemma no_user_id_claim: "k \<in> set claim_names \<Longrightarrow> \<not> EqualFold k ''user_id''"
proof -
  have "list_all (\<lambda>k. \<not> EqualFold k ''user_id'') claim_names" by code_simp
  then show "k \<in> set claim_names \<Longrightarrow> \<not> EqualFold k ''user_id''" by (simp add: list_all_iff)
qed

lemma token_user_id_empty:
  assumes "jwt_text_ok N L" and "jl_Sign L priv kid c = Inr tok"
  shows "token_user_id N tok = ''''"
proof -
  obtain h b s members where "tok = h @ ''.'' @ EncodeToString RawURLEncoding b @ ''.'' @ s"
      and d: "CHR ''.'' \<notin> set h" "CHR ''.'' \<notin> set s"
      and j: "ie_json N b = Some members" "fst ` set members \<subseteq> set claim_names"
    using assms unfolding jwt_text_ok_def by blast
  then have t: "tok = h @ CHR ''.'' # (EncodeToString RawURLEncoding b @ CHR ''.'' # s)" by simp
  have "CHR ''.'' \<notin> set (b64_alphabet RawURLEncoding)" "\<not> b64_padded RawURLEncoding" by code_simp+
  then have "CHR ''.'' \<notin> set (EncodeToString RawURLEncoding b)"
    using encode_alphabet [of RawURLEncoding] by auto
  then have "split_on (CHR ''.'') tok = [h, EncodeToString RawURLEncoding b, s]"
    unfolding t using d by (simp add: split_on_part split_on_last)
  moreover have "\<not> EqualFold k ''user_id''" if "(k, v) \<in> set members" for k v
    using no_user_id_claim [of k] j(2) that by force
  then have "[v. (k, Some v) \<leftarrow> members, EqualFold k ''user_id''] = []"
    by (fastforce split: prod.split option.split)
  ultimately show ?thesis
    by (simp add: token_user_id_def decode_encode j(1) del: concat_eq_Nil_conv)
qed

text \<open>\<open>yields Q m\<close>: what \<open>m\<close> returns satisfies \<open>Q\<close>.\<close>

definition yields :: "('a \<Rightarrow> bool) \<Rightarrow> ('d, 'p, 'a) go \<Rightarrow> bool" where
  "yields Q m \<longleftrightarrow> (\<forall>w x w'. m w = (Inr x, w') \<longrightarrow> Q x)"

lemma yields_intro:
  "Q a \<Longrightarrow> yields Q (returnE a)" "yields Q (throwE err)"
  "(\<And>x. yields Q (f x)) \<Longrightarrow> yields Q (bindE m f)"
  "yields Q m1 \<Longrightarrow> yields Q m2 \<Longrightarrow> yields Q (if c then m1 else m2)"
  "\<lbrakk>\<And>e. yields Q (f' e); \<And>y. yields Q (g y)\<rbrakk> \<Longrightarrow> yields Q (case s of Inl e \<Rightarrow> f' e | Inr x \<Rightarrow> g x)"
  "(\<And>i j. yields Q (h i j)) \<Longrightarrow> yields Q (case p of (i, j) \<Rightarrow> h i j)"
  by (auto simp: yields_def go_inv split: sum.split prod.split)

lemma yields_access_token:
  "(\<And>now p tok. ae_CreateToken E p = Inr tok \<Longrightarrow> yields Q (g now tok)) \<Longrightarrow>
     yields Q (bindE (access_token E u rp) (\<lambda>(now, tok). g now tok))"
  unfolding yields_def access_token_def by (simp add: go_inv) blast

lemma Login_token:
  assumes "Login E ctx email pw w = (Inr t, w')"
  shows "\<exists>p. ae_CreateToken E p = Inr (at_AccessToken t)"
proof -
  have "yields (\<lambda>t. \<exists>p. ae_CreateToken E p = Inr (at_AccessToken t)) (Login E ctx email pw)"
    unfolding Login_def Let_def
    by (intro yields_access_token yields_intro) auto
  with assms show ?thesis by (auto simp: yields_def)
qed

text \<open>The calls the endpoint makes do not touch the codes.\<close>

lemma steady_randRead [steady_intro]: "steady I (randRead n)" "steady I (randomB64URL k)" "steady I newRefreshToken"
proof -
  show r: "steady I (randRead n)" for n
    by (simp add: steady_def randRead_def Let_def split: option.split)
  show "steady I (randomB64URL k)" "steady I newRefreshToken"
    unfolding randomB64URL_def newRefreshToken_def Let_def by (intro steady_intro r)+
qed

lemma steady_limiter [steady_intro]:
  "steady I (limiter_allow key)" "steady I (limiter_onFailure key)" "steady I (limiter_onSuccess key)"
  by (simp_all add: steady_def limiter_allow_def limiter_onFailure_def limiter_onSuccess_def callPeer_def bindE_def
      nowUTC_def split: option.split prod.split)

lemma steady_Login: "steady (\<lambda>d. codes d = C) (Login E ctx email pw)"
  unfolding Login_def access_token_def getRolesAndPermissions_def Let_def
  by (intro steady_intro steady_sql) (auto simp: insert_session_def split: if_splits)

lemma steady_GetOAuthConsent: "steady I (GetOAuthConsent u c)"
  unfolding GetOAuthConsent_def Let_def by (intro steady_intro)

lemma steady_StoreOAuthConsent: "steady (\<lambda>d. codes d = C) (StoreOAuthConsent u c ss)"
  unfolding StoreOAuthConsent_def Let_def
  by (intro steady_intro steady_tx steady_sql steady_sql_now)
    (auto simp: upsert_consent_def insert_history_def auth_rb_def split: if_splits option.splits)

lemma steady_anonymous: "steady I (OAuthAuthorize E (outgoing N []) req)"
  using OAuthAuthorize_anonymous [OF outgoing_anonymous] unfolding steady_def by (metis snd_conv)

definition front_state ::
    "oauth_code list \<Rightarrow> webauthn_credential list \<Rightarrow> webauthn_session list \<Rightarrow> identity_db \<Rightarrow> bool" where
  "front_state C cs ss d \<longleftrightarrow> codes (id_auth d) = C \<and> id_browser d = [] \<and> id_credentials d = cs \<and> id_sessions d = ss"

lemma steady_front:
  assumes "steady (\<lambda>a. codes a = C) m"
  shows "steady (front_state C cs ss) (onAuth m)"
  using assms by (intro steady_onAuth [where J = "\<lambda>_ a. codes a = C"]) (simp_all add: front_state_def)

lemmas steady_calls = steady_grpc [OF steady_front [OF steady_Login]]
  steady_grpc [OF steady_front [OF steady_GetOAuthConsent]]
  steady_grpc [OF steady_front [OF steady_StoreOAuthConsent]]
  steady_grpc [OF steady_front [OF steady_anonymous]]
  steady_front [OF steady_randRead(2)]

lemma steady_store_get [steady_intro]: "steady I (store_get sid)"
  unfolding store_get_def by (intro steady_intro steady_sql_now) auto

lemma steady_issue_code: "steady (front_state C cs ss) (issue_code N u data)"
  unfolding issue_code_def by (intro steady_intro steady_calls)

lemma grpcCall_Inr: "grpcCall m w = (Inr (Inr x), w') \<Longrightarrow> \<exists>v v'. m v = (Inr x, v')"
  by (auto simp: grpcCall_def tryE_def mapErr_def onAuth_def split: prod.splits sum.splits)

lemma steady_password_login:
  assumes "jwt_text_ok N L" and "ae_CreateToken (ie_auth N) = CreateToken L maker"
  shows "steady (front_state C cs ss) (password_login N form sid data)"
  unfolding steady_def
proof (intro allI impI)
  fix w :: "(identity_db, loginLimiter option) world"
  assume i: "front_state C cs ss (db w)"
  let ?c = "grpcCall (Login (ie_auth N) (outgoing N []) (TrimSpace (form ''email'')) (TrimSpace (form ''password'')))"
  obtain r w1 where r: "?c w = (r, w1)" by fastforce
  have i1: "front_state C cs ss (db w1)" using steadyD [OF steady_calls(1) r i] .
  have "token_user_id N (at_AccessToken t) = ''''" if "r = Inr (Inr t)" for t
    using grpcCall_Inr [of _ w t w1] r that Login_token token_user_id_empty [OF assms(1)] assms(2)
    by (metis CreateToken_def)
  with r i1 show "front_state C cs ss (db (snd (password_login N form sid data w)))"
    by (cases r; cases "projr r") (auto simp: password_login_def bindE_def returnE_def)
qed

lemma steady_authorize:
  assumes "jwt_text_ok N L" and "ae_CreateToken (ie_auth N) = CreateToken L maker"
    and "wants_html N r"
  shows "steady (front_state C cs ss) (oauth_authorize N r)"
  unfolding oauth_authorize_def csrf_value_def authorize_get_def authorize_post_def Let_def
  by (simp only: assms(3) not_True_eq_False if_False)
    (intro steady_intro steady_calls steady_issue_code steady_password_login [OF assms(1,2)])

end
