(* ===== verification/WebAuthn.thy ===== *)
theory WebAuthn
  imports Identity
begin

text \<open>
  Passkeys, \<open>src/services/identity-service/cmd/identity-service/webauthn.go\<close>, on the tables of
  \<open>Identity\<close>. The protocol itself is the library \<open>go-webauthn\<close>, a parameter: it makes options and
  session data for a ceremony and checks the browser's answer. A credential or a session in a JSON
  column is kept as its value. Then what the whole identity front allows, over every sequence of
  requests.
\<close>

section \<open>The library\<close>

record webauthnUser =
  wu_id :: string
  wu_name :: string
  wu_displayName :: string
  wu_credentials :: "Credential list"

text \<open>Beginning a ceremony draws a challenge, so it depends on the interaction it is.\<close>

record webauthn_lib =
  wl_BeginLogin :: "nat \<Rightarrow> webauthnUser \<Rightarrow> go_error + string \<times> string"
  wl_FinishLogin :: "webauthnUser \<Rightarrow> string \<Rightarrow> string \<Rightarrow> go_error + Credential"
  wl_BeginRegistration :: "nat \<Rightarrow> webauthnUser \<Rightarrow> go_error + string \<times> string"
  wl_FinishRegistration :: "webauthnUser \<Rightarrow> string \<Rightarrow> string \<Rightarrow> go_error + Credential"

definition drawn_from :: "(nat \<Rightarrow> go_error + 'a) \<Rightarrow> 'a id_go" where
  "drawn_from f = (\<lambda>w. (f (tick w), w\<lparr>tick := Suc (tick w)\<rparr>))"

section \<open>Storage\<close>

definition webAuthnCookieName :: string where
  "webAuthnCookieName = ''fincore_webauthn_session''"

definition userByEmail :: "id_env \<Rightarrow> string \<Rightarrow> (id \<times> string) id_go" where
  "userByEmail N mail =
     (let email = TrimSpace (ae_ToLower (ie_auth N) mail) in
      if email = '''' then throwE (ErrorString ''email required'')
      else sql (\<lambda>d. case find (\<lambda>u. au_email u = email) (users (id_auth d)) of
        None \<Rightarrow> Inl ErrNoRows
      | Some u \<Rightarrow> Inr ((au_id u, au_email u), d)))"

definition loadCredentials :: "id \<Rightarrow> Credential list id_go" where
  "loadCredentials userID =
     sql (\<lambda>d. Inr (map wc_credential (sort_key wc_created_at (filter (\<lambda>c. wc_user_id c = userID) (id_credentials d))), d))"

definition insert_webauthn_session :: "webauthn_session \<Rightarrow> identity_db \<Rightarrow> go_error + unit \<times> identity_db" where
  "insert_webauthn_session s d =
     (if ws_id s \<in> ws_id ` set (id_sessions d) then Inl (unique_violation ''webauthn_sessions_pkey'')
      else if \<not> user_exists (ws_user_id s) (id_auth d) then Inl (foreign_key_violation ''webauthn_sessions_user_id_fkey'')
      else Inr ((), d\<lparr>id_sessions := id_sessions d @ [s]\<rparr>))"

text \<open>\<open>randID\<close> is the same code as \<open>randomB64URL\<close>.\<close>

definition putSession :: "webAuthnSessionKind \<Rightarrow> id \<Rightarrow> string \<Rightarrow> string id_go" where
  "putSession kind userID sd =
     bindE (onAuth (randomB64URL 32)) (\<lambda>sid.
     bindE nowUTC (\<lambda>now.
     bindE (sql (insert_webauthn_session
       \<lparr>ws_id = sid, ws_kind = kind, ws_user_id = userID, ws_session_data = sd,
        ws_expires_at = pg_time (now + 5 * minute)\<rparr>)) (\<lambda>_.
     returnE sid)))"

definition session_matches :: "string \<Rightarrow> webAuthnSessionKind \<Rightarrow> time \<Rightarrow> webauthn_session \<Rightarrow> bool" where
  "session_matches sid kind now s \<longleftrightarrow> ws_id s = sid \<and> ws_kind s = kind \<and> ws_expires_at s > now"

text \<open>The deleted row, if there is one: a session is used once.\<close>

definition popSession :: "string \<Rightarrow> webAuthnSessionKind \<Rightarrow> (id \<times> string) option id_go" where
  "popSession sid kind =
     (if TrimSpace sid = '''' then returnE None
      else sql_now (\<lambda>now d.
        case find (session_matches sid kind now) (id_sessions d) of
          None \<Rightarrow> Inr (None, d)
        | Some s \<Rightarrow> Inr (Some (ws_user_id s, ws_session_data s),
            d\<lparr>id_sessions := filter (\<lambda>s. \<not> session_matches sid kind now s) (id_sessions d)\<rparr>)))"

definition update_credential :: "id \<Rightarrow> Credential \<Rightarrow> time \<Rightarrow> identity_db \<Rightarrow> go_error + unit \<times> identity_db" where
  "update_credential userID cred now d =
     Inr ((), d\<lparr>id_credentials := map (\<lambda>c.
        if wc_user_id c = userID \<and> wc_credential_id c = wk_ID cred
        then c\<lparr>wc_credential := cred, wc_sign_count := wk_SignCount cred, wc_updated_at := now\<rparr> else c) (id_credentials d)\<rparr>)"

text \<open>\<open>insert ... on conflict (credential_id) do update\<close>: the row of another user is updated too.\<close>

definition upsert_credential :: "string \<Rightarrow> id \<Rightarrow> Credential \<Rightarrow> time \<Rightarrow> identity_db \<Rightarrow> go_error + unit \<times> identity_db" where
  "upsert_credential rowID userID cred now d =
     (if wk_ID cred \<in> wc_credential_id ` set (id_credentials d)
      then Inr ((), d\<lparr>id_credentials := map (\<lambda>c.
        if wc_credential_id c = wk_ID cred
        then c\<lparr>wc_credential := cred, wc_sign_count := wk_SignCount cred, wc_updated_at := now\<rparr> else c) (id_credentials d)\<rparr>)
      else if rowID \<in> wc_id ` set (id_credentials d) then Inl (unique_violation ''webauthn_credentials_pkey'')
      else if \<not> user_exists userID (id_auth d) then Inl (foreign_key_violation ''webauthn_credentials_user_id_fkey'')
      else Inr ((), d\<lparr>id_credentials := id_credentials d @
        [\<lparr>wc_id = rowID, wc_user_id = userID, wc_credential_id = wk_ID cred, wc_credential = cred,
          wc_sign_count = wk_SignCount cred, wc_created_at = now, wc_updated_at = now\<rparr>]\<rparr>))"

section \<open>Handlers\<close>

text \<open>\<open>x, err := m; if err != nil { http.Error(w, msg, status); return }\<close>.\<close>

definition orFail :: "nat \<Rightarrow> string \<Rightarrow> 'a id_go \<Rightarrow> ('a \<Rightarrow> id_reply id_go) \<Rightarrow> id_reply id_go" where
  "orFail status msg m k =
     bindE (tryE m) (\<lambda>r. case r of Inl _ \<Rightarrow> returnE (ErrorPage status msg, []) | Inr x \<Rightarrow> k x)"

definition orFailText :: "nat \<Rightarrow> 'a id_go \<Rightarrow> ('a \<Rightarrow> id_reply id_go) \<Rightarrow> id_reply id_go" where
  "orFailText status m k =
     bindE (tryE m) (\<lambda>r. case r of Inl e \<Rightarrow> returnE (ErrorPage status (Error_text e), []) | Inr x \<Rightarrow> k x)"

definition withCookies :: "(string \<times> string) list \<Rightarrow> id_reply id_go \<Rightarrow> id_reply id_go" where
  "withCookies cs m = bindE m (\<lambda>(resp, cs'). returnE (resp, cs @ cs'))"

definition BeginLogin :: "id_env \<Rightarrow> webauthn_lib \<Rightarrow> id_request \<Rightarrow> id_reply id_go" where
  "BeginLogin N W r =
     (let email = ir_Query r ''email'' in
      if email = '''' then returnE (ErrorPage 400 ''email required'', [])
      else
        orFail 404 ''unknown user'' (userByEmail N email) (\<lambda>(userID, dbEmail).
        orFail 500 ''failed to load credentials'' (loadCredentials userID) (\<lambda>creds.
        if creds = [] then returnE (ErrorPage 404 ''no passkeys registered'', [])
        else
          let user = \<lparr>wu_id = userID, wu_name = dbEmail, wu_displayName = dbEmail, wu_credentials = creds\<rparr> in
          orFailText 500 (drawn_from (\<lambda>n. wl_BeginLogin W n user)) (\<lambda>(options, sd).
          orFail 500 ''failed to persist login session'' (putSession SessionKindLogin userID sd) (\<lambda>sid.
          returnE (Answer 200 options, [(webAuthnCookieName, sid)]))))))"

definition self_named :: "id \<Rightarrow> Credential list \<Rightarrow> webauthnUser" where
  "self_named userID creds = \<lparr>wu_id = userID, wu_name = userID, wu_displayName = userID, wu_credentials = creds\<rparr>"

definition FinishLogin :: "webauthn_lib \<Rightarrow> id_request \<Rightarrow> id_reply id_go" where
  "FinishLogin W r =
     orFail 500 ''failed to load login session'' (popSession (trimmed_cookie r webAuthnCookieName) SessionKindLogin) (\<lambda>popped.
     case popped of
       None \<Rightarrow> returnE (ErrorPage 401 ''login session expired'', [])
     | Some (userID, sd) \<Rightarrow> withCookies [(webAuthnCookieName, '''')] (
         orFail 500 ''failed to load credentials'' (loadCredentials userID) (\<lambda>creds.
         orFail 401 ''passkey verification failed'' (liftE (wl_FinishLogin W (self_named userID creds) sd (ir_Body r))) (\<lambda>cred.
         bindE (tryE (sql_now (update_credential userID cred))) (\<lambda>_.
         orFail 500 ''failed to create session'' (onAuth (randomB64URL 32)) (\<lambda>browserToken.
         bindE (store_put (newBrowserSessionStore (30 * minute)) userID browserToken) (\<lambda>(sessionID, ok2).
         if \<not> ok2 then returnE (ErrorPage 500 ''failed to create session'', [])
         else returnE (Answer 200 '''', [(sessionCookieName, sessionID)]))))))))"

text \<open>The signed-in user of a request: the session its trimmed cookie names.\<close>

definition signedIn :: "string \<Rightarrow> id_request \<Rightarrow> (browserSession \<Rightarrow> id_reply id_go) \<Rightarrow> id_reply id_go" where
  "signedIn msg r k =
     (let sid = trimmed_cookie r sessionCookieName in
      if sid = '''' then returnE (ErrorPage 401 msg, [])
      else bindE (store_get sid) (\<lambda>found.
        case found of None \<Rightarrow> returnE (ErrorPage 401 msg, []) | Some sess \<Rightarrow> k sess))"

definition BeginRegister :: "webauthn_lib \<Rightarrow> id_request \<Rightarrow> id_reply id_go" where
  "BeginRegister W r =
     signedIn ''login required'' r (\<lambda>sess.
     orFail 500 ''failed to load credentials'' (loadCredentials (bs_UserID sess)) (\<lambda>creds.
     orFail 500 ''failed to begin registration''
       (drawn_from (\<lambda>n. wl_BeginRegistration W n (self_named (bs_UserID sess) creds))) (\<lambda>(options, sd).
     orFail 500 ''failed to persist registration session'' (putSession SessionKindRegister (bs_UserID sess) sd) (\<lambda>sid.
     returnE (Answer 200 options, [(webAuthnCookieName, sid)])))))"

definition FinishRegister :: "webauthn_lib \<Rightarrow> id_request \<Rightarrow> id_reply id_go" where
  "FinishRegister W r =
     orFail 500 ''failed to load registration session'' (popSession (trimmed_cookie r webAuthnCookieName) SessionKindRegister) (\<lambda>popped.
     case popped of
       None \<Rightarrow> returnE (ErrorPage 401 ''registration session expired'', [])
     | Some (userID, sd) \<Rightarrow> withCookies [(webAuthnCookieName, '''')] (
         orFail 500 ''failed to load credentials'' (loadCredentials userID) (\<lambda>creds.
         orFail 400 ''passkey registration failed''
           (liftE (wl_FinishRegistration W (self_named userID creds) sd (ir_Body r))) (\<lambda>cred.
         orFail 500 ''server error'' (onAuth (randomB64URL 16)) (\<lambda>rowID.
         orFail 500 ''failed to store credential'' (sql_now (upsert_credential rowID userID cred)) (\<lambda>_.
         returnE (Answer 200 '''', [])))))))"

definition CleanupSessions :: "nat id_go" where
  "CleanupSessions =
     sql_now (\<lambda>now d. Inr (length (filter (\<lambda>s. ws_expires_at s \<le> now) (id_sessions d)),
       d\<lparr>id_sessions := filter (\<lambda>s. \<not> ws_expires_at s \<le> now) (id_sessions d)\<rparr>))"

text \<open>The list in the answer is returned beside it.\<close>

definition ListCredentials :: "id_request \<Rightarrow> (id_response \<times> webauthn_credential list) id_go" where
  "ListCredentials r =
     (let sid = trimmed_cookie r sessionCookieName in
      if sid = '''' then returnE (ErrorPage 401 ''unauthorized'', [])
      else bindE (store_get sid) (\<lambda>found.
        case found of
          None \<Rightarrow> returnE (ErrorPage 401 ''unauthorized'', [])
        | Some sess \<Rightarrow>
            bindE (tryE (sql (\<lambda>d. Inr (rev (sort_key wc_created_at
              (filter (\<lambda>c. wc_user_id c = bs_UserID sess) (id_credentials d))), d)))) (\<lambda>rows.
            case rows of
              Inl _ \<Rightarrow> returnE (ErrorPage 500 ''server error'', [])
            | Inr out \<Rightarrow> returnE (Answer 200 '''', out))))"

definition DeleteCredential :: "id_request \<Rightarrow> id_reply id_go" where
  "DeleteCredential r =
     (let cid = ir_Query r ''id'' in
      if cid = '''' then returnE (ErrorPage 400 ''id required'', [])
      else signedIn ''unauthorized'' r (\<lambda>sess.
        orFail 500 ''server error'' (sql (\<lambda>d.
          Inr (length (filter (\<lambda>c. wc_id c = cid \<and> wc_user_id c = bs_UserID sess) (id_credentials d)),
               d\<lparr>id_credentials := filter (\<lambda>c. \<not> (wc_id c = cid \<and> wc_user_id c = bs_UserID sess)) (id_credentials d)\<rparr>))) (\<lambda>n.
        if n = 0 then returnE (ErrorPage 404 ''not found'', []) else returnE (Answer 204 '''', []))))"

section \<open>The whole front\<close>

text \<open>A request to one of the endpoints, a call of the auth service's own interface, or the ticker.\<close>

datatype id_call =
    AuthorizeReq id_request
  | TokenReq id_request
  | LogoutReq id_request
  | BeginLoginReq id_request
  | FinishLoginReq id_request
  | BeginRegisterReq id_request
  | FinishRegisterReq id_request
  | ListReq id_request
  | DeleteReq id_request
  | AuthCall auth_call
  | CleanupTick duration

type_synonym id_world = "(identity_db, loginLimiter option) world"

text \<open>The ticker's body: the second cleanup is skipped when the first fails.\<close>

definition cleanup_tick :: "duration \<Rightarrow> unit id_go" where
  "cleanup_tick revokedRetention =
     bindE (tryE (onAuth (CleanupRefreshSessions revokedRetention))) (\<lambda>r.
     case r of
       Inl _ \<Rightarrow> returnE ()
     | Inr _ \<Rightarrow> bindE (tryE CleanupSessions) (\<lambda>_. returnE ()))"

fun id_step :: "id_env \<Rightarrow> webauthn_lib \<Rightarrow> id_call \<Rightarrow> id_world \<Rightarrow> id_world" where
  "id_step N W (AuthorizeReq r) w = snd (oauth_authorize N r w)"
| "id_step N W (TokenReq r) w = snd (oauth_token N r w)"
| "id_step N W (LogoutReq r) w = snd (oauth_logout r w)"
| "id_step N W (BeginLoginReq r) w = snd (BeginLogin N W r w)"
| "id_step N W (FinishLoginReq r) w = snd (FinishLogin W r w)"
| "id_step N W (BeginRegisterReq r) w = snd (BeginRegister W r w)"
| "id_step N W (FinishRegisterReq r) w = snd (FinishRegister W r w)"
| "id_step N W (ListReq r) w = snd (ListCredentials r w)"
| "id_step N W (DeleteReq r) w = snd (DeleteCredential r w)"
| "id_step N W (AuthCall c) w = snd (onAuth (\<lambda>v. (Inr (), run_call (ie_auth N) c v)) w)"
| "id_step N W (CleanupTick d) w = snd (cleanup_tick d w)"

fun id_run :: "id_env \<Rightarrow> webauthn_lib \<Rightarrow> id_call list \<Rightarrow> id_world \<Rightarrow> id_world" where
  "id_run N W [] w = w"
| "id_run N W (c # cs) w = id_run N W cs (id_step N W c w)"

section \<open>Nobody gets in through the browser\<close>

text \<open>The state of a fresh installation: no browser session, no passkey, no ceremony under way.\<close>

definition locked_out :: "identity_db \<Rightarrow> bool" where
  "locked_out d \<longleftrightarrow> id_browser d = [] \<and> id_credentials d = [] \<and> id_sessions d = []"

text \<open>Then the lookups that open the ceremonies find nothing.\<close>

definition gives :: "('d \<Rightarrow> bool) \<Rightarrow> ('a \<Rightarrow> bool) \<Rightarrow> ('d, 'p, 'a) go \<Rightarrow> bool" where
  "gives I R m \<longleftrightarrow> (\<forall>w x w'. I (db w) \<longrightarrow> m w = (Inr x, w') \<longrightarrow> R x)"

lemma steady_then:
  assumes "steady I m" and "gives I R m" and "\<And>x. R x \<Longrightarrow> steady I (f x)"
  shows "steady I (bindE m f)"
  unfolding steady_def
proof (intro allI impI)
  fix w :: "('a, 'b) world"
  assume i: "I (db w)"
  show "I (db (snd (bindE m f w)))"
  proof (cases "m w")
    case (Pair r v)
    have "I (db v)" using steadyD [OF assms(1) Pair i] .
    then show ?thesis
      using Pair i assms(2,3) unfolding gives_def steady_def
      by (cases r) (auto simp: bindE_def)
  qed
qed

lemma steady_orFail:
  "steady I m \<Longrightarrow> gives I R m \<Longrightarrow> (\<And>x. R x \<Longrightarrow> steady I (k x)) \<Longrightarrow> steady I (orFail st msg m k)"
  unfolding orFail_def
  by (rule steady_then [where R = "\<lambda>r. \<forall>x. r = Inr x \<longrightarrow> R x", OF steady_wrap(1)])
    (auto simp: gives_def tryE_def steady_basic split: sum.split prod.splits)

lemma gives_any: "gives I (\<lambda>_. True) m"
  by (simp add: gives_def)

lemma locked_out_finds_nothing:
  "gives locked_out (\<lambda>x. x = None) (store_get sid)"
  "gives locked_out (\<lambda>x. x = []) (loadCredentials u)"
  "gives locked_out (\<lambda>x. x = None) (popSession sid kind)"
  by (auto simp: gives_def locked_out_def store_get_def loadCredentials_def popSession_def tryE_def bindE_def
      returnE_def sql_def sql_now_def Let_def split: if_splits option.splits sum.splits)

lemma steady_lookups [steady_intro]:
  "steady I (loadCredentials u)" "steady I (userByEmail N mail)"
  unfolding loadCredentials_def userByEmail_def Let_def
  by (intro steady_intro steady_sql; auto split: option.splits)+

lemma steady_popSession: "steady locked_out (popSession sid kind)"
  unfolding popSession_def
  by (intro steady_intro steady_sql_now) (auto simp: locked_out_def split: option.splits)

lemma locked_out_auth: "locked_out (d\<lparr>id_auth := a\<rparr>) = locked_out d"
  by (simp add: locked_out_def)

lemma steady_signedIn: "steady locked_out (signedIn msg r k)"
  unfolding signedIn_def Let_def
  by (intro steady_if steady_basic steady_then [OF steady_store_get locked_out_finds_nothing(1)])
    (simp add: steady_intro)

lemma steady_passkeys:
  "steady locked_out (BeginLogin N W r)" "steady locked_out (FinishLogin W r)"
  "steady locked_out (BeginRegister W r)" "steady locked_out (FinishRegister W r)"
  "steady locked_out (ListCredentials r)" "steady locked_out (DeleteCredential r)"
proof -
  show "steady locked_out (BeginLogin N W r)"
    unfolding BeginLogin_def Let_def
    by (rule steady_if, rule steady_basic, rule steady_orFail [OF steady_lookups(2) gives_any], rule steady_cases,
        rule steady_orFail [OF steady_lookups(1) locked_out_finds_nothing(2)], simp add: steady_basic)
  show "steady locked_out (FinishLogin W r)" "steady locked_out (FinishRegister W r)"
    unfolding FinishLogin_def FinishRegister_def
    by (intro steady_orFail [OF steady_popSession locked_out_finds_nothing(3)]; simp add: steady_intro)+
  show "steady locked_out (BeginRegister W r)" "steady locked_out (DeleteCredential r)"
    unfolding BeginRegister_def DeleteCredential_def Let_def
    by (intro steady_if steady_basic steady_signedIn)+
  show "steady locked_out (ListCredentials r)"
    unfolding ListCredentials_def Let_def
    by (intro steady_if steady_basic steady_then [OF steady_store_get locked_out_finds_nothing(1)])
      (simp add: steady_intro)
qed

lemma steady_locked_authorize:
  assumes "jwt_text_ok N L" and "ae_CreateToken (ie_auth N) = CreateToken L maker"
  shows "steady locked_out (oauth_authorize N r)"
proof (cases "wants_html N r")
  case True
  then show ?thesis
    using steady_authorize [OF assms True, of _ "[]" "[]"]
    unfolding steady_def front_state_def locked_out_def by blast
next
  case False
  then show ?thesis
    unfolding oauth_authorize_def gateway_authorize_def
    by (simp only: not_False_eq_True if_True)
      (intro steady_intro steady_grpc steady_frame [of locked_out, OF locked_out_auth])
qed

lemma steady_rest:
  "steady locked_out (oauth_token N r)" "steady locked_out (oauth_logout r)" "steady locked_out (cleanup_tick t)"
proof -
  note frame = steady_frame [of locked_out, OF locked_out_auth]
  show "steady locked_out (oauth_token N r)"
    unfolding oauth_token_def Let_def by (intro steady_intro steady_grpc frame)
  show "steady locked_out (oauth_logout r)"
    unfolding oauth_logout_def store_del_def
    by (intro steady_intro steady_sql) (auto simp: locked_out_def)
  show "steady locked_out (cleanup_tick t)"
    unfolding cleanup_tick_def CleanupSessions_def
    by (intro steady_intro steady_sql_now frame) (auto simp: locked_out_def)
qed

lemma locked_out_step:
  assumes "jwt_text_ok N L" and "ae_CreateToken (ie_auth N) = CreateToken L maker" and "locked_out (db w)"
  shows "locked_out (db (id_step N W c w))"
proof -
  have "steady locked_out (onAuth (\<lambda>v. (Inr (), run_call (ie_auth N) x v)))" for x
    by (rule steady_frame) (rule locked_out_auth)
  then show ?thesis
    using steady_locked_authorize [OF assms(1,2)] steady_passkeys steady_rest assms(3)
    by (cases c) (simp_all add: steady_def)
qed

text \<open>
  C39. The browser login cannot be used. A browser session is made by the password form or by a passkey.
  The form reads the user from the member \<open>user_id\<close> of the token's payload, but tokens carry it
  as \<open>sub\<close>, so every correct password ends in the page \<open>Login failed\<close>; a passkey is registered only
  within a browser session. So from a fresh installation, after any sequence of requests, calls of the
  auth service and cleanups, there is no browser session, no passkey and no ceremony, and a request of
  a browser (one that accepts HTML) to the authorization page issues no authorization code. The other
  requests to its address go to the gRPC gateway, where a client with a bearer token does get a code.
\<close>

theorem browser_login_locked_out:
  assumes "jwt_text_ok N L" and "ae_CreateToken (ie_auth N) = CreateToken L maker" and "locked_out (db w)"
  shows "locked_out (db (id_run N W cs w)) \<and>
     (wants_html N r \<longrightarrow>
        codes (id_auth (db (id_step N W (AuthorizeReq r) (id_run N W cs w)))) = codes (id_auth (db (id_run N W cs w))))"
proof -
  have l: "locked_out (db (id_run N W cs w))"
    using assms(3) by (induction cs arbitrary: w) (simp_all add: locked_out_step [OF assms(1,2)])
  let ?d = "db (id_run N W cs w)"
  have "codes (id_auth (db (id_step N W (AuthorizeReq r) (id_run N W cs w)))) = codes (id_auth ?d)" if h: "wants_html N r"
  proof -
    have "steady (front_state (codes (id_auth ?d)) [] []) (oauth_authorize N r)"
      using assms(1,2) h by (rule steady_authorize)
    moreover have "front_state (codes (id_auth ?d)) [] [] ?d"
      using l by (simp add: front_state_def locked_out_def)
    ultimately have "front_state (codes (id_auth ?d)) [] [] (db (id_step N W (AuthorizeReq r) (id_run N W cs w)))"
      by (simp add: steady_def)
    then show ?thesis by (simp add: front_state_def)
  qed
  with l show ?thesis by simp
qed


section \<open>What a passkey login proves\<close>

lemma orFail_Answer:
  "orFail st msg m k w = (Inr (Answer n x, cs), w') \<longleftrightarrow>
     (\<exists>y v. m w = (Inr y, v) \<and> k y v = (Inr (Answer n x, cs), w'))"
  by (auto simp: orFail_def bindE_def tryE_def returnE_def split: prod.splits sum.splits)

definition passkeys_of :: "id \<Rightarrow> identity_db \<Rightarrow> Credential list" where
  "passkeys_of u d = map wc_credential (sort_key wc_created_at (filter (\<lambda>c. wc_user_id c = u) (id_credentials d)))"

lemma popSession_Some:
  assumes "popSession sid kind w = (Inr (Some (u, sd)), v)"
  obtains s now where "s \<in> set (id_sessions (db w))" "session_matches sid kind now s" "u = ws_user_id s"
    "sd = ws_session_data s" "db v = (db w)\<lparr>id_sessions := filter (\<lambda>s. \<not> session_matches sid kind now s) (id_sessions (db w))\<rparr>"
proof -
  obtain now d where q: "(case find (session_matches sid kind now) (id_sessions (db w)) of
          None \<Rightarrow> Inr (None, db w)
        | Some s \<Rightarrow> Inr (Some (ws_user_id s, ws_session_data s),
            (db w)\<lparr>id_sessions := filter (\<lambda>s. \<not> session_matches sid kind now s) (id_sessions (db w))\<rparr>))
        = (Inr (Some (u, sd), d) :: go_error + _)" and "db v = d"
    using assms by (auto simp: popSession_def go_inv split: if_splits)
  then obtain s where "find (session_matches sid kind now) (id_sessions (db w)) = Some s"
    by (cases "find (session_matches sid kind now) (id_sessions (db w))") auto
  with q \<open>db v = d\<close> that [of s now] show ?thesis
    by (auto simp: find_Some_iff)
qed

lemma loadCredentials_Inr:
  "loadCredentials u w = (Inr creds, v) \<Longrightarrow> creds = passkeys_of u (db w) \<and> db v = db w"
  by (auto simp: loadCredentials_def passkeys_of_def go_inv)

lemma store_put_True:
  assumes "store_put ttl u tok w = (Inr (sid, True), v)"
  shows "\<exists>b. bs_UserID b = u \<and> id_browser (db v) = id_browser (db w) @ [b] \<and> id_sessions (db v) = id_sessions (db w)"
  using assms
  by (auto simp: store_put_def Let_def bindE_def tryE_def onAuth_def nowUTC_def sql_def sql_now_def returnE_def
      insert_browser_session_def split: if_splits prod.splits sum.splits option.splits)

text \<open>
  C29. A passkey login signs in the right user, once. When \<open>FinishLogin\<close> answers 200, the cookie named a
  login ceremony of that user that had not expired, the library accepted the browser's answer
  against the passkeys stored for that user and the ceremony's challenge, exactly one browser session
  was added, for that user, and the ceremony is gone, so that the answer cannot be used again.
\<close>

theorem passkey_login_sound:
  assumes "FinishLogin W r w = (Inr (Answer 200 body, cookies), w')"
  shows "\<exists>s cred b. s \<in> set (id_sessions (db w)) \<and> ws_kind s = SessionKindLogin \<and>
     ws_id s = trimmed_cookie r webAuthnCookieName \<and>
     wl_FinishLogin W (self_named (ws_user_id s) (passkeys_of (ws_user_id s) (db w))) (ws_session_data s) (ir_Body r) = Inr cred \<and>
     bs_UserID b = ws_user_id s \<and> id_browser (db w') = id_browser (db w) @ [b] \<and> s \<notin> set (id_sessions (db w'))"
proof -
  let ?sid = "trimmed_cookie r webAuthnCookieName"
  obtain u sd v1 cs where p: "popSession ?sid SessionKindLogin w = (Inr (Some (u, sd)), v1)"
    and k: "orFail 500 ''failed to load credentials'' (loadCredentials u) (\<lambda>creds.
         orFail 401 ''passkey verification failed'' (liftE (wl_FinishLogin W (self_named u creds) sd (ir_Body r))) (\<lambda>cred.
         bindE (tryE (sql_now (update_credential u cred))) (\<lambda>_.
         orFail 500 ''failed to create session'' (onAuth (randomB64URL 32)) (\<lambda>browserToken.
         bindE (store_put (newBrowserSessionStore (30 * minute)) u browserToken) (\<lambda>(sessionID, ok2).
         if \<not> ok2 then returnE (ErrorPage 500 ''failed to create session'', [])
         else returnE (Answer 200 '''', [(sessionCookieName, sessionID)])))))) v1 = (Inr (Answer 200 body, cs), w')"
    using assms
    by (auto simp: FinishLogin_def orFail_Answer withCookies_def go_inv split: option.splits)
  obtain s now where s: "s \<in> set (id_sessions (db w))" "session_matches ?sid SessionKindLogin now s"
      "u = ws_user_id s" "sd = ws_session_data s"
      "db v1 = (db w)\<lparr>id_sessions := filter (\<lambda>s. \<not> session_matches ?sid SessionKindLogin now s) (id_sessions (db w))\<rparr>"
    by (rule popSession_Some [OF p])
  obtain creds v2 cred v3 r3 v4 tok v5 sid where l: "loadCredentials u v1 = (Inr creds, v2)"
    and f: "wl_FinishLogin W (self_named u creds) sd (ir_Body r) = Inr cred" "v3 = v2"
    and t: "tryE (sql_now (update_credential u cred)) v3 = (Inr r3, v4)"
    and a: "onAuth (randomB64URL 32) v4 = (Inr tok, v5)"
    and b: "store_put (newBrowserSessionStore (30 * minute)) u tok v5 = (Inr (sid, True), w')"
    using k by (auto simp: orFail_Answer go_inv split: if_splits)
  have "passkeys_of u (db v1) = passkeys_of u (db w)" using s(5) by (simp add: passkeys_of_def)
  then have c: "creds = passkeys_of u (db w)" "db v2 = db v1" using loadCredentials_Inr [OF l] by simp_all
  have d4: "id_browser (db v4) = id_browser (db v3) \<and> id_sessions (db v4) = id_sessions (db v3)"
    using t by (auto simp: tryE_def sql_now_def Let_def update_credential_def split: option.splits)
  have d5: "id_browser (db v5) = id_browser (db v4) \<and> id_sessions (db v5) = id_sessions (db v4)"
    using a by (auto simp: onAuth_def split: prod.splits)
  obtain bs where "bs_UserID bs = u" "id_browser (db w') = id_browser (db v5) @ [bs]" "id_sessions (db w') = id_sessions (db v5)"
    using store_put_True [OF b] by blast
  with s f c d4 d5 show ?thesis
    by (intro exI [of _ s] exI [of _ cred] exI [of _ bs])
      (simp add: session_matches_def)
qed


section \<open>A concrete installation\<close>

definition demo_user :: auth_user where
  "demo_user = \<lparr>au_id = ''u1'', au_email = ''a@b'', au_full_name = ''A'', au_password_hash = ''''\<rparr>"

definition demo_auth :: auth_env where
  "demo_auth =
     \<lparr>ae_CreateToken = CreateToken demo_jwt \<lparr>jm_kid = ''k'', jm_priv = demo_priv\<rparr>,
      ae_VerifyToken = (\<lambda>_ _. Inl ErrInvalidToken), ae_argon2 = sample_argon2, ae_sha256 = (\<lambda>s. s),
      ae_url_Parse = (\<lambda>_. None), ae_ParseAddress = (\<lambda>_. True), ae_ToLower = ToLower, ae_ToUpper = (\<lambda>s. s),
      ae_order = (\<lambda>s. s), ae_accessTTL = 900, ae_refreshTTL = 3600\<rparr>"

definition demo_id :: id_env where
  "demo_id =
     \<lparr>ie_auth = demo_auth, ie_url = (\<lambda>_. None), ie_json = (\<lambda>t. if t = ''{}'' then Some [] else None),
      ie_metadata = (\<lambda>_. []), ie_peer = None, ie_gateway = (\<lambda>_. None)\<rparr>"

definition demo_passkey :: Credential where
  "demo_passkey = \<lparr>wk_ID = ''c1'', wk_SignCount = 1, wk_Rest = ''''\<rparr>"

definition demo_webauthn :: webauthn_lib where
  "demo_webauthn =
     \<lparr>wl_BeginLogin = (\<lambda>n u. Inr (''options'', ''challenge'')),
      wl_FinishLogin = (\<lambda>u sd body. if demo_passkey \<in> set (wu_credentials u) \<and> body = sd then Inr demo_passkey
         else Inl (ErrorString ''verification'')),
      wl_BeginRegistration = (\<lambda>n u. Inr (''options'', ''challenge'')),
      wl_FinishRegistration = (\<lambda>u sd body. Inr demo_passkey)\<rparr>"

definition demo_browser :: id_request where
  "demo_browser =
     \<lparr>ir_Method = ''POST'', ir_Accept = '''', ir_Authorization = '''',
      ir_Cookie = (\<lambda>n. if n = webAuthnCookieName then Some ''s1'' else Some ''x''),
      ir_Query = (\<lambda>_. ''''), ir_Form = Some (\<lambda>n. if n = ''approve'' then ''yes'' else ''x''), ir_Body = ''challenge''\<rparr>"

definition id_world_of :: "webauthn_credential list \<Rightarrow> webauthn_session list \<Rightarrow> id_world" where
  "id_world_of cs ss =
     \<lparr>db = \<lparr>id_auth = migrated\<lparr>users := [demo_user]\<rparr>, id_browser = [], id_credentials = cs, id_sessions = ss\<rparr>,
      peer = None, clock = int, uuid = (\<lambda>_. ''''), fault = (\<lambda>_. None), tick = 0, txtime = None\<rparr>"

lemma demo_text_ok: "jwt_text_ok demo_id demo_jwt"
proof -
  have t: "''e30.e30.sig'' = ''e30'' @ ''.'' @ EncodeToString RawURLEncoding ''{}'' @ ''.'' @ ''sig''" by code_simp
  have "\<exists>h b s members. tok = h @ ''.'' @ EncodeToString RawURLEncoding b @ ''.'' @ s \<and>
      CHR ''.'' \<notin> set h \<and> CHR ''.'' \<notin> set s \<and> ie_json demo_id b = Some members \<and> fst ` set members \<subseteq> set claim_names"
    if "jl_Sign demo_jwt priv kid c = Inr tok" for priv kid c tok
  proof -
    have "tok = ''e30.e30.sig''" using that by (simp add: demo_jwt_def split: if_splits)
    then have "tok = ''e30'' @ ''.'' @ EncodeToString RawURLEncoding ''{}'' @ ''.'' @ ''sig''" using t by (rule trans)
    moreover have "CHR ''.'' \<notin> set ''e30''" "CHR ''.'' \<notin> set ''sig''" "ie_json demo_id ''{}'' = Some []"
        "fst ` set ([] :: (string \<times> string option) list) \<subseteq> set claim_names"
      by (simp_all add: demo_id_def)
    ultimately show ?thesis by blast
  qed
  then show ?thesis unfolding jwt_text_ok_def by blast
qed

theorem browser_login_locked_out_witness:
  "let w = id_run demo_id demo_webauthn [AuthorizeReq demo_browser, BeginLoginReq demo_browser] (id_world_of [] [])
   in locked_out (db w) \<and> codes (id_auth (db (id_step demo_id demo_webauthn (AuthorizeReq demo_browser) w))) = codes (id_auth (db w))"
proof -
  have c: "ae_CreateToken (ie_auth demo_id) = CreateToken demo_jwt \<lparr>jm_kid = ''k'', jm_priv = demo_priv\<rparr>"
    by (simp add: demo_id_def demo_auth_def)
  have "locked_out (db (id_world_of [] []))" by (simp add: id_world_of_def locked_out_def)
  moreover have "wants_html demo_id demo_browser"
    by (simp add: wants_html_def demo_id_def demo_auth_def demo_browser_def ToLower_def)
  ultimately show ?thesis
    using browser_login_locked_out [OF demo_text_ok c] by (simp only: Let_def)
qed

definition demo_stored :: webauthn_credential where
  "demo_stored = \<lparr>wc_id = ''w1'', wc_user_id = ''u1'', wc_credential_id = ''c1'', wc_credential = demo_passkey,
     wc_sign_count = 1, wc_created_at = 0, wc_updated_at = 0\<rparr>"

definition demo_ceremony :: webauthn_session where
  "demo_ceremony = \<lparr>ws_id = ''s1'', ws_kind = SessionKindLogin, ws_user_id = ''u1'', ws_session_data = ''challenge'',
     ws_expires_at = 900\<rparr>"

lemma demo_finish:
  "fst (FinishLogin demo_webauthn demo_browser (id_world_of [demo_stored] [demo_ceremony])) =
     Inr (Answer 200 '''', [(webAuthnCookieName, ''''), (sessionCookieName, replicate 43 (CHR ''A''))])"
  by code_simp

theorem passkey_login_sound_witness:
  "\<exists>b. bs_UserID b = ''u1'' \<and>
     id_browser (db (snd (FinishLogin demo_webauthn demo_browser (id_world_of [demo_stored] [demo_ceremony])))) = [b]"
proof -
  let ?w = "id_world_of [demo_stored] [demo_ceremony]"
  obtain w' where f: "FinishLogin demo_webauthn demo_browser ?w =
      (Inr (Answer 200 '''', [(webAuthnCookieName, ''''), (sessionCookieName, replicate 43 (CHR ''A''))]), w')"
    using demo_finish by (metis prod.collapse)
  have "id_sessions (db ?w) = [demo_ceremony]" "id_browser (db ?w) = []" by (simp_all add: id_world_of_def)
  with passkey_login_sound [OF f] f show ?thesis by (auto simp: demo_ceremony_def)
qed

end
