(* ===== verification/AccountWorker.thy ===== *)
theory AccountWorker
  imports Account
begin

text \<open>
  The account service's projection worker, \<open>src/services/account-service/application/workers/projection_worker.go\<close>:
  it reads the whole log in batches of 100, from sequence number 0 after every restart, and writes
  the projection row of each account it meets, one statement at a time. \<open>main.go\<close> runs it beside the
  command handlers, which write the same rows.
\<close>

section \<open>The worker\<close>

record AccountProjectionWorker =
  aw_batch :: int
  aw_polling :: duration

definition NewAccountProjectionWorker :: AccountProjectionWorker where
  "NewAccountProjectionWorker = \<lparr>aw_batch = 100, aw_polling = 1 * second\<rparr>"

text \<open>The switch on the event's type; \<open>None\<close> is the default case, which skips the event.\<close>

definition project_fields :: "Event \<Rightarrow> AccountProjection \<Rightarrow> go_error + AccountProjection option" where
  "project_fields e p =
     (if ev_Type e = ''account.opened.v1'' then
        bindS (UnmarshalAccountEvent ''account.opened.v1'' (ev_Data e)) (\<lambda>ev.
        case ev of
          AccountOpened i c t \<Rightarrow> Inr (Some (p\<lparr>ap_CustomerID := c, ap_Status := StatusActive\<rparr>))
        | _ \<Rightarrow> Inr None)
      else if ev_Type e = ''account.frozen.v1'' then Inr (Some (p\<lparr>ap_Status := StatusFrozen\<rparr>))
      else if ev_Type e = ''account.closed.v1'' then Inr (Some (p\<lparr>ap_Status := StatusClosed\<rparr>))
      else if ev_Type e = ''account.money_deposited.v1'' then Inr (Some p)
      else if ev_Type e = ''account.money_withdrawn.v1'' then Inr (Some p)
      else Inr None)"

definition account_project_event :: "Event \<Rightarrow> (account_db, 'p, unit) go" where
  "account_project_event e =
     (if ev_AggregateType e \<noteq> ''account'' then returnE ()
      else
        bindE (AccountProjection_GetByID (ev_AggregateID e)) (\<lambda>found.
        let p = (case found of
              Some p \<Rightarrow> p
            | None \<Rightarrow> \<lparr>ap_AccountID = ev_AggregateID e, ap_CustomerID = '''', ap_Status = '''', ap_Version = 0\<rparr>) in
        bindE (liftE (project_fields e p)) (\<lambda>r.
        case r of
          None \<Rightarrow> returnE ()
        | Some q \<Rightarrow>
            let q = q\<lparr>ap_Version := ev_Version e\<rparr> in
            if ap_CustomerID q = '''' then returnE ()
            else AccountProjection_Upsert (if ap_Status q = '''' then q\<lparr>ap_Status := StatusActive\<rparr> else q))))"

definition account_processNextBatch :: "AccountProjectionWorker \<Rightarrow> int \<Rightarrow> (account_db, 'p, nat \<times> int) go" where
  "account_processNextBatch wk lastSeq =
     bindE (Store_ReadAll lastSeq (aw_batch wk)) (\<lambda>(events, nextSeq).
     bindE (forE account_project_event events) (\<lambda>_.
     returnE (length events, nextSeq)))"

text \<open>\<open>Start\<close> for \<open>n\<close> ticks of its ticker: an error is logged and the position kept.\<close>

primrec account_worker_Start :: "AccountProjectionWorker \<Rightarrow> nat \<Rightarrow> int \<Rightarrow> (account_db, 'p, int) go" where
  "account_worker_Start wk 0 lastSeq = returnE lastSeq"
| "account_worker_Start wk (Suc n) lastSeq =
     bindE (tryE (account_processNextBatch wk lastSeq)) (\<lambda>r.
     case r of
       Inl err \<Rightarrow> account_worker_Start wk n lastSeq
     | Inr (processed, nextSeq) \<Rightarrow> account_worker_Start wk n (if processed > 0 then nextSeq else lastSeq))"

section \<open>One event\<close>

definition with_projection :: "account_db \<Rightarrow> (id \<Rightarrow> AccountProjection option) \<Rightarrow> account_db" where
  "with_projection d P = d\<lparr>accounts_projection := P\<rparr>"

lemma with_projection_simps [simp]:
  "event_store_events (with_projection d P) = event_store_events d" "event_seq (with_projection d P) = event_seq d"
  "accounts_projection (with_projection d P) = P"
  "with_projection (with_projection d P) Q = with_projection d Q"
  "with_projection d (accounts_projection d) = d"
  by (simp_all add: with_projection_def)

lemma log_after_with_projection [simp]: "log_after from (with_projection d P) = log_after from d"
  by (simp add: log_after_def)

lemma events_wf_with_projection [simp]: "events_wf (with_projection d P) = events_wf d"
  by (simp add: events_wf_def)

text \<open>
  What the log of the command handlers looks like: decodable account events, each account's in
  version order \<open>1, ..., n\<close>, the first of them its is_opening, for a customer.
\<close>

definition of_account :: "id \<Rightarrow> Event list \<Rightarrow> Event list" where
  "of_account a es = filter (\<lambda>e. ev_AggregateID e = a) es"

definition customer_named :: "Event \<Rightarrow> bool" where
  "customer_named e \<longleftrightarrow>
     (case UnmarshalAccountEvent (ev_Type e) (ev_Data e) of Inr (AccountOpened i c t) \<Rightarrow> c \<noteq> '''' | _ \<Rightarrow> True)"

definition is_opening :: "Event \<Rightarrow> bool" where
  "is_opening e \<longleftrightarrow> (case UnmarshalAccountEvent (ev_Type e) (ev_Data e) of Inr (AccountOpened i c t) \<Rightarrow> True | _ \<Rightarrow> False)"

definition log_ok :: "Event list \<Rightarrow> bool" where
  "log_ok es \<longleftrightarrow> (\<forall>e\<in>set es. event_ok e \<and> customer_named e) \<and>
     (\<forall>a. contiguous (of_account a es) \<and> (of_account a es \<noteq> [] \<longrightarrow> is_opening (hd (of_account a es))))"

text \<open>The projection row after the events \<open>es\<close> of the log, when it was \<open>P\<close> before the first of them.\<close>

definition row_after :: "(id \<Rightarrow> AccountProjection option) \<Rightarrow> Event list \<Rightarrow> id \<Rightarrow> AccountProjection option" where
  "row_after P es a =
     (if of_account a es = [] then P a
      else Some (projection_of a (Account_Rehydrate (decoded (of_account a es)))))"

lemma of_account_simps [simp]:
  "of_account a [] = []" "of_account a (xs @ ys) = of_account a xs @ of_account a ys"
  "of_account a [e] = (if ev_AggregateID e = a then [e] else [])"
  by (simp_all add: of_account_def)

lemma decoded_last: "decoded (es @ [e]) = decoded es @ [projr (UnmarshalAccountEvent (ev_Type e) (ev_Data e))]"
  by (simp add: decoded_def)

lemma contiguous_prefix: "contiguous (es @ fs) \<Longrightarrow> contiguous es"
proof (induction fs rule: rev_induct)
  case (snoc f fs)
  then have "contiguous ((es @ fs) @ [f])" by simp
  then have "contiguous (es @ fs)" by (simp add: contiguous_def upto_rec2 del: append_assoc)
  then show ?case by (rule snoc.IH)
qed simp

lemma contiguous_last: "contiguous (es @ [e]) \<Longrightarrow> ev_Version e = int (length es) + 1"
  by (simp add: contiguous_def upto_rec2)

lemma log_ok_prefix:
  assumes "log_ok (es @ fs)"
  shows "log_ok es"
proof -
  have "contiguous (of_account a es)" and "of_account a es \<noteq> [] \<Longrightarrow> is_opening (hd (of_account a es))" for a
  proof -
    have "contiguous (of_account a es @ of_account a fs)"
        "of_account a es @ of_account a fs \<noteq> [] \<longrightarrow> is_opening (hd (of_account a es @ of_account a fs))"
      using assms by (auto simp: log_ok_def)
    then show "contiguous (of_account a es)" "of_account a es \<noteq> [] \<Longrightarrow> is_opening (hd (of_account a es))"
      using contiguous_prefix by auto
  qed
  then show ?thesis using assms by (simp add: log_ok_def)
qed

text \<open>An account that has been opened for a customer has a customer and a status.\<close>

lemma opened_fields:
  assumes "evs \<noteq> []" and "\<exists>i c t. hd evs = AccountOpened i c t"
    and "\<forall>i c t. AccountOpened i c t \<in> set evs \<longrightarrow> c \<noteq> ''''"
  shows "ac_customerID (Account_Rehydrate evs) \<noteq> '''' \<and> ac_status (Account_Rehydrate evs) \<noteq> ''''"
  using assms
proof (induction evs rule: rev_induct)
  case (snoc e evs)
  show ?case
  proof (cases "evs = []")
    case True
    with snoc.prems show ?thesis
      by (auto simp: Account_Rehydrate_def Account_step_def Let_def StatusActive_def)
  next
    case False
    then have "ac_customerID (Account_Rehydrate evs) \<noteq> '''' \<and> ac_status (Account_Rehydrate evs) \<noteq> ''''"
      using snoc.prems by (intro snoc.IH) auto
    then show ?thesis
      using snoc.prems(3)
      by (cases e) (auto simp: Account_Rehydrate_def Account_step_def Let_def StatusActive_def StatusFrozen_def
          StatusClosed_def)
  qed
qed simp


fun row_apply :: "account_event \<Rightarrow> AccountProjection \<Rightarrow> AccountProjection" where
  "row_apply (AccountOpened i c t) p = p\<lparr>ap_CustomerID := c, ap_Status := StatusActive\<rparr>"
| "row_apply (AccountFrozen i t) p = p\<lparr>ap_Status := StatusFrozen\<rparr>"
| "row_apply (AccountClosed i t) p = p\<lparr>ap_Status := StatusClosed\<rparr>"
| "row_apply (MoneyDeposited i m e t) p = p"
| "row_apply (MoneyWithdrawn i m e t) p = p"

lemma project_fields_ok:
  assumes "UnmarshalAccountEvent (ev_Type e) (ev_Data e) = Inr ev"
  shows "project_fields e p = Inr (Some (row_apply ev p))"
proof -
  consider "ev_Type e = ''account.opened.v1''" | "ev_Type e = ''account.frozen.v1''" | "ev_Type e = ''account.closed.v1''"
    | "ev_Type e = ''account.money_deposited.v1''" | "ev_Type e = ''account.money_withdrawn.v1''"
    using assms by (auto simp: UnmarshalAccountEvent_def split: if_splits)
  then show ?thesis
    using assms
    by cases (auto simp: project_fields_def UnmarshalAccountEvent_def dec_status_change_def dec_money_event_def bindS_Inr_iff)
qed

lemma row_apply_step:
  "(row_apply ev (projection_of a ag))\<lparr>ap_Version := ac_version ag + 1\<rparr> = projection_of a (Account_step ev ag)"
  by (cases ev) (simp_all add: projection_of_def Account_step_def Let_def)

lemma row_apply_opened:
  "ap_AccountID p = a \<Longrightarrow>
     (row_apply (AccountOpened i c t) p)\<lparr>ap_Version := 1\<rparr> = projection_of a (Account_Rehydrate [AccountOpened i c t])"
  by (simp add: projection_of_def Account_Rehydrate_def Account_step_def Account_zero_def Let_def)

text \<open>The new row is the projection of the account's state after the event.\<close>

lemma projected_row:
  assumes ok: "log_ok (seen @ [e])" and ev: "UnmarshalAccountEvent (ev_Type e) (ev_Data e) = Inr ev"
    and keyed: "\<And>a p. P a = Some p \<Longrightarrow> ap_AccountID p = a" and a: "a = ev_AggregateID e"
    and p: "p = (case row_after P seen a of Some p \<Rightarrow> p
        | None \<Rightarrow> \<lparr>ap_AccountID = a, ap_CustomerID = '''', ap_Status = '''', ap_Version = 0\<rparr>)"
  shows "(row_apply ev p)\<lparr>ap_Version := ev_Version e\<rparr> =
     projection_of a (Account_Rehydrate (decoded (of_account a (seen @ [e]))))"
proof (cases "of_account a seen = []")
  case True
  have "of_account a (seen @ [e]) = [e]" using True a by simp
  then have "contiguous ([] @ [e])" and o: "is_opening e"
    using ok unfolding log_ok_def by (metis append_Nil, metis list.sel(1) list.distinct(1))
  from contiguous_last [OF this(1)] have o1: "ev_Version e = 1" by simp
  from o obtain i c t where "ev = AccountOpened i c t"
    using ev by (auto simp: is_opening_def split: account_event.splits)
  moreover have "ap_AccountID p = a" using p True keyed by (auto simp: row_after_def split: option.split)
  ultimately show ?thesis
    using row_apply_opened True a ev o1 by (simp add: decoded_def)
next
  case False
  let ?ag = "Account_Rehydrate (decoded (of_account a seen))"
  have "contiguous (of_account a (seen @ [e]))" using ok by (simp add: log_ok_def)
  then have "ev_Version e = int (length (of_account a seen)) + 1"
    using a by (intro contiguous_last) simp
  then have v: "ev_Version e = ac_version ?ag + 1"
    by (simp add: Account_Rehydrate_def account.version_replay decoded_def)
  have "p = projection_of a ?ag" using p False by (simp add: row_after_def)
  then show ?thesis
    using row_apply_step [where ev = ev and a = a and ag = ?ag] v a ev
    by (simp add: decoded_last Account_Rehydrate_def)
qed

lemma projected_fields:
  assumes "log_ok es" and "of_account a es \<noteq> []"
  shows "ac_customerID (Account_Rehydrate (decoded (of_account a es))) \<noteq> ''''"
    and "ac_status (Account_Rehydrate (decoded (of_account a es))) \<noteq> ''''"
proof -
  let ?es = "of_account a es"
  have s: "\<forall>e\<in>set ?es. event_ok e \<and> customer_named e" "is_opening (hd ?es)"
    using assms by (auto simp: log_ok_def of_account_def)
  have "\<exists>i c t. hd (decoded ?es) = AccountOpened i c t"
    using s(2) assms(2) by (auto simp: decoded_def hd_map is_opening_def split: sum.splits account_event.splits)
  moreover have "c \<noteq> ''''" if opened: "AccountOpened i c t \<in> set (decoded ?es)" for i c t
  proof -
    obtain e where e: "e \<in> set ?es" "projr (UnmarshalAccountEvent (ev_Type e) (ev_Data e)) = AccountOpened i c t"
      using opened by (auto simp: decoded_def)
    moreover have "event_ok e" "customer_named e" using s(1) e(1) by auto
    ultimately show ?thesis
      by (cases "UnmarshalAccountEvent (ev_Type e) (ev_Data e)") (auto simp: customer_named_def event_ok_def)
  qed
  ultimately show "ac_customerID (Account_Rehydrate (decoded ?es)) \<noteq> ''''"
      "ac_status (Account_Rehydrate (decoded ?es)) \<noteq> ''''"
    using opened_fields [of "decoded ?es"] assms(2) by (simp_all add: decoded_def)
qed

lemma account_project_event_run:
  assumes "healthy w" and ok: "log_ok (seen @ [e])" and keyed: "\<And>a p. P a = Some p \<Longrightarrow> ap_AccountID p = a"
    and t: "accounts_projection (db w) = row_after P seen"
  shows "account_project_event e w =
     (Inr (), w\<lparr>tick := tick w + 2, db := with_projection (db w) (row_after P (seen @ [e]))\<rparr>)"
proof -
  let ?a = "ev_AggregateID e"
  define p where "p = (case row_after P seen ?a of Some p \<Rightarrow> p
      | None \<Rightarrow> \<lparr>ap_AccountID = ?a, ap_CustomerID = '''', ap_Status = '''', ap_Version = 0\<rparr>)"
  have e: "event_ok e" using ok by (simp add: log_ok_def)
  then obtain ev where ev: "UnmarshalAccountEvent (ev_Type e) (ev_Data e) = Inr ev"
    by (auto simp: event_ok_def split: sum.splits)
  define q where "q = (row_apply ev p)\<lparr>ap_Version := ev_Version e\<rparr>"
  have q: "q = projection_of ?a (Account_Rehydrate (decoded (of_account ?a (seen @ [e]))))"
    unfolding q_def using ok ev keyed refl p_def by (rule projected_row)
  then have f: "ap_CustomerID q \<noteq> ''''" "ap_Status q \<noteq> ''''" "ap_AccountID q = ?a"
    using projected_fields [OF ok, of ?a] by (simp_all add: projection_of_def)
  have r: "row_after P (seen @ [e]) = (row_after P seen)(?a \<mapsto> q)"
    by (auto simp: row_after_def q)
  have f': "ap_CustomerID (row_apply ev p) \<noteq> ''''" "ap_Status (row_apply ev p) \<noteq> ''''"
    using f(1,2) by (simp_all add: q_def)
  have "account_project_event e w = AccountProjection_Upsert q (w\<lparr>tick := Suc (tick w)\<rparr>)"
    using assms(1) e f f'
    by (simp add: account_project_event_def event_ok_def AccountProjection_GetByID_def sql_run bindE_def t
        project_fields_ok [OF ev] liftE_def Let_def q_def [symmetric] p_def [symmetric])
  then show ?thesis
    using assms(1) f(3) by (simp add: AccountProjection_Upsert_def sql_run with_projection_def r t)
qed

lemma account_batch_run:
  assumes keyed: "\<And>a p. P a = Some p \<Longrightarrow> ap_AccountID p = a"
  shows "healthy w \<Longrightarrow> log_ok (seen @ es) \<Longrightarrow> accounts_projection (db w) = row_after P seen \<Longrightarrow>
     \<exists>w'. forE account_project_event es w = (Inr (), w') \<and> healthy w' \<and>
       db w' = with_projection (db w) (row_after P (seen @ es))"
proof (induction es arbitrary: w "seen")
  case Nil
  then show ?case by (intro exI [of _ w]) (simp add: returnE_def flip: Nil(3))
next
  case (Cons e es)
  let ?w1 = "w\<lparr>tick := tick w + 2, db := with_projection (db w) (row_after P (seen @ [e]))\<rparr>"
  have "log_ok (seen @ [e])" using Cons.prems(2) log_ok_prefix [of "seen @ [e]" es] by simp
  then have r: "account_project_event e w = (Inr (), ?w1)"
    using account_project_event_run [OF Cons.prems(1) _ keyed Cons.prems(3)] by blast
  obtain w' where "forE account_project_event es ?w1 = (Inr (), w')" "healthy w'"
      "db w' = with_projection (db w) (row_after P (seen @ e # es))"
    using Cons.IH [of ?w1 "seen @ [e]"] Cons.prems(1,2) by auto
  then show ?case using r by (intro exI [of _ w']) (simp add: bindE_def)
qed


section \<open>Catching up\<close>

lemma account_processNextBatch_run:
  assumes keyed: "\<And>a p. P a = Some p \<Longrightarrow> ap_AccountID p = a"
    and "healthy w" and "events_wf (db w)" and "0 < aw_batch wk"
    and ok: "log_ok (seen @ map snd (log_after from (db w)))" and t: "accounts_projection (db w) = row_after P seen"
  shows "\<exists>w'. account_processNextBatch wk from w =
       (Inr (let rows = take (nat (aw_batch wk)) (log_after from (db w))
             in (length rows, if rows = [] then from else fst (last rows))), w') \<and> healthy w' \<and>
     db w' = with_projection (db w) (row_after P (seen @ map snd (take (nat (aw_batch wk)) (log_after from (db w)))))"
proof -
  let ?rows = "take (nat (aw_batch wk)) (log_after from (db w))" and ?w1 = "w\<lparr>tick := Suc (tick w)\<rparr>"
  have rd: "Store_ReadAll from (aw_batch wk) w =
      (Inr (map snd ?rows, if ?rows = [] then from else fst (last ?rows)), ?w1)"
    using assms(2,4) select_all_wf [OF assms(3)]
    by (simp add: Store_ReadAll_def sql_run default_limit_def Let_def log_after_def)
  have "log_ok ((seen @ map snd ?rows) @ map snd (drop (nat (aw_batch wk)) (log_after from (db w))))"
    using ok by (simp flip: map_append)
  then have "log_ok (seen @ map snd ?rows)" by (rule log_ok_prefix)
  then obtain w' where "forE account_project_event (map snd ?rows) ?w1 = (Inr (), w')" "healthy w'"
      "db w' = with_projection (db w) (row_after P (seen @ map snd ?rows))"
    using account_batch_run [where P = P and w = ?w1 and seen = seen and es = "map snd ?rows"] keyed assms(2) t by auto
  then show ?thesis
    by (intro exI [of _ w']) (simp add: account_processNextBatch_def rd go_run Let_def)
qed

lemma account_worker_run:
  assumes keyed: "\<And>a p. P a = Some p \<Longrightarrow> ap_AccountID p = a" and b: "0 < aw_batch wk"
  shows "healthy w \<Longrightarrow> events_wf (db w) \<Longrightarrow> log_ok (seen @ map snd (log_after from (db w))) \<Longrightarrow>
     accounts_projection (db w) = row_after P seen \<Longrightarrow>
     length (log_after from (db w)) \<le> n * nat (aw_batch wk) \<Longrightarrow>
     \<exists>w' lastSeq. account_worker_Start wk n from w = (Inr lastSeq, w') \<and>
       db w' = with_projection (db w) (row_after P (seen @ map snd (log_after from (db w))))"
proof (induction n arbitrary: w "from" seen)
  case 0
  then show ?case by (intro exI [of _ w] exI [of _ "from"]) (simp add: returnE_def flip: 0(4))
next
  case (Suc n)
  let ?L = "log_after from (db w)" and ?k = "nat (aw_batch wk)"
  let ?next = "if take ?k ?L = [] then from else fst (last (take ?k ?L))"
  obtain w' where run: "account_processNextBatch wk from w = (Inr (length (take ?k ?L), ?next), w')" and "healthy w'"
    and d: "db w' = with_projection (db w) (row_after P (seen @ map snd (take ?k ?L)))"
    using account_processNextBatch_run [OF keyed Suc.prems(1,2) b Suc.prems(3,4)] by (auto simp: Let_def)
  define sq where "sq = (if 0 < length (take ?k ?L) then ?next else from)"
  have rest: "log_after sq (db w) = drop ?k ?L"
    using log_after_next [OF Suc.prems(2), of ?k "from"] b by (simp add: sq_def split: if_splits)
  have all: "(seen @ map snd (take ?k ?L)) @ map snd (drop ?k ?L) = seen @ map snd ?L"
    by (simp flip: map_append)
  have len: "length ?L - ?k \<le> n * ?k" using Suc.prems(5) by simp
  obtain w'' lastSeq where st: "account_worker_Start wk n sq w' = (Inr lastSeq, w'')"
    and d2: "db w'' = with_projection (db w') (row_after P (seen @ map snd ?L))"
    using Suc.IH [OF \<open>healthy w'\<close>, of "seen @ map snd (take ?k ?L)" sq] Suc.prems(2,3) all len
    by (auto simp: rest d)
  have "account_worker_Start wk (Suc n) from w = (Inr lastSeq, w'')"
    using st unfolding account_worker_Start.simps tryE_def sq_def by (simp only: run bindE_run prod.case sum.case)
  with d2 d show ?case by auto
qed

lemma stream_of_account:
  "contiguous (of_account a (map snd (event_store_events d))) \<Longrightarrow> stream d a = of_account a (map snd (event_store_events d))"
  unfolding stream_def of_account_def
  by (rule sort_key_id_if_sorted) (metis contiguous_def sorted_upto)

text \<open>
  C30. The worker rebuilds the projection from the log. From any content of the table, a worker started
  at sequence number 0 makes, after enough ticks for its batches of 100, the row of every account
  that has events exactly the state its events replay to, and leaves the other rows and the log
  alone. So it repairs a table that was lost or damaged, and replaying the log again after a restart
  is harmless once it has caught up.
\<close>

theorem account_projection_rebuild:
  assumes "healthy w" and "events_wf (db w)" and "log_ok (map snd (event_store_events (db w)))"
    and "\<forall>a p. accounts_projection (db w) a = Some p \<longrightarrow> ap_AccountID p = a"
    and "length (event_store_events (db w)) \<le> n * 100"
  shows "\<exists>w' lastSeq. account_worker_Start NewAccountProjectionWorker n 0 w = (Inr lastSeq, w') \<and>
     event_store_events (db w') = event_store_events (db w) \<and>
     (\<forall>a. accounts_projection (db w') a =
        (if stream (db w) a = [] then accounts_projection (db w) a
         else Some (projection_of a (replayed (db w) a))))"
proof -
  let ?es = "map snd (event_store_events (db w))" and ?P = "accounts_projection (db w)"
  have z: "log_after 0 (db w) = event_store_events (db w)" using assms(2) by (rule log_after_0)
  have "\<exists>w' lastSeq. account_worker_Start NewAccountProjectionWorker n 0 w = (Inr lastSeq, w') \<and>
      db w' = with_projection (db w) (row_after ?P ([] @ map snd (log_after 0 (db w))))"
    using assms by (intro account_worker_run) (auto simp: z NewAccountProjectionWorker_def row_after_def fun_eq_iff)
  then obtain w' lastSeq where r: "account_worker_Start NewAccountProjectionWorker n 0 w = (Inr lastSeq, w')"
      "db w' = with_projection (db w) (row_after ?P ?es)" by (auto simp: z)
  have "stream (db w) a = of_account a ?es" for a
    using assms(3) by (intro stream_of_account) (simp add: log_ok_def)
  with r show ?thesis by (auto simp: row_after_def replayed_def)
qed


section \<open>Two accounts, one of them frozen\<close>

definition sample_events :: "(int \<times> Event) list" where
  "sample_events =
     [(1, account_store_event ''e1'' ''a'' (AccountOpened ''a'' ''c1'' 0) 1),
      (2, account_store_event ''e2'' ''b'' (AccountOpened ''b'' ''c2'' 0) 1),
      (4, account_store_event ''e3'' ''a'' (AccountFrozen ''a'' 0) 2)]"

definition frozen_row :: AccountProjection where
  "frozen_row = \<lparr>ap_AccountID = ''a'', ap_CustomerID = ''c1'', ap_Status = StatusFrozen, ap_Version = 2\<rparr>"

definition sample_accounts :: "(id \<Rightarrow> AccountProjection option) \<Rightarrow> (nat \<Rightarrow> string option) \<Rightarrow> (account_db, unit) world" where
  "sample_accounts P faults =
     \<lparr>db = \<lparr>columns = [], outbox_messages = [], event_store_events = sample_events, event_seq = 4,
        event_store_snapshots = [], accounts_projection = P\<rparr>,
      peer = (), clock = int, uuid = (\<lambda>_. ''''), fault = faults, tick = 0, txtime = None\<rparr>"

lemma sample_log_ok: "log_ok (map snd sample_events)"
proof -
  have e: "\<forall>e\<in>set (map snd sample_events). event_ok e \<and> customer_named e" by code_simp
  have "contiguous (of_account a (map snd sample_events)) \<and>
      (of_account a (map snd sample_events) \<noteq> [] \<longrightarrow> is_opening (hd (of_account a (map snd sample_events))))" for a
  proof (cases "a \<in> {''a'', ''b''}")
    case False
    then have "of_account a (map snd sample_events) = []"
      by (auto simp: of_account_def sample_events_def account_store_event_def)
    then show ?thesis by simp
  next
    case True
    have "list_all (\<lambda>a. contiguous (of_account a (map snd sample_events)) \<and>
        is_opening (hd (of_account a (map snd sample_events)))) [''a'', ''b'']" by code_simp
    with True show ?thesis by (auto simp: list_all_iff)
  qed
  with e show ?thesis by (simp add: log_ok_def)
qed

theorem account_projection_rebuild_witness:
  "\<exists>w'. snd (account_worker_Start NewAccountProjectionWorker 1 0 (sample_accounts Map.empty (\<lambda>_. None))) = w' \<and>
     accounts_projection (db w') ''a'' = Some frozen_row"
proof -
  let ?w = "sample_accounts Map.empty (\<lambda>_. None)"
  have w: "healthy ?w" "events_wf (db ?w)" "event_store_events (db ?w) = sample_events"
    by (simp_all add: sample_accounts_def healthy_def events_wf_def sample_events_def account_store_event_def)
  have r: "stream (db ?w) ''a'' \<noteq> []" "projection_of ''a'' (replayed (db ?w) ''a'') = frozen_row" by code_simp+
  have "\<exists>w' lastSeq. account_worker_Start NewAccountProjectionWorker 1 0 ?w = (Inr lastSeq, w') \<and>
     event_store_events (db w') = event_store_events (db ?w) \<and>
     (\<forall>a. accounts_projection (db w') a =
        (if stream (db ?w) a = [] then accounts_projection (db ?w) a
         else Some (projection_of a (replayed (db ?w) a))))"
    using w sample_log_ok
    by (intro account_projection_rebuild) (simp_all add: sample_accounts_def sample_events_def)
  then show ?thesis using r by (metis snd_conv)
qed

text \<open>
  Until it has caught up, the worker undoes what the command handlers have written: it starts at
  sequence number 0 and writes each row as it was at the event it has reached. When a statement fails
  in the middle of a batch the table stays so until a later tick: the frozen account \<open>a\<close>, whose row
  was right, is shown active at version 1.
\<close>

lemma account_worker_regresses:
  "accounts_projection (db (snd (account_worker_Start NewAccountProjectionWorker 1 0
     (sample_accounts [''a'' \<mapsto> frozen_row] (\<lambda>n. if n = 4 then Some ''timeout'' else None))))) ''a'' =
     Some \<lparr>ap_AccountID = ''a'', ap_CustomerID = ''c1'', ap_Status = StatusActive, ap_Version = 1\<rparr>"
  by code_simp

end
