(* ===== verification/SideServices.thy ===== *)
theory SideServices
  imports Complex_Main Prelude
begin

text \<open>
  Two of the services around the core that compute something: the fraud engine
  (\<open>src/services/fraud-engine\<close>: the rules and the gRPC method) and the vault service
  (\<open>src/services/vault-service\<close>: tokenization over the transit engine of HashiCorp Vault, which is a
  parameter). Parsing of a \<open>big.Float\<close> is a parameter; the scores are \<open>float32\<close> values, with the
  rounding of each operation.
\<close>

section \<open>Single precision\<close>

text \<open>
  Rounding of a number between \<open>2 ^ -32\<close> and \<open>2\<close> to the nearest \<open>float32\<close>, which has 24 significant
  bits; a tie goes to the even one. The scores stay in that range.
\<close>

definition round_even :: "rat \<Rightarrow> int" where
  "round_even x =
     (let f = floor x; r = x - of_int f
      in if r < 1 / 2 then f else if r > 1 / 2 then f + 1 else if even f then f else f + 1)"

primrec scale_of :: "nat \<Rightarrow> rat \<Rightarrow> nat" where
  "scale_of 0 x = 0"
| "scale_of (Suc n) x = (if 1 \<le> x then 0 else Suc (scale_of n (2 * x)))"

definition float32 :: "rat \<Rightarrow> rat" where
  "float32 x = (let m = 2 ^ (23 + scale_of 32 x) in of_int (round_even (x * m)) / m)"

definition add32 :: "rat \<Rightarrow> rat \<Rightarrow> rat" where
  "add32 x y = float32 (x + y)"

section \<open>The fraud engine\<close>

datatype bigFloat = Finite rat | PosInf | NegInf

definition exceeds :: "bigFloat \<Rightarrow> rat \<Rightarrow> bool" where
  "exceeds x t = (case x of Finite q \<Rightarrow> t < q | PosInf \<Rightarrow> True | NegInf \<Rightarrow> False)"

record Transaction =
  fx_ID :: string
  fx_UserID :: string
  fx_Amount :: bigFloat
  fx_Currency :: string
  fx_DeviceID :: string
  fx_IPAddress :: string
  fx_IsNewDevice :: bool

record RuleResult =
  rr_Score :: rat
  rr_Decision :: string
  rr_Reasons :: "string list"

text \<open>One rule: when it fires it adds to the score and names its reason.\<close>

definition fraud_rule :: "bool \<Rightarrow> rat \<Rightarrow> string \<Rightarrow> rat \<times> string list \<Rightarrow> rat \<times> string list" where
  "fraud_rule fires weight reason = (\<lambda>(score, reasons).
     if fires then (add32 score (float32 weight), reasons @ [reason]) else (score, reasons))"

definition Evaluate :: "Transaction \<Rightarrow> RuleResult" where
  "Evaluate txn =
     (let st = (float32 (1 / 100), []);
          st = fraud_rule (exceeds (fx_Amount txn) 10000) (4 / 10) ''high_value_transaction'' st;
          st = fraud_rule (fx_IsNewDevice txn) (3 / 10) ''new_device_detected'' st;
          st = fraud_rule (fx_DeviceID txn = '''') (2 / 10) ''missing_device_id'' st;
          score = fst st;
          decision = (if float32 (8 / 10) \<le> score then ''reject''
                      else if float32 (4 / 10) \<le> score then ''review'' else ''approve'')
      in \<lparr>rr_Score = score, rr_Decision = decision, rr_Reasons = snd st\<rparr>)"

text \<open>\<open>sr_NewDevice\<close> is the metadata field \<open>is_new_device\<close>: absent, or its boolean value.\<close>

record ScoreRequest =
  sr_TransactionId :: string
  sr_UserId :: string
  sr_Amount :: string
  sr_Currency :: string
  sr_DeviceId :: string
  sr_IpAddress :: string
  sr_NewDevice :: "bool option"

definition ScoreTransaction :: "(string \<Rightarrow> bigFloat option) \<Rightarrow> ScoreRequest \<Rightarrow> go_error + RuleResult" where
  "ScoreTransaction SetString req =
     (case SetString (sr_Amount req) of
        None \<Rightarrow> Inl (Status InvalidArgument ''invalid amount format'')
      | Some amount \<Rightarrow>
          Inr (Evaluate \<lparr>fx_ID = sr_TransactionId req, fx_UserID = sr_UserId req, fx_Amount = amount,
            fx_Currency = sr_Currency req, fx_DeviceID = sr_DeviceId req, fx_IPAddress = sr_IpAddress req,
            fx_IsNewDevice = (case sr_NewDevice req of None \<Rightarrow> False | Some b \<Rightarrow> b)\<rparr>))"

text \<open>The eight possible scores against the two thresholds.\<close>

definition score_of :: "bool \<Rightarrow> bool \<Rightarrow> bool \<Rightarrow> rat" where
  "score_of high new missing =
     fst (fraud_rule missing (2 / 10) ''m'' (fraud_rule new (3 / 10) ''n'' (fraud_rule high (4 / 10) ''h''
       (float32 (1 / 100), []))))"

lemma float32_constants:
  "float32 (1 / 100) = 5368709 / 536870912" "float32 (4 / 10) = 13421773 / 33554432"
  "float32 (3 / 10) = 5033165 / 16777216" "float32 (2 / 10) = 13421773 / 67108864"
  "float32 (8 / 10) = 13421773 / 16777216"
  by code_simp+

lemma float32_sums:
  "add32 (5368709 / 536870912) (13421773 / 33554432) = 13757317 / 33554432"
  "add32 (5368709 / 536870912) (5033165 / 16777216) = 5200937 / 16777216"
  "add32 (5368709 / 536870912) (13421773 / 67108864) = 7046431 / 33554432"
  "add32 (13757317 / 33554432) (5033165 / 16777216) = 744489 / 1048576"
  "add32 (13757317 / 33554432) (13421773 / 67108864) = 5117051 / 8388608"
  "add32 (5200937 / 16777216) (13421773 / 67108864) = 2139095 / 4194304"
  "add32 (744489 / 1048576) (13421773 / 67108864) = 15267267 / 16777216"
  by code_simp+

lemma score_thresholds:
  "float32 (8 / 10) \<le> score_of high new missing \<longleftrightarrow> high \<and> new \<and> missing"
  "float32 (4 / 10) \<le> score_of high new missing \<longleftrightarrow> high \<or> new \<and> missing"
  unfolding score_of_def fraud_rule_def float32_constants
  by (cases high; cases new; cases missing; simp add: float32_sums)+

lemma Evaluate_score:
  "rr_Score (Evaluate txn) = score_of (exceeds (fx_Amount txn) 10000) (fx_IsNewDevice txn) (fx_DeviceID txn = '''')"
  by (simp add: Evaluate_def score_of_def fraud_rule_def Let_def)

lemma Evaluate_decision:
  "rr_Decision (Evaluate txn) =
     (if float32 (8 / 10) \<le> rr_Score (Evaluate txn) then ''reject''
      else if float32 (4 / 10) \<le> rr_Score (Evaluate txn) then ''review'' else ''approve'')"
  by (simp add: Evaluate_def Let_def)

text \<open>
  C31. The decisions of the fraud engine, with the rounding of the scores: a transaction is rejected
  exactly when it is above 10000, from a new device and without a device id; it is approved exactly
  when it is at most 10000 and not both of the others hold; all else is reviewed. The reasons are
  those of the rules that fired, in order.
\<close>

theorem fraud_decisions:
  "rr_Decision (Evaluate txn) =
     (let high = exceeds (fx_Amount txn) 10000; new = fx_IsNewDevice txn; missing = (fx_DeviceID txn = '''')
      in if high \<and> new \<and> missing then ''reject''
         else if high \<or> new \<and> missing then ''review'' else ''approve'') \<and>
   rr_Reasons (Evaluate txn) =
     (if exceeds (fx_Amount txn) 10000 then [''high_value_transaction''] else []) @
     (if fx_IsNewDevice txn then [''new_device_detected''] else []) @
     (if fx_DeviceID txn = '''' then [''missing_device_id''] else [])"
proof (rule conjI)
  show "rr_Decision (Evaluate txn) =
     (let high = exceeds (fx_Amount txn) 10000; new = fx_IsNewDevice txn; missing = (fx_DeviceID txn = '''')
      in if high \<and> new \<and> missing then ''reject''
         else if high \<or> new \<and> missing then ''review'' else ''approve'')"
    unfolding Evaluate_decision Evaluate_score score_thresholds by (simp only: Let_def)
qed (simp add: Evaluate_def fraud_rule_def Let_def)

section \<open>The vault service\<close>

text \<open>
  \<open>WriteWithContext\<close> of Vault's client: the path and the body give an error or a \<open>*Secret\<close>, which may
  be nil, with the values of its data.
\<close>

datatype vault_value = VaultString string | VaultOther

type_synonym vault_secret = "string \<Rightarrow> vault_value option"
type_synonym vault_client = "string \<Rightarrow> (string \<times> string) list \<Rightarrow> go_error + vault_secret option"

definition secret_string :: "string \<Rightarrow> vault_secret option \<Rightarrow> go_error + string" where
  "secret_string name secret =
     (case secret of
        None \<Rightarrow> Inl (Panic ''nil pointer dereference'')
      | Some Data \<Rightarrow>
          (case Data name of
             Some (VaultString text) \<Rightarrow> Inr text
           | _ \<Rightarrow> Inl (ErrorString ''invalid response from vault'')))"

definition Client_Tokenize :: "vault_client \<Rightarrow> string \<Rightarrow> string \<Rightarrow> go_error + string" where
  "Client_Tokenize V category data =
     (case V (''transit/encrypt/'' @ category) [(''plaintext'', data)] of
        Inl err \<Rightarrow> Inl err
      | Inr secret \<Rightarrow> secret_string ''ciphertext'' secret)"

definition Client_Detokenize :: "vault_client \<Rightarrow> string \<Rightarrow> string \<Rightarrow> go_error + string" where
  "Client_Detokenize V token reason =
     (case V ''transit/decrypt/card_pan'' [(''ciphertext'', token)] of
        Inl err \<Rightarrow> Inl err
      | Inr secret \<Rightarrow> secret_string ''plaintext'' secret)"

definition Tokenize :: "vault_client \<Rightarrow> string \<Rightarrow> string \<Rightarrow> go_error + string" where
  "Tokenize V category data =
     (case Client_Tokenize V category data of
        Inl (Panic m) \<Rightarrow> Inl (Panic m)
      | Inl err \<Rightarrow> Inl (Status Internal (''failed to tokenize: '' @ Error_text err))
      | Inr token \<Rightarrow> Inr token)"

definition Detokenize :: "vault_client \<Rightarrow> string \<Rightarrow> string \<Rightarrow> go_error + string" where
  "Detokenize V token reason =
     (if reason = '''' then Inl (Status InvalidArgument ''detokenize reason is required for audit'')
      else (case Client_Detokenize V token reason of
        Inl (Panic m) \<Rightarrow> Inl (Panic m)
      | Inl err \<Rightarrow> Inl (Status PermissionDenied ''failed to detokenize'')
      | Inr plaintext \<Rightarrow> Inr plaintext))"

text \<open>
  What is relied on of the transit engine: a ciphertext decrypts under the key it was made with, to
  the text it was made from, and a request to decrypt it under another key is an error.
\<close>

definition decrypts :: "vault_client \<Rightarrow> string \<Rightarrow> string \<Rightarrow> string \<Rightarrow> bool" where
  "decrypts V key token data \<longleftrightarrow>
     (\<exists>Data. V (''transit/decrypt/'' @ key) [(''ciphertext'', token)] = Inr (Some Data) \<and> Data ''plaintext'' = Some (VaultString data))"

definition transit_ok :: "vault_client \<Rightarrow> bool" where
  "transit_ok V \<longleftrightarrow>
     (\<forall>k p Data c. V (''transit/encrypt/'' @ k) [(''plaintext'', p)] = Inr (Some Data) \<and> Data ''ciphertext'' = Some (VaultString c) \<longrightarrow>
        decrypts V k c p \<and>
        (\<forall>k'. k' \<noteq> k \<longrightarrow> (\<exists>m. V (''transit/decrypt/'' @ k') [(''ciphertext'', c)] = Inl (ErrorString m))))"

lemma Client_Tokenize_Inr:
  assumes "Client_Tokenize V category data = Inr token"
  obtains Data where "V (''transit/encrypt/'' @ category) [(''plaintext'', data)] = Inr (Some Data)"
    "Data ''ciphertext'' = Some (VaultString token)"
  using assms
  by (auto simp: Client_Tokenize_def secret_string_def split: sum.splits option.splits vault_value.splits)

lemma Client_Detokenize_decrypts:
  "decrypts V ''card_pan'' token data \<Longrightarrow> Client_Detokenize V token reason = Inr data"
  by (auto simp: decrypts_def Client_Detokenize_def secret_string_def)

text \<open>
  A token can be turned back into the data only if its category is \<open>card_pan\<close>: detokenization
  always uses the key of that name, whatever category the data was tokenized under, so data of
  every other category is lost.
\<close>

theorem detokenize_card_only:
  assumes "transit_ok V" and "Tokenize V category data = Inr token" and "reason \<noteq> ''''"
  shows "Detokenize V token reason =
     (if category = ''card_pan'' then Inr data else Inl (Status PermissionDenied ''failed to detokenize''))"
proof -
  have "Client_Tokenize V category data = Inr token"
    using assms(2) by (simp add: Tokenize_def split: sum.splits go_error.splits)
  then obtain Data where "V (''transit/encrypt/'' @ category) [(''plaintext'', data)] = Inr (Some Data)"
      "Data ''ciphertext'' = Some (VaultString token)"
    by (rule Client_Tokenize_Inr)
  then have d: "decrypts V category token data"
      and o: "\<And>k'. k' \<noteq> category \<Longrightarrow> \<exists>m. V (''transit/decrypt/'' @ k') [(''ciphertext'', token)] = Inl (ErrorString m)"
    using assms(1) by (simp_all add: transit_ok_def)
  show ?thesis
  proof (cases "category = ''card_pan''")
    case True
    then have "Client_Detokenize V token reason = Inr data" using d Client_Detokenize_decrypts by metis
    then show ?thesis using True assms(3) by (simp add: Detokenize_def)
  next
    case False
    then obtain m where "V (''transit/decrypt/'' @ ''card_pan'') [(''ciphertext'', token)] = Inl (ErrorString m)" using o by metis
    then have "Client_Detokenize V token reason = Inl (ErrorString m)" by (simp add: Client_Detokenize_def)
    then show ?thesis using False assms(3) by (simp add: Detokenize_def)
  qed
qed

definition sample_vault :: vault_client where
  "sample_vault path body =
     (if path = ''transit/encrypt/iban'' \<and> map fst body = [''plaintext'']
      then Inr (Some [''ciphertext'' \<mapsto> VaultString (CHR ''i'' # snd (hd body))])
      else if path = ''transit/decrypt/iban'' \<and> map fst body = [''ciphertext''] \<and> take 1 (snd (hd body)) = ''i''
      then Inr (Some [''plaintext'' \<mapsto> VaultString (tl (snd (hd body)))])
      else Inl (ErrorString ''no such key''))"

lemma sample_vault_ok: "transit_ok sample_vault"
  unfolding transit_ok_def
proof (intro allI impI)
  fix k p Data c
  assume a: "sample_vault (''transit/encrypt/'' @ k) [(''plaintext'', p)] = Inr (Some Data) \<and> Data ''ciphertext'' = Some (VaultString c)"
  then have k: "k = ''iban''" by (auto simp: sample_vault_def split: if_splits)
  then have c: "c = CHR ''i'' # p" using a by (auto simp: sample_vault_def)
  show "decrypts sample_vault k c p \<and>
    (\<forall>k'. k' \<noteq> k \<longrightarrow> (\<exists>m. sample_vault (''transit/decrypt/'' @ k') [(''ciphertext'', c)] = Inl (ErrorString m)))"
    by (simp add: k c decrypts_def sample_vault_def)
qed

theorem detokenize_card_only_witness:
  "transit_ok sample_vault \<and>
   Detokenize sample_vault ''i123'' ''audit'' = Inl (Status PermissionDenied ''failed to detokenize'')"
proof -
  have "Tokenize sample_vault ''iban'' ''123'' = Inr ''i123''"
    by (simp add: Tokenize_def Client_Tokenize_def secret_string_def sample_vault_def)
  from detokenize_card_only [OF sample_vault_ok this, of "''audit''"] sample_vault_ok show ?thesis by simp
qed

end
