(* ===== verification/Spec2Isabelle.thy ===== *)
theory Spec2Isabelle
  imports LedgerProjection LedgerRace AccountProps TransferProps AuthSafety AuditLog Gateway WebAuthn AccountWorker SideServices
begin

text \<open>
  FinCore: a verification development of the banking services under \<open>src/\<close>.

  \<^bold>\<open>The program.\<close> FinCore is a set of Go services. The ledger service books entries and keeps
  balances; the account service opens accounts and turns deposits and withdrawals into postings of
  the ledger; the payment service runs a payment from its initiation to its settlement, through a
  Temporal workflow or a saga that calls the other two. All three store events in Postgres
  (\<open>src/pkg/eventstore\<close>), maintain projection tables, and queue messages in an outbox
  (\<open>src/pkg/outbox\<close>) in the same transaction. The auth service holds users, roles, refresh sessions
  and OAuth clients; the identity service is its HTTP front with browser sessions and passkeys; the
  gateway checks tokens and limits rates before it forwards a request. The audit service keeps a hash
  chain of log entries; the fraud engine and the vault service compute scores and tokens.

  \<^bold>\<open>How the model reads.\<close> A handler is a function from a \<open>world\<close> to a result and a new world
  (theory \<open>Prelude\<close>): the service's database, the state of the services it calls, and arbitrary
  sources for the clock, for identifiers and for the failures of SQL statements. An error of Go is a
  value of \<open>go_error\<close>, a panic one of its values. A transaction runs its body, with no other one in
  between, and restores the database when the body or the commit fails; that a commit which reports
  an error has had no effect is an idealisation. Every statement that does not fix the sources holds for all clocks,
  identifiers and patterns of failures. A table is a map on its key or the list of its rows in the
  order of insertion, with the constraints of the migrations. \<open>int64\<close> is a 64-bit word and wraps
  around in amounts; versions and sequence numbers are integers.

  \<^bold>\<open>The theories and their sources.\<close>
  \<^item> \<open>Prelude\<close>, \<open>GoStrings\<close>, \<open>Money\<close>, \<open>Base64\<close>: Go values and effects, the \<open>strings\<close> functions in use,
    \<open>pkg/money\<close>, \<open>pkg/ids\<close>, \<open>pkg/security/base64url.go\<close>.
  \<^item> \<open>Outbox\<close>, \<open>EventStore\<close>: \<open>pkg/outbox\<close> with the relay, \<open>pkg/eventstore\<close>. The interfaces that clients
    rely on are the locales \<open>event_log\<close>, \<open>event_sourced\<close> and \<open>snapshotted\<close>; the store and the aggregates
    of the services are their interpretations.
  \<^item> \<open>LedgerDomain\<close>, \<open>Ledger\<close>, \<open>LedgerServer\<close>, \<open>LedgerProjection\<close>, \<open>LedgerProps\<close>, \<open>LedgerRace\<close>:
    \<open>services/ledger-service\<close>. \<open>PostEntryHandler_Handle\<close> is the handler of \<open>post_entry.go\<close>; the locale
    \<open>posting_service\<close> is its contract of exactly one booking per idempotency key. \<open>LedgerRace\<close> runs two
    postings whose transactions overlap, by the rules of Postgres for each isolation level and with or
    without a row lock, at the settings that the code has.
  \<^item> \<open>AccountDomain\<close>, \<open>Account\<close>, \<open>AccountServer\<close>, \<open>AccountWorker\<close>, \<open>AccountProps\<close>:
    \<open>services/account-service\<close>. The ledger is reached through the locale \<open>ledger_port\<close>, interpreted by
    the gRPC client over a network that loses calls and answers.
  \<^item> \<open>PaymentDomain\<close>, \<open>Payment\<close>, \<open>PaymentServer\<close>, \<open>PaymentProps\<close>, \<open>TransferFlow\<close>, \<open>TransferProps\<close>:
    \<open>services/payment-service\<close>, with the workflow, the saga and the clients across all three services
    (locale \<open>transfer_port\<close>).
  \<^item> \<open>Authz\<close>, \<open>Tokens\<close>, \<open>Password\<close>: \<open>pkg/security\<close>, the gRPC interceptor, tokens with the key set they
    are verified against, and password hashes.
  \<^item> \<open>LoginLimiter\<close>, \<open>AuthStore\<close>, \<open>AuthServer\<close>, \<open>AuthProps\<close>, \<open>AuthSafety\<close>: \<open>services/auth-service\<close>. The
    locales \<open>auth_relation\<close> and \<open>auth_relation_all\<close> carry a relation between databases from the
    statements to every handler; four guarantees are interpretations of them.
  \<^item> \<open>Identity\<close>, \<open>WebAuthn\<close>: \<open>services/identity-service\<close>. \<open>Gateway\<close>: \<open>services/api-gateway\<close>.
    \<open>AuditLog\<close>: \<open>services/audit-service\<close>. \<open>SideServices\<close>: \<open>services/fraud-engine\<close> and
    \<open>services/vault-service\<close>.

  \<^bold>\<open>What is shown.\<close>
  \<^item> Ledger: posting refines an abstract ledger, books once under retries and succeeds when it should;
    a projection rebuilt from the log agrees with the balances of the handler; a balance read with a
    sequence number sees that event.
  \<^item> Accounts and payments: the databases stay consistent over every run, aggregates replay to their
    state, snapshots change nothing, retries book once, a transfer books each posting at most once.
  \<^item> Messages: the relay marks them as published only after its publisher has accepted them, and
    publishes all of them when nothing fails. The worker of the payment service marks what \<open>PublishMsg\<close>
    has taken without an error, which for NATS is a buffer and no promise of delivery; its reading of
    the table may break off unnoticed.
  \<^item> Access: what the interceptor and the gateway decide, tokens from making to verification, refresh
    tokens and authorization codes that work once when calls come one after another, roles that only
    administrators change, a bound on the failed logins between two successes and one on granted
    requests, passkey logins.
  \<^item> Audit: the chain that is written by one writer without failures verifies, for entries that the
    \<open>jsonb\<close> column gives back as they were; a row with changed content is noticed or gives a collision,
    and an entry that \<open>jsonb\<close> changes breaks the chain. Fraud engine: which transactions get which decision.
  \<^item> Where the code does not do what it is meant to, the theorem states what it does: a worker that
    doubles balances, columns missing from migrations, a race that overdraws, a deposit booked before
    its checks, an amount transferred twice, a saga that moves nothing, revocations rolled back, a
    rate limit that a header evades, a login page that no browser can pass (a request to its address that
    does not accept HTML goes to the gRPC gateway and may get a code), consumers of subjects that
    nobody publishes to.

  \<^bold>\<open>Bounds and parameters.\<close> The endless loops of the workers and of the relay take the number of ticks
  as an argument; the theorems about their result give a number that is enough (one tick per batch of
  100 events, or per batch of messages). The waiting loop of the balance
  query is a recursion over the events its \<open>select\<close> receives, the timeout among them; while none of
  them has ended it, the call has not returned, which is a result of its own. All other recursion is structural. The \<open>float64\<close> values of
  the gateway's buckets are exact reals; the fraud scores are rounded to \<open>float32\<close> at each operation.
  Third-party code is a parameter: the gRPC gateway, the normalisation of \<open>jsonb\<close>, Argon2id, SHA-256, the JWT and WebAuthn libraries, Temporal,
  brokers, Vault, \<open>url.Parse\<close>, \<open>mail.ParseAddress\<close>, Unicode case mapping and collations. Where a
  property needs something of it, that is a hypothesis of the property.

  \<^bold>\<open>Not modelled.\<close> The \<open>main\<close> functions beyond the values they pass on (environment, connections, TLS,
  signals); the construction of SPIFFE credentials and the reading of secrets (\<open>spiffe_mtls.go\<close>,
  \<open>pkg/secrets\<close>), tracing, and the clients of NATS, Kafka, Postgres and Temporal, which are input and
  output; the fx, admin, notification and reporting services, whose methods return fixed data; routing
  and proxying in the gateway; the HTML of the authorization page, the discovery documents and cookie
  attributes; the web application; generated protocol code. Concurrency inside a service is modelled
  where a claim depends on it (overlapping transactions of the ledger and of payments, concurrent login
  attempts), not in general: overlapping calls with one refresh token or one authorization code, and
  audit entries that arrive at the same time, are not covered.
\<close>

section \<open>Publishers and consumers\<close>

text \<open>The topics under which the three services queue messages for the broker.\<close>

definition published_topics :: "string set" where
  "published_topics =
     {msg_Topic (account_message i t a e v) |i t a e v. True} \<union>
     {msg_Topic (payment_message i t a p v) |i t a p v. True} \<union>
     {msg_Topic (posted_row v i t) |v i t. True}"

lemma published_topics_eq: "published_topics = {accountEventsTopicV1, paymentEventsTopicV1, ledgerEventsTopicV1}"
  by (auto simp: published_topics_def account_message_def payment_message_def posted_row_def)

lemma subscriptions_miss:
  "list_all (\<lambda>p. list_all (\<lambda>t. \<not> subject_matches p t) [accountEventsTopicV1, paymentEventsTopicV1, ledgerEventsTopicV1])
     (audit_subjects @ reporting_subjects @ consumer_subjects)"
  by code_simp

text \<open>
  No message of the account, payment and ledger services reaches a consumer of the repository: no
  topic that they queue messages under matches a subject that the audit log, the reporting projection
  or the payment saga subscribes to.
\<close>

lemma events_reach_no_consumer:
  assumes "p \<in> set (audit_subjects @ reporting_subjects @ consumer_subjects)"
    and "t \<in> published_topics"
  shows "\<not> subject_matches p t"
  using subscriptions_miss assms by (auto simp: published_topics_eq list_all_iff)

end
